theory Spec2Isabelle
  imports Main
begin

section \<open>Values, failures and checked arithmetic\<close>

text \<open>
  The vault is a Solidity 0.8.11 contract. A \<open>uint256\<close> is modelled as a natural number
  below \<open>2 ^ 256\<close>; every arithmetic operation of the compiler is checked, so an overflow
  or underflow reverts with \<open>Panic(0x11)\<close>, a division by zero with \<open>Panic(0x12)\<close> and an
  array access out of bounds with \<open>Panic(0x32)\<close>. A reverted call has no effect: a function
  of the model returns \<open>Inl\<close> of the error and no state, or \<open>Inr\<close> of its result.
\<close>

type_synonym address = nat

datatype PriceType = DETERMINED | ORACLE | SPOT

datatype error =
    Panic nat
  | Mammon__ValueLengthIsNotSame nat nat
  | Mammon__DifferentTokensInPosition address address nat
  | Mammon__GuardianIsZeroAddress
  | Mammon__GuardianIsOwner address
  | Mammon__CallerIsNotGuardian
  | Mammon__SumOfWeightIsNotOne
  | Mammon__WeightChangeEndBeforeStart
  | Mammon__WeightChangeStartTimeIsAboveMax nat nat
  | Mammon__WeightChangeEndTimeIsAboveMax nat nat
  | Mammon__WeightChangeDurationIsBelowMin nat nat
  | Mammon__WeightChangeRatioIsAboveMax address nat nat
  | Mammon__AmountExceedAvailable address nat nat
  | Mammon__OraclePriceIsInvalid nat int
  | Mammon__OracleSpotPriceDivergenceExceedsMax nat nat nat
  | Mammon__OracleIsDelayedBeyondMax nat nat nat
  | Mammon__OraclesAreDisabled
  | Mammon__NoAvailableFeeForCaller address
  | Mammon__VaultNotInitialized
  | Mammon__VaultIsFinalized
  | Ownable_CallerIsNotTheOwner
  | ERC20_InsufficientBalance
  | ERC20_InsufficientAllowance
  | ERC20_DecreasedAllowanceBelowZero
  | ERC4626_Paused
  | ERC4626_MoreThanMax
  | BVault_InsufficientBalance
  | Pool_WeightsRejected

definition PANIC_ARITH :: nat where
  "PANIC_ARITH = 0x11"

definition PANIC_DIV :: nat where
  "PANIC_DIV = 0x12"

definition PANIC_INDEX :: nat where
  "PANIC_INDEX = 0x32"

definition MAX_UINT256 :: nat where
  "MAX_UINT256 = 2 ^ 256 - 1"

definition MAX_UINT32 :: nat where
  "MAX_UINT32 = 2 ^ 32 - 1"

definition rbind :: "error + 'a \<Rightarrow> ('a \<Rightarrow> error + 'b) \<Rightarrow> error + 'b" where
  "rbind m f = (case m of Inl e \<Rightarrow> Inl e | Inr x \<Rightarrow> f x)"

definition uadd :: "nat \<Rightarrow> nat \<Rightarrow> error + nat" where
  "uadd a b = (if a + b \<le> MAX_UINT256 then Inr (a + b) else Inl (Panic PANIC_ARITH))"

definition usub :: "nat \<Rightarrow> nat \<Rightarrow> error + nat" where
  "usub a b = (if b \<le> a then Inr (a - b) else Inl (Panic PANIC_ARITH))"

definition umul :: "nat \<Rightarrow> nat \<Rightarrow> error + nat" where
  "umul a b = (if a * b \<le> MAX_UINT256 then Inr (a * b) else Inl (Panic PANIC_ARITH))"

definition udiv :: "nat \<Rightarrow> nat \<Rightarrow> error + nat" where
  "udiv a b = (if b = 0 then Inl (Panic PANIC_DIV) else Inr (a div b))"

text \<open>\<open>xs[i]\<close> read and written, with the bounds check of the compiler.\<close>

definition rd :: "'a list \<Rightarrow> nat \<Rightarrow> error + 'a" where
  "rd xs i = (if i < length xs then Inr (xs ! i) else Inl (Panic PANIC_INDEX))"

definition wr :: "'a list \<Rightarrow> nat \<Rightarrow> 'a \<Rightarrow> error + 'a list" where
  "wr xs i v = (if i < length xs then Inr (xs[i := v]) else Inl (Panic PANIC_INDEX))"

text \<open>
  \<open>for (uint256 i = a; i < b; i++) body\<close> is \<open>forM [a..<b] body s\<close>: the body takes the
  loop-carried variables and the index; the first failing iteration aborts the loop.
\<close>

fun forM :: "nat list \<Rightarrow> ('s \<Rightarrow> nat \<Rightarrow> error + 's) \<Rightarrow> 's \<Rightarrow> error + 's" where
  "forM [] f s = Inr s"
| "forM (i # is) f s = rbind (f s i) (forM is f)"

section \<open>Constants of the vault\<close>

definition ONE :: nat where
  "ONE = 10 ^ 18"

definition MIN_WEIGHT :: nat where
  "MIN_WEIGHT = 10 ^ 16"

definition MINIMUM_WEIGHT_CHANGE_DURATION :: nat where
  "MINIMUM_WEIGHT_CHANGE_DURATION = 4 * 60 * 60"

definition MAX_WEIGHT_CHANGE_RATIO :: nat where
  "MAX_WEIGHT_CHANGE_RATIO = 10 ^ 15"

definition MAX_MANAGEMENT_FEE :: nat where
  "MAX_MANAGEMENT_FEE = 10 ^ 9"

section \<open>Weight normalisation\<close>

text \<open>
  \<open>normalizeWeights\<close> (MammonVaultV2.sol): every entry is scaled by \<open>ONE / weightSum\<close>
  with a truncating division, and index 0 then receives \<open>ONE - adjustedSum\<close>.
\<close>

definition normalizeWeights :: "nat list \<Rightarrow> nat \<Rightarrow> error + nat list" where
  "normalizeWeights weights weightSum =
     (let numWeights = length weights in
      rbind (forM [0..<numWeights]
               (\<lambda>(newWeights, adjustedSum) i.
                  rbind (rd weights i) (\<lambda>w.
                  rbind (umul w ONE) (\<lambda>p.
                  rbind (udiv p weightSum) (\<lambda>q.
                  rbind (wr newWeights i q) (\<lambda>newWeights'.
                  rbind (uadd adjustedSum q) (\<lambda>adjustedSum'.
                  Inr (newWeights', adjustedSum')))))))
               (replicate numWeights 0, 0))
        (\<lambda>(newWeights, adjustedSum).
           rbind (rd newWeights 0) (\<lambda>w0.
           rbind (uadd w0 ONE) (\<lambda>a.
           rbind (usub a adjustedSum) (\<lambda>b.
           wr newWeights 0 b)))))"


text \<open>
  A loop that only fills a fresh array, \<open>a = new T[](n); for i < n: a[i] = g(i)\<close>, is
  \<open>mapM g [0..<n]\<close>.
\<close>

fun mapM :: "('a \<Rightarrow> error + 'b) \<Rightarrow> 'a list \<Rightarrow> error + 'b list" where
  "mapM f [] = Inr []"
| "mapM f (x # xs) = rbind (f x) (\<lambda>y. rbind (mapM f xs) (\<lambda>ys. Inr (y # ys)))"

section \<open>The state: vault storage and the external contracts it calls\<close>

text \<open>
  The ERC-4626 wrapper behind a yield token, with the switches of \<open>ERC4626Mock\<close>
  (\<open>paused\<close>, \<open>useMaxDepositAmount\<close>, \<open>useMaxWithdrawalAmount\<close>) and its total supply of
  shares. The assets it holds are its balance of the underlying token.
\<close>

record wrapper =
  wPaused :: bool
  wMaxDepositAmount :: "nat option"
  wMaxWithdrawalAmount :: "nat option"
  wTotalSupply :: nat

text \<open>What \<open>latestRoundData()\<close> of a price feed returns.\<close>

record priceFeed =
  oAnswer :: int
  oUpdatedAt :: nat

datatype event =
    Deposit "nat list" "nat list" "nat list"
  | Withdraw "nat list" "nat list" "nat list"
  | DistributeGuardianFees address "nat list"
  | GuardianChanged address address
  | UpdateWeightsGradually nat nat "nat list"
  | UpdateWeightsWithOraclePrice "nat list" "nat list"
  | SetSwapEnabled bool
  | Finalized address "nat list"

text \<open>
  Token slots are numbered as in the vault: pool tokens \<open>0 ..< numPoolTokens\<close>, then the
  yield tokens. The tokens of a vault are pairwise distinct contracts (constructor:
  "Tokens should be unique"), so every slot has an ERC-20 ledger of its own:
  \<open>erc20Balance w t a\<close> is the balance of account \<open>a\<close> in the token of slot \<open>t\<close>.
  \<open>cash\<close> and \<open>managed\<close> are the two parts of the pool's balance of each pool token in the
  Balancer vault; the pool's own token comes first in the Balancer vault's token list.
\<close>

record world =
  blockTimestamp :: nat
  vaultAddress :: address
  bVaultAddress :: address
  owner :: address
  numPoolTokens :: nat
  numYieldTokens :: nat
  numeraireAssetIndex :: nat
  createdAt :: nat
  minFeeDuration :: nat
  minReliableVaultValue :: nat
  minSignificantDepositValue :: nat
  minYieldActionThreshold :: nat
  maxOracleSpotDivergence :: nat
  maxOracleDelay :: nat
  managementFee :: nat
  oracleUnits :: "nat list"
  yieldTokens :: "address list"
  underlyingIndexes :: "nat list"
  isWithdrawable :: "bool list"
  initialized :: bool
  finalized :: bool
  oraclesEnabled :: bool
  guardian :: address
  lastFeeCheckpoint :: nat
  guardiansFee :: "address \<Rightarrow> nat list"
  guardiansFeeTotal :: "nat list"
  erc20Balance :: "nat \<Rightarrow> address \<Rightarrow> nat"
  erc20Allowance :: "nat \<Rightarrow> address \<Rightarrow> address \<Rightarrow> nat"
  bptAddress :: address
  bptBalance :: nat
  poolTokenAddrs :: "address list"
  cash :: "nat list"
  managed :: "nat list"
  lastChangeBlock :: nat
  poolWeights :: "nat list"
  poolSchedule :: "(nat \<times> nat \<times> nat list) option"
  poolSwapFee :: nat
  poolSwapEnabled :: bool
  oracles :: "priceFeed list"
  wrappers :: "wrapper list"
  events :: "event list"

definition numTokens :: "world \<Rightarrow> nat" where
  "numTokens w = numPoolTokens w + numYieldTokens w"

text \<open>\<open>OracleStorage\<close>: the constructor reverts unless there is one oracle per pool token.\<close>

definition numOracles :: "world \<Rightarrow> nat" where
  "numOracles w = numPoolTokens w"

definition emit :: "event \<Rightarrow> world \<Rightarrow> world" where
  "emit e w = w\<lparr>events := events w @ [e]\<rparr>"

subsection \<open>ERC-20 tokens (OpenZeppelin \<open>ERC20\<close> and \<open>SafeERC20\<close>)\<close>

definition balanceOf :: "world \<Rightarrow> nat \<Rightarrow> address \<Rightarrow> nat" where
  "balanceOf w t a = erc20Balance w t a"

definition allowance :: "world \<Rightarrow> nat \<Rightarrow> address \<Rightarrow> address \<Rightarrow> nat" where
  "allowance w t holder spender = erc20Allowance w t holder spender"

definition approve :: "nat \<Rightarrow> address \<Rightarrow> address \<Rightarrow> nat \<Rightarrow> world \<Rightarrow> world" where
  "approve t holder spender amount w =
     w\<lparr>erc20Allowance :=
         (erc20Allowance w)(t := (erc20Allowance w t)(holder := (erc20Allowance w t holder)(spender := amount)))\<rparr>"

definition safeTransfer :: "nat \<Rightarrow> address \<Rightarrow> address \<Rightarrow> nat \<Rightarrow> world \<Rightarrow> error + world" where
  "safeTransfer t sender recipient amount w =
     (if erc20Balance w t sender < amount then Inl ERC20_InsufficientBalance
      else
        let b1 = (erc20Balance w t)(sender := erc20Balance w t sender - amount);
            b2 = b1(recipient := b1 recipient + amount)
        in Inr (w\<lparr>erc20Balance := (erc20Balance w)(t := b2)\<rparr>))"

definition safeTransferFrom ::
  "nat \<Rightarrow> address \<Rightarrow> address \<Rightarrow> address \<Rightarrow> nat \<Rightarrow> world \<Rightarrow> error + world" where
  "safeTransferFrom t spender sender recipient amount w =
     (let a = allowance w t sender spender in
      if a = MAX_UINT256 then safeTransfer t sender recipient amount w
      else if a < amount then Inl ERC20_InsufficientAllowance
      else safeTransfer t sender recipient amount (approve t sender spender (a - amount) w))"

definition safeIncreaseAllowance :: "nat \<Rightarrow> address \<Rightarrow> address \<Rightarrow> nat \<Rightarrow> world \<Rightarrow> error + world" where
  "safeIncreaseAllowance t holder spender v w =
     rbind (uadd (allowance w t holder spender) v) (\<lambda>newAllowance.
     Inr (approve t holder spender newAllowance w))"

definition safeDecreaseAllowance :: "nat \<Rightarrow> address \<Rightarrow> address \<Rightarrow> nat \<Rightarrow> world \<Rightarrow> error + world" where
  "safeDecreaseAllowance t holder spender v w =
     (let oldAllowance = allowance w t holder spender in
      if oldAllowance < v then Inl ERC20_DecreasedAllowanceBelowZero
      else Inr (approve t holder spender (oldAllowance - v) w))"


subsection \<open>ERC-4626 wrappers\<close>

text \<open>
  The wrapper of yield slot \<open>j\<close> (OpenZeppelin \<open>ERC4626\<close> as extended by \<open>ERC4626Mock\<close>):
  its shares are the token of slot \<open>numPoolTokens + j\<close>, its asset the pool token of slot
  \<open>underlyingIndexes[j]\<close>. Shares convert to assets rounding down; a withdrawal burns
  shares rounding up. \<open>maxDeposit\<close> and \<open>maxWithdraw\<close> revert while the wrapper is paused.
\<close>

definition totalAssets :: "world \<Rightarrow> nat \<Rightarrow> nat" where
  "totalAssets w j = erc20Balance w (underlyingIndexes w ! j) (yieldTokens w ! j)"

definition convertToAssets :: "world \<Rightarrow> nat \<Rightarrow> nat \<Rightarrow> error + nat" where
  "convertToAssets w j shares =
     rbind (rd (wrappers w) j) (\<lambda>y.
     rbind (rd (underlyingIndexes w) j) (\<lambda>_.
     rbind (rd (yieldTokens w) j) (\<lambda>_.
     if wTotalSupply y = 0 then Inr shares
     else Inr (shares * totalAssets w j div wTotalSupply y))))"

definition previewDeposit :: "world \<Rightarrow> nat \<Rightarrow> nat \<Rightarrow> error + nat" where
  "previewDeposit w j assets =
     rbind (rd (wrappers w) j) (\<lambda>y.
     if assets = 0 \<or> wTotalSupply y = 0 then Inr assets
     else if totalAssets w j = 0 then Inl (Panic PANIC_DIV)
     else Inr (assets * wTotalSupply y div totalAssets w j))"

definition previewWithdraw :: "world \<Rightarrow> nat \<Rightarrow> nat \<Rightarrow> error + nat" where
  "previewWithdraw w j assets =
     rbind (rd (wrappers w) j) (\<lambda>y.
     if assets = 0 \<or> wTotalSupply y = 0 then Inr assets
     else if totalAssets w j = 0 then Inl (Panic PANIC_DIV)
     else Inr ((assets * wTotalSupply y + totalAssets w j - 1) div totalAssets w j))"

definition maxDeposit :: "world \<Rightarrow> nat \<Rightarrow> error + nat" where
  "maxDeposit w j =
     rbind (rd (wrappers w) j) (\<lambda>y.
     if wPaused y then Inl ERC4626_Paused
     else case wMaxDepositAmount y of
            Some m \<Rightarrow> Inr m
          | None \<Rightarrow> Inr (if 0 < totalAssets w j \<or> wTotalSupply y = 0 then MAX_UINT256 else 0))"

definition maxWithdraw :: "world \<Rightarrow> nat \<Rightarrow> address \<Rightarrow> error + nat" where
  "maxWithdraw w j holder =
     rbind (rd (wrappers w) j) (\<lambda>y.
     if wPaused y then Inl ERC4626_Paused
     else case wMaxWithdrawalAmount y of
            Some m \<Rightarrow> Inr m
          | None \<Rightarrow> convertToAssets w j (balanceOf w (numPoolTokens w + j) holder))"

definition mintShares :: "nat \<Rightarrow> address \<Rightarrow> nat \<Rightarrow> world \<Rightarrow> world" where
  "mintShares j receiver shares w =
     (let t = numPoolTokens w + j; y = wrappers w ! j in
      w\<lparr>erc20Balance := (erc20Balance w)(t := (erc20Balance w t)(receiver := erc20Balance w t receiver + shares)),
        wrappers := (wrappers w)[j := y\<lparr>wTotalSupply := wTotalSupply y + shares\<rparr>]\<rparr>)"

definition burnShares :: "nat \<Rightarrow> address \<Rightarrow> nat \<Rightarrow> world \<Rightarrow> error + world" where
  "burnShares j holder shares w =
     (let t = numPoolTokens w + j; y = wrappers w ! j in
      if erc20Balance w t holder < shares then Inl ERC20_InsufficientBalance
      else Inr (w\<lparr>erc20Balance := (erc20Balance w)(t := (erc20Balance w t)(holder := erc20Balance w t holder - shares)),
                  wrappers := (wrappers w)[j := y\<lparr>wTotalSupply := wTotalSupply y - shares\<rparr>]\<rparr>))"

text \<open>\<open>yieldToken.deposit(assets, address(this))\<close>, called by the vault.\<close>

definition erc4626_deposit :: "nat \<Rightarrow> nat \<Rightarrow> world \<Rightarrow> error + world" where
  "erc4626_deposit j assets w =
     rbind (rd (underlyingIndexes w) j) (\<lambda>u.
     rbind (rd (yieldTokens w) j) (\<lambda>yAddr.
     rbind (maxDeposit w j) (\<lambda>m.
     if m < assets then Inl ERC4626_MoreThanMax
     else
       rbind (previewDeposit w j assets) (\<lambda>shares.
       rbind (safeTransferFrom u yAddr (vaultAddress w) yAddr assets w) (\<lambda>w1.
       Inr (mintShares j (vaultAddress w) shares w1))))))"

text \<open>\<open>yieldToken.withdraw(assets, address(this), address(this))\<close>, called by the vault.\<close>

definition erc4626_withdraw :: "nat \<Rightarrow> nat \<Rightarrow> world \<Rightarrow> error + world" where
  "erc4626_withdraw j assets w =
     rbind (rd (underlyingIndexes w) j) (\<lambda>u.
     rbind (rd (yieldTokens w) j) (\<lambda>yAddr.
     rbind (maxWithdraw w j (vaultAddress w)) (\<lambda>m.
     if m < assets then Inl ERC4626_MoreThanMax
     else
       rbind (previewWithdraw w j assets) (\<lambda>shares.
       rbind (burnShares j (vaultAddress w) shares w) (\<lambda>w1.
       safeTransfer u yAddr (vaultAddress w) assets w1)))))"

subsection \<open>The Balancer vault and the managed pool\<close>

text \<open>
  \<open>managePoolBalance\<close>, one operation on the pool's balance of pool token \<open>i\<close>, as the
  comment at \<open>updatePoolBalance\<close> describes the three kinds: a withdrawal moves cash to
  the managed balance and sends the tokens to the vault contract, a deposit pulls the tokens
  from the vault contract and moves managed balance to cash, an update sets the managed
  balance.
\<close>

datatype PoolBalanceOpKind = WITHDRAW | DEPOSIT | UPDATE

definition managePoolBalanceOp :: "PoolBalanceOpKind \<Rightarrow> nat \<Rightarrow> nat \<Rightarrow> world \<Rightarrow> error + world" where
  "managePoolBalanceOp kind i amount w =
     rbind (rd (cash w) i) (\<lambda>c.
     rbind (rd (managed w) i) (\<lambda>m.
     case kind of
       WITHDRAW \<Rightarrow>
         if c < amount then Inl BVault_InsufficientBalance
         else Inr (w\<lparr>cash := (cash w)[i := c - amount],
                     managed := (managed w)[i := m + amount],
                     erc20Balance := (erc20Balance w)(i := (erc20Balance w i)
                        (vaultAddress w := erc20Balance w i (vaultAddress w) + amount))\<rparr>)
     | DEPOSIT \<Rightarrow>
         if m < amount then Inl BVault_InsufficientBalance
         else rbind (safeTransferFrom i (bVaultAddress w) (vaultAddress w) (bVaultAddress w) amount w)
                (\<lambda>w1. Inr (w1\<lparr>cash := (cash w1)[i := c + amount],
                               managed := (managed w1)[i := m - amount]\<rparr>))
     | UPDATE \<Rightarrow> Inr (w\<lparr>managed := (managed w)[i := amount]\<rparr>)))"

definition bVault_getPoolTokens :: "world \<Rightarrow> address list \<times> nat list \<times> nat" where
  "bVault_getPoolTokens w =
     (bptAddress w # poolTokenAddrs w,
      bptBalance w # map2 (+) (cash w) (managed w),
      lastChangeBlock w)"

text \<open>
  \<open>pool.updateWeightsGradually\<close>. The pool rejects weights that do not match its tokens,
  do not sum to one or fall below its minimum (IGuardianAPI: "checked by Balancer in
  internal transactions"); an update whose end time has been reached applies at once
  (the pool's contract: "a gradual update with start == end applies instantaneously"),
  another one is kept as the schedule.
\<close>

definition pool_updateWeightsGradually ::
  "nat \<Rightarrow> nat \<Rightarrow> address list \<Rightarrow> nat list \<Rightarrow> world \<Rightarrow> error + world" where
  "pool_updateWeightsGradually startTime endTime tokens endWeights w =
     (if length endWeights \<noteq> length (poolWeights w) \<or> length tokens \<noteq> length endWeights
         \<or> sum_list endWeights \<noteq> ONE \<or> (\<exists>x \<in> set endWeights. x < MIN_WEIGHT)
         \<or> endTime < startTime
      then Inl Pool_WeightsRejected
      else if endTime \<le> blockTimestamp w
        then Inr (w\<lparr>poolWeights := endWeights, poolSchedule := None\<rparr>)
        else Inr (w\<lparr>poolSchedule := Some (max (blockTimestamp w) startTime, endTime, endWeights)\<rparr>))"

definition pool_getNormalizedWeights :: "world \<Rightarrow> nat list" where
  "pool_getNormalizedWeights w = poolWeights w"

definition pool_setSwapEnabled :: "bool \<Rightarrow> world \<Rightarrow> world" where
  "pool_setSwapEnabled b w = w\<lparr>poolSwapEnabled := b\<rparr>"


section \<open>Views of the vault\<close>

definition getPoolTokens :: "world \<Rightarrow> error + address list" where
  "getPoolTokens w =
     (case bVault_getPoolTokens w of (tokens, _, _) \<Rightarrow>
        mapM (\<lambda>i. rd tokens (i + 1)) [0..<numPoolTokens w])"

definition getPoolHoldings :: "world \<Rightarrow> error + nat list" where
  "getPoolHoldings w =
     (case bVault_getPoolTokens w of (_, holdings, _) \<Rightarrow>
        mapM (\<lambda>i. rd holdings (i + 1)) [0..<numPoolTokens w])"

definition getPoolTokensData :: "world \<Rightarrow> error + address list \<times> nat list \<times> nat" where
  "getPoolTokensData w =
     (case bVault_getPoolTokens w of (tokens, holdings, changeBlock) \<Rightarrow>
        rbind (mapM (\<lambda>i. rd tokens (i + 1)) [0..<numPoolTokens w]) (\<lambda>poolTokens.
        rbind (mapM (\<lambda>i. rd holdings (i + 1)) [0..<numPoolTokens w]) (\<lambda>poolHoldings.
        Inr (poolTokens, poolHoldings, changeBlock))))"

definition getTokens :: "world \<Rightarrow> error + address list" where
  "getTokens w =
     rbind (getPoolTokens w) (\<lambda>poolTokens.
     rbind (mapM (rd poolTokens) [0..<numPoolTokens w]) (\<lambda>ps.
     rbind (mapM (rd (yieldTokens w)) [0..<numYieldTokens w]) (\<lambda>ys.
     Inr (ps @ ys))))"

text \<open>
  \<open>getHoldings\<close>: the pool's balances, then for every yield token the vault's balance less
  the fees owed to guardians.
\<close>

definition getHoldings :: "world \<Rightarrow> error + nat list" where
  "getHoldings w =
     rbind (getPoolHoldings w) (\<lambda>poolHoldings.
     rbind (mapM (rd poolHoldings) [0..<numPoolTokens w]) (\<lambda>ps.
     rbind (mapM (\<lambda>i. rbind (rd (guardiansFeeTotal w) (numPoolTokens w + i)) (\<lambda>fee.
                       usub (balanceOf w (numPoolTokens w + i) (vaultAddress w)) fee))
              [0..<numYieldTokens w]) (\<lambda>ys.
     Inr (ps @ ys))))"

definition getUnderlyingBalances :: "world \<Rightarrow> error + nat list" where
  "getUnderlyingBalances w =
     mapM (\<lambda>i. rbind (rd (guardiansFeeTotal w) (numPoolTokens w + i)) (\<lambda>fee.
                rbind (usub (balanceOf w (numPoolTokens w + i) (vaultAddress w)) fee) (\<lambda>shares.
                convertToAssets w i shares)))
       [0..<numYieldTokens w]"

definition getUnderlyingTotalBalances ::
  "world \<Rightarrow> nat list \<Rightarrow> nat list \<Rightarrow> nat list \<Rightarrow> error + nat list" where
  "getUnderlyingTotalBalances w underlyingIndexes' poolHoldings underlyingBalances =
     rbind (mapM (rd poolHoldings) [0..<numPoolTokens w]) (\<lambda>underlyingTotalBalances.
     forM [0..<numYieldTokens w]
       (\<lambda>total i.
          rbind (rd underlyingBalances i) (\<lambda>b.
          if 0 < b then
            rbind (rd underlyingIndexes' i) (\<lambda>u.
            rbind (rd total u) (\<lambda>t.
            rbind (uadd t b) (\<lambda>t'.
            wr total u t')))
          else Inr total))
       underlyingTotalBalances)"

definition getValue :: "world \<Rightarrow> nat list \<Rightarrow> nat list \<Rightarrow> error + nat" where
  "getValue w amounts prices =
     forM [0..<length prices]
       (\<lambda>value i.
          if i = numeraireAssetIndex w then
            rbind (rd amounts i) (\<lambda>a. uadd value a)
          else
            rbind (rd amounts i) (\<lambda>a.
            rbind (rd prices i) (\<lambda>p.
            rbind (umul a p) (\<lambda>m.
            rbind (udiv m ONE) (\<lambda>q.
            uadd value q)))))
       0"

text \<open>
  \<open>getOraclePrices\<close>: the price and the update time of every slot; the numeraire slot
  has price \<open>ONE\<close> and no update time.
\<close>

definition getOraclePrices :: "world \<Rightarrow> error + nat list \<times> nat list" where
  "getOraclePrices w =
     rbind (mapM (\<lambda>i.
              if i = numeraireAssetIndex w then Inr (ONE, 0)
              else
                rbind (rd (oracles w) i) (\<lambda>feed.
                if oAnswer feed \<le> 0 then Inl (Mammon__OraclePriceIsInvalid i (oAnswer feed))
                else
                  rbind (rd (oracleUnits w) i) (\<lambda>unit.
                  if unit \<noteq> ONE then
                    rbind (umul (nat (oAnswer feed)) ONE) (\<lambda>m.
                    rbind (udiv m unit) (\<lambda>p.
                    Inr (p, oUpdatedAt feed)))
                  else Inr (nat (oAnswer feed), oUpdatedAt feed))))
            [0..<numOracles w])
       (\<lambda>ps. Inr (map fst ps, map snd ps))"

definition checkOracleStatus :: "world \<Rightarrow> nat list \<Rightarrow> error + unit" where
  "checkOracleStatus w updatedAt =
     (if \<not> oraclesEnabled w then Inl Mammon__OraclesAreDisabled
      else
        forM [0..<numOracles w]
          (\<lambda>_ i.
             if i = numeraireAssetIndex w then Inr ()
             else
               rbind (rd updatedAt i) (\<lambda>u.
               rbind (usub (blockTimestamp w) u) (\<lambda>delay.
               if maxOracleDelay w < delay
               then Inl (Mammon__OracleIsDelayedBeyondMax i delay (maxOracleDelay w))
               else Inr ())))
          ())"

definition calcSpotPrice :: "nat \<Rightarrow> nat \<Rightarrow> nat \<Rightarrow> nat \<Rightarrow> nat \<Rightarrow> error + nat" where
  "calcSpotPrice tokenBalanceIn tokenWeightIn tokenBalanceOut tokenWeightOut swapFee =
     rbind (umul tokenBalanceIn ONE) (\<lambda>a.
     rbind (udiv a tokenWeightIn) (\<lambda>numer.
     rbind (umul tokenBalanceOut ONE) (\<lambda>b.
     rbind (udiv b tokenWeightOut) (\<lambda>denom.
     rbind (umul numer ONE) (\<lambda>c.
     rbind (udiv c denom) (\<lambda>ratio.
     rbind (umul ONE ONE) (\<lambda>d.
     rbind (usub ONE swapFee) (\<lambda>e.
     rbind (udiv d e) (\<lambda>scale.
     rbind (umul ratio scale) (\<lambda>f.
     udiv f ONE))))))))))"

definition getSpotPrices :: "world \<Rightarrow> nat list \<Rightarrow> error + nat list" where
  "getSpotPrices w poolHoldings =
     (let weights = pool_getNormalizedWeights w; swapFee = poolSwapFee w in
      rbind (rd poolHoldings (numeraireAssetIndex w)) (\<lambda>numeraireAssetHolding.
      rbind (rd weights (numeraireAssetIndex w)) (\<lambda>numeraireAssetWeight.
      mapM (\<lambda>i.
              if i = numeraireAssetIndex w then Inr ONE
              else
                rbind (rd poolHoldings i) (\<lambda>h.
                rbind (rd weights i) (\<lambda>wt.
                calcSpotPrice numeraireAssetHolding numeraireAssetWeight h wt swapFee)))
        [0..<numPoolTokens w])))"

text \<open>The divergence check of \<open>getDeterminedPrices\<close>, its loop over the pool slots.\<close>

definition checkDivergence :: "world \<Rightarrow> nat list \<Rightarrow> nat list \<Rightarrow> error + unit" where
  "checkDivergence w oraclePrices spotPrices =
     forM [0..<numPoolTokens w]
       (\<lambda>_ i.
          if i = numeraireAssetIndex w then Inr ()
          else
            rbind (rd oraclePrices i) (\<lambda>op.
            rbind (rd spotPrices i) (\<lambda>sp.
            rbind (if sp < op then rbind (umul op ONE) (\<lambda>m. udiv m sp)
                   else rbind (umul sp ONE) (\<lambda>m. udiv m op)) (\<lambda>ratio.
            if maxOracleSpotDivergence w < ratio
            then Inl (Mammon__OracleSpotPriceDivergenceExceedsMax i ratio (maxOracleSpotDivergence w))
            else Inr ()))))
       ()"

definition getDeterminedPrices :: "world \<Rightarrow> nat list \<Rightarrow> error + nat list \<times> PriceType" where
  "getDeterminedPrices w amounts =
     rbind (getPoolHoldings w) (\<lambda>poolHoldings.
     rbind (getOraclePrices w) (\<lambda>(oraclePrices, updatedAt).
     rbind (getSpotPrices w poolHoldings) (\<lambda>spotPrices.
     rbind (getUnderlyingBalances w) (\<lambda>underlyingBalances.
     rbind (getUnderlyingTotalBalances w (underlyingIndexes w) poolHoldings underlyingBalances)
       (\<lambda>underlyingTotalBalances.
     rbind (getValue w underlyingTotalBalances spotPrices) (\<lambda>value.
     if value < minReliableVaultValue w then
       rbind (checkOracleStatus w updatedAt) (\<lambda>_. Inr (oraclePrices, ORACLE))
     else
       rbind (checkDivergence w oraclePrices spotPrices) (\<lambda>_.
       rbind (getValue w amounts spotPrices) (\<lambda>depositValue.
       if depositValue < minSignificantDepositValue w then Inr (spotPrices, SPOT)
       else rbind (checkOracleStatus w updatedAt) (\<lambda>_. Inr (oraclePrices, ORACLE))))))))))"

definition calcNormalizedWeights ::
  "world \<Rightarrow> nat \<Rightarrow> nat list \<Rightarrow> nat list \<Rightarrow> nat list \<Rightarrow> error + nat list" where
  "calcNormalizedWeights w value oraclePrices underlyingIndexes' underlyingBalances =
     (let poolWeights' = pool_getNormalizedWeights w in
      rbind (forM [0..<numYieldTokens w]
               (\<lambda>(weights, poolWeightSum, weightSum) i.
                  rbind (rd underlyingBalances i) (\<lambda>b.
                  rbind (rd underlyingIndexes' i) (\<lambda>u.
                  rbind (rd oraclePrices u) (\<lambda>p.
                  rbind (umul b p) (\<lambda>m.
                  rbind (udiv m value) (\<lambda>weight.
                  rbind (wr weights (numPoolTokens w + i) weight) (\<lambda>weights'.
                  rbind (usub poolWeightSum weight) (\<lambda>poolWeightSum'.
                  rbind (uadd weightSum weight) (\<lambda>weightSum'.
                  Inr (weights', poolWeightSum', weightSum'))))))))))
               (replicate (numTokens w) 0, ONE, 0))
        (\<lambda>(weights1, poolWeightSum, weightSum1).
      rbind (forM [0..<numPoolTokens w]
               (\<lambda>(weights, weightSum) i.
                  rbind (rd poolWeights' i) (\<lambda>pw.
                  rbind (umul pw poolWeightSum) (\<lambda>m.
                  rbind (udiv m ONE) (\<lambda>q.
                  rbind (wr weights i q) (\<lambda>weights'.
                  rbind (uadd weightSum q) (\<lambda>weightSum'.
                  Inr (weights', weightSum')))))))
               (weights1, weightSum1))
        (\<lambda>(weights, weightSum).
      rbind (rd weights 0) (\<lambda>w0.
      if ONE < weightSum then
        rbind (usub weightSum ONE) (\<lambda>d.
        rbind (usub w0 d) (\<lambda>w0'.
        wr weights 0 w0'))
      else
        rbind (usub ONE weightSum) (\<lambda>d.
        rbind (uadd w0 d) (\<lambda>w0'.
        wr weights 0 w0'))))))"

definition getNormalizedWeights :: "world \<Rightarrow> error + nat list" where
  "getNormalizedWeights w =
     rbind (getPoolHoldings w) (\<lambda>poolHoldings.
     rbind (getUnderlyingBalances w) (\<lambda>underlyingBalances.
     rbind (getOraclePrices w) (\<lambda>(oraclePrices, _).
     rbind (getUnderlyingTotalBalances w (underlyingIndexes w) poolHoldings underlyingBalances)
       (\<lambda>underlyingTotalBalances.
     rbind (getValue w underlyingTotalBalances oraclePrices) (\<lambda>value.
     calcNormalizedWeights w value oraclePrices (underlyingIndexes w) underlyingBalances)))))"


section \<open>Internal operations of the vault\<close>

definition updatePoolWeights :: "nat list \<Rightarrow> nat \<Rightarrow> world \<Rightarrow> error + world" where
  "updatePoolWeights weights weightSum w =
     rbind (normalizeWeights weights weightSum) (\<lambda>newWeights.
     rbind (getPoolTokens w) (\<lambda>poolTokens.
     pool_updateWeightsGradually (blockTimestamp w) (blockTimestamp w) poolTokens newWeights w))"

definition setSwapEnabled :: "bool \<Rightarrow> world \<Rightarrow> world" where
  "setSwapEnabled swapEnabled w = emit (SetSwapEnabled swapEnabled) (pool_setSwapEnabled swapEnabled w)"

text \<open>\<open>depositToken\<close>: pulls \<open>amount\<close> from the owner; returns the balance actually gained.\<close>

definition depositToken :: "nat \<Rightarrow> nat \<Rightarrow> world \<Rightarrow> error + nat \<times> world" where
  "depositToken t amount w =
     (let balance = balanceOf w t (vaultAddress w) in
      rbind (safeTransferFrom t (vaultAddress w) (owner w) (vaultAddress w) amount w) (\<lambda>w1.
      rbind (usub (balanceOf w1 t (vaultAddress w1)) balance) (\<lambda>gained.
      Inr (gained, w1))))"

definition clearAllowance :: "nat \<Rightarrow> address \<Rightarrow> world \<Rightarrow> error + world" where
  "clearAllowance t spender w =
     (let a = allowance w t (vaultAddress w) spender in
      if 0 < a then safeDecreaseAllowance t (vaultAddress w) spender a w else Inr w)"

definition setAllowance :: "nat \<Rightarrow> address \<Rightarrow> nat \<Rightarrow> world \<Rightarrow> error + world" where
  "setAllowance t spender amount w =
     rbind (clearAllowance t spender w) (\<lambda>w1.
     safeIncreaseAllowance t (vaultAddress w1) spender amount w1)"

definition getPoolTokenValues :: "world \<Rightarrow> nat list \<Rightarrow> error + nat list" where
  "getPoolTokenValues w vals = mapM (rd vals) [0..<numPoolTokens w]"

definition updatePoolBalance :: "nat list \<Rightarrow> PoolBalanceOpKind \<Rightarrow> world \<Rightarrow> error + world" where
  "updatePoolBalance amounts kind w =
     rbind (getPoolTokens w) (\<lambda>poolTokens.
     rbind (mapM (rd amounts) [0..<numPoolTokens w]) (\<lambda>ops.
     forM [0..<numPoolTokens w]
       (\<lambda>w1 i. rbind (rd ops i) (\<lambda>amount. managePoolBalanceOp kind i amount w1))
       w))"

definition depositToPool :: "nat list \<Rightarrow> world \<Rightarrow> error + world" where
  "depositToPool amounts w =
     rbind (updatePoolBalance amounts UPDATE w) (\<lambda>w1.
     updatePoolBalance amounts DEPOSIT w1)"

definition withdrawFromPool :: "nat list \<Rightarrow> world \<Rightarrow> error + world" where
  "withdrawFromPool amounts w =
     (let managed' = replicate (numPoolTokens w) 0 in
      rbind (updatePoolBalance amounts WITHDRAW w) (\<lambda>w1.
      updatePoolBalance managed' UPDATE w1))"

definition depositTokens :: "nat list \<Rightarrow> world \<Rightarrow> error + nat list \<times> world" where
  "depositTokens amounts w =
     rbind (getTokens w) (\<lambda>tokens.
     rbind (forM [0..<numTokens w]
              (\<lambda>(depositedAmounts, w1) i.
                 rbind (rd amounts i) (\<lambda>a.
                 if 0 < a then
                   rbind (depositToken i a w1) (\<lambda>(gained, w2).
                   rbind (wr depositedAmounts i gained) (\<lambda>depositedAmounts'.
                   if i < numPoolTokens w then
                     rbind (setAllowance i (bVaultAddress w) gained w2) (\<lambda>w3.
                     Inr (depositedAmounts', w3))
                   else Inr (depositedAmounts', w2)))
                 else Inr (depositedAmounts, w1)))
              (replicate (numTokens w) 0, w))
       (\<lambda>(depositedAmounts, w1).
     rbind (getPoolTokenValues w1 depositedAmounts) (\<lambda>poolAmounts.
     rbind (depositToPool poolAmounts w1) (\<lambda>w2.
     Inr (depositedAmounts, w2)))))"

subsection \<open>Management fees\<close>

definition getFeeIndex :: "world \<Rightarrow> bool \<Rightarrow> error + nat" where
  "getFeeIndex w lockGuaranteedFee =
     (let feeIndex = (if lastFeeCheckpoint w < blockTimestamp w
                      then blockTimestamp w - lastFeeCheckpoint w else 0) in
      if lockGuaranteedFee then
        rbind (uadd (createdAt w) (minFeeDuration w)) (\<lambda>minFeeCheckpoint.
        if blockTimestamp w < minFeeCheckpoint
        then uadd feeIndex (minFeeCheckpoint - blockTimestamp w)
        else Inr feeIndex)
      else Inr feeIndex)"

text \<open>\<open>guardiansFee[g][i] += fee; guardiansFeeTotal[i] += fee\<close>.\<close>

definition creditFee :: "address \<Rightarrow> nat \<Rightarrow> nat \<Rightarrow> world \<Rightarrow> error + world" where
  "creditFee g i fee w =
     rbind (rd (guardiansFee w g) i) (\<lambda>old.
     rbind (uadd old fee) (\<lambda>new.
     rbind (rd (guardiansFeeTotal w) i) (\<lambda>oldTotal.
     rbind (uadd oldTotal fee) (\<lambda>newTotal.
     Inr (w\<lparr>guardiansFee := (guardiansFee w)(g := (guardiansFee w g)[i := new]),
             guardiansFeeTotal := (guardiansFeeTotal w)[i := newTotal]\<rparr>)))))"

definition calcFee :: "world \<Rightarrow> nat \<Rightarrow> nat \<Rightarrow> error + nat" where
  "calcFee w holding feeIndex =
     rbind (umul holding feeIndex) (\<lambda>a.
     rbind (umul a (managementFee w)) (\<lambda>b.
     udiv b ONE))"

definition lockGuardianFees :: "bool \<Rightarrow> world \<Rightarrow> error + world" where
  "lockGuardianFees lockGuaranteedFee w =
     (if managementFee w = 0 then Inr w
      else
        rbind (getFeeIndex w lockGuaranteedFee) (\<lambda>feeIndex.
        if feeIndex = 0 then Inr w
        else
          rbind (getPoolTokens w) (\<lambda>poolTokens.
          rbind (getHoldings w) (\<lambda>holdings.
          rbind (mapM (\<lambda>i. Inr (balanceOf w i (vaultAddress w))) [0..<numPoolTokens w]) (\<lambda>balances.
          rbind (mapM (\<lambda>i. rbind (rd holdings i) (\<lambda>h. calcFee w h feeIndex)) [0..<numPoolTokens w])
            (\<lambda>newFees.
          rbind (withdrawFromPool newFees (w\<lparr>lastFeeCheckpoint := blockTimestamp w\<rparr>)) (\<lambda>w1.
          rbind (forM [0..<numPoolTokens w]
                   (\<lambda>w2 i.
                      rbind (rd balances i) (\<lambda>b.
                      rbind (usub (balanceOf w2 i (vaultAddress w2)) b) (\<lambda>newFee.
                      creditFee (guardian w2) i newFee w2)))
                   w1) (\<lambda>w3.
          forM [numPoolTokens w..<numTokens w]
            (\<lambda>w4 i.
               rbind (rd holdings i) (\<lambda>h.
               rbind (calcFee w h feeIndex) (\<lambda>newFee.
               creditFee (guardian w4) i newFee w4)))
            w3))))))))"


subsection \<open>Checks on caller-supplied values\<close>

text \<open>A \<open>TokenValue\<close> is a token address with a value (an amount or a weight).\<close>

type_synonym TokenValue = "address \<times> nat"

definition getValuesFromTokenWithValues ::
  "world \<Rightarrow> TokenValue list \<Rightarrow> address list \<Rightarrow> error + nat list" where
  "getValuesFromTokenWithValues w tokenWithValues poolTokens =
     (if numTokens w \<noteq> length tokenWithValues
      then Inl (Mammon__ValueLengthIsNotSame (numTokens w) (length tokenWithValues))
      else
        rbind (mapM (\<lambda>i. rbind (rd tokenWithValues i) (\<lambda>tv.
                         rbind (rd poolTokens i) (\<lambda>pt.
                         if fst tv \<noteq> pt then Inl (Mammon__DifferentTokensInPosition (fst tv) pt i)
                         else Inr (snd tv))))
                 [0..<numPoolTokens w]) (\<lambda>ps.
        rbind (mapM (\<lambda>i. rbind (rd tokenWithValues (numPoolTokens w + i)) (\<lambda>tv.
                         rbind (rd (yieldTokens w) i) (\<lambda>yt.
                         if fst tv \<noteq> yt
                         then Inl (Mammon__DifferentTokensInPosition (fst tv) yt (numPoolTokens w + i))
                         else Inr (snd tv))))
                 [0..<numYieldTokens w]) (\<lambda>ys.
        Inr (ps @ ys))))"

definition checkWeights :: "nat list \<Rightarrow> error + unit" where
  "checkWeights weights =
     rbind (forM [0..<length weights] (\<lambda>weightSum i. rbind (rd weights i) (uadd weightSum)) 0)
       (\<lambda>weightSum. if weightSum \<noteq> ONE then Inl Mammon__SumOfWeightIsNotOne else Inr ())"

definition checkGuardianAddress :: "world \<Rightarrow> address \<Rightarrow> error + unit" where
  "checkGuardianAddress w newGuardian =
     (if newGuardian = 0 then Inl Mammon__GuardianIsZeroAddress
      else if newGuardian = owner w then Inl (Mammon__GuardianIsOwner newGuardian)
      else Inr ())"

definition checkWithdrawAmount ::
  "world \<Rightarrow> address list \<Rightarrow> nat list \<Rightarrow> nat list \<Rightarrow> error + unit" where
  "checkWithdrawAmount w poolTokens holdings amounts =
     rbind (forM [0..<numPoolTokens w]
              (\<lambda>_ i.
                 rbind (rd amounts i) (\<lambda>a.
                 rbind (rd holdings i) (\<lambda>h.
                 if h < a then rbind (rd poolTokens i) (\<lambda>pt. Inl (Mammon__AmountExceedAvailable pt a h))
                 else Inr ())))
              ()) (\<lambda>_.
     forM [0..<numYieldTokens w]
       (\<lambda>_ i.
          rbind (rd (isWithdrawable w) i) (\<lambda>withdrawable.
          rbind (rd holdings (numPoolTokens w + i)) (\<lambda>h.
          rbind (if withdrawable then Inr h
                 else rbind (convertToAssets w i h) (\<lambda>assets.
                      rbind (maxWithdraw w i (vaultAddress w)) (\<lambda>m.
                      Inr (min assets m)))) (\<lambda>availableAmount.
          rbind (rd amounts (numPoolTokens w + i)) (\<lambda>a.
          if availableAmount < a
          then rbind (rd (yieldTokens w) i) (\<lambda>yt. Inl (Mammon__AmountExceedAvailable yt a availableAmount))
          else Inr ())))))
       ())"

subsection \<open>Moving underlying assets into and out of a wrapper\<close>

text \<open>
  The dust guard shared by \<open>depositUnderlyingAsset\<close> and \<open>withdrawUnderlyingAsset\<close>:
  \<open>True\<close> when the action is worth less than \<open>minYieldActionThreshold\<close>.
\<close>

definition belowYieldActionThreshold :: "world \<Rightarrow> nat \<Rightarrow> nat \<Rightarrow> nat \<Rightarrow> error + bool" where
  "belowYieldActionThreshold w amount oraclePrice underlyingIndex =
     (if underlyingIndex = numeraireAssetIndex w then Inr (amount < minYieldActionThreshold w)
      else
        rbind (umul amount oraclePrice) (\<lambda>m.
        rbind (udiv m ONE) (\<lambda>tokenValue.
        Inr (tokenValue < minYieldActionThreshold w))))"

text \<open>
  \<open>depositUnderlyingAsset\<close> for yield slot \<open>j\<close>. Only the call of \<open>maxDeposit\<close> is inside
  the \<open>try\<close>: its revert is caught and the function returns 0.
\<close>

definition depositUnderlyingAsset ::
  "nat \<Rightarrow> nat \<Rightarrow> nat \<Rightarrow> nat \<Rightarrow> world \<Rightarrow> error + nat \<times> world" where
  "depositUnderlyingAsset j amount oraclePrice underlyingIndex w =
     rbind (belowYieldActionThreshold w amount oraclePrice underlyingIndex) (\<lambda>dust.
     if dust then Inr (0, w)
     else
       case maxDeposit w j of
         Inl _ \<Rightarrow> Inr (0, w)
       | Inr maxDepositAmount \<Rightarrow>
           if maxDepositAmount = 0 then Inr (0, w)
           else
             (let depositAmount = min amount maxDepositAmount in
              rbind (rd (yieldTokens w) j) (\<lambda>yieldToken.
              rbind (setAllowance underlyingIndex yieldToken depositAmount w) (\<lambda>w1.
              rbind (erc4626_deposit j depositAmount w1) (\<lambda>w2.
              rbind (clearAllowance underlyingIndex yieldToken w2) (\<lambda>w3.
              Inr (depositAmount, w3)))))))"

text \<open>\<open>withdrawUnderlyingAsset\<close> for yield slot \<open>j\<close>; returns the balance gained.\<close>

definition withdrawUnderlyingAsset ::
  "nat \<Rightarrow> nat \<Rightarrow> nat \<Rightarrow> nat \<Rightarrow> world \<Rightarrow> error + nat \<times> world" where
  "withdrawUnderlyingAsset j amount oraclePrice underlyingIndex w =
     rbind (belowYieldActionThreshold w amount oraclePrice underlyingIndex) (\<lambda>dust.
     if dust then Inr (0, w)
     else
       case maxWithdraw w j (vaultAddress w) of
         Inl _ \<Rightarrow> Inr (0, w)
       | Inr maxWithdrawalAmount \<Rightarrow>
           if maxWithdrawalAmount = 0 then Inr (0, w)
           else
             (let balance = balanceOf w underlyingIndex (vaultAddress w) in
              rbind (erc4626_withdraw j (min amount maxWithdrawalAmount) w) (\<lambda>w1.
              rbind (usub (balanceOf w1 underlyingIndex (vaultAddress w1)) balance) (\<lambda>gained.
              Inr (gained, w1)))))"

section \<open>Deposits and withdrawals\<close>

text \<open>
  The two weight loops of \<open>depositTokensAndUpdateWeights\<close>; both also overwrite
  \<open>newBalances[i]\<close> with the growth of the pool's holding.
\<close>

definition depositWeightsOracle ::
  "world \<Rightarrow> nat list \<Rightarrow> nat list \<Rightarrow> nat list \<Rightarrow> nat list \<Rightarrow> nat list \<Rightarrow> nat list
     \<Rightarrow> error + nat list \<times> nat list \<times> nat" where
  "depositWeightsOracle w amounts determinedPrices poolHoldings poolNewHoldings weights0 newBalances0 =
     rbind (rd poolNewHoldings (numeraireAssetIndex w)) (\<lambda>numeraireAssetHolding.
     rbind (wr weights0 (numeraireAssetIndex w) ONE) (\<lambda>weights1.
     forM [0..<numPoolTokens w]
       (\<lambda>(weights, newBalances, weightSum) i.
          rbind (if i \<noteq> numeraireAssetIndex w then
                   rbind (rd poolNewHoldings i) (\<lambda>h.
                   rbind (rd determinedPrices i) (\<lambda>p.
                   rbind (umul h p) (\<lambda>m.
                   rbind (udiv m numeraireAssetHolding) (\<lambda>q.
                   wr weights i q))))
                 else Inr weights) (\<lambda>weights'.
          rbind (rd amounts i) (\<lambda>a.
          rbind (if 0 < a then
                   rbind (rd poolNewHoldings i) (\<lambda>h.
                   rbind (rd poolHoldings i) (\<lambda>h0.
                   rbind (usub h h0) (\<lambda>d.
                   wr newBalances i d)))
                 else Inr newBalances) (\<lambda>newBalances'.
          rbind (rd weights' i) (\<lambda>wt.
          rbind (uadd weightSum wt) (\<lambda>weightSum'.
          Inr (weights', newBalances', weightSum')))))))
       (weights1, newBalances0, 0)))"

definition depositWeightsSpot ::
  "world \<Rightarrow> nat list \<Rightarrow> nat list \<Rightarrow> nat list \<Rightarrow> nat list \<Rightarrow> nat list
     \<Rightarrow> error + nat list \<times> nat list \<times> nat" where
  "depositWeightsSpot w amounts poolHoldings poolNewHoldings weights0 newBalances0 =
     forM [0..<numPoolTokens w]
       (\<lambda>(weights, newBalances, weightSum) i.
          rbind (rd amounts i) (\<lambda>a.
          rbind (if 0 < a then
                   rbind (rd weights i) (\<lambda>wt.
                   rbind (rd poolNewHoldings i) (\<lambda>h.
                   rbind (umul wt h) (\<lambda>m.
                   rbind (rd poolHoldings i) (\<lambda>h0.
                   rbind (udiv m h0) (\<lambda>q.
                   rbind (wr weights i q) (\<lambda>weights'.
                   rbind (usub h h0) (\<lambda>d.
                   rbind (wr newBalances i d) (\<lambda>newBalances'.
                   Inr (weights', newBalances')))))))))
                 else Inr (weights, newBalances)) (\<lambda>(weights', newBalances').
          rbind (rd weights' i) (\<lambda>wt.
          rbind (uadd weightSum wt) (\<lambda>weightSum'.
          Inr (weights', newBalances', weightSum'))))))
       (weights0, newBalances0, 0)"

definition depositTokensAndUpdateWeights ::
  "TokenValue list \<Rightarrow> PriceType \<Rightarrow> world \<Rightarrow> error + world" where
  "depositTokensAndUpdateWeights tokenWithAmount priceType w0 =
     rbind (lockGuardianFees False w0) (\<lambda>w.
     rbind (getPoolTokensData w) (\<lambda>(poolTokens, poolHoldings, _).
     rbind (getValuesFromTokenWithValues w tokenWithAmount poolTokens) (\<lambda>amounts.
     rbind (if priceType = DETERMINED then getDeterminedPrices w amounts
            else Inr ([], priceType)) (\<lambda>(determinedPrices, priceType').
     rbind (depositTokens amounts w) (\<lambda>(newBalances, w1).
     rbind (getPoolHoldings w1) (\<lambda>poolNewHoldings.
     rbind (if priceType' = ORACLE
            then depositWeightsOracle w1 amounts determinedPrices poolHoldings poolNewHoldings
                   (pool_getNormalizedWeights w) newBalances
            else depositWeightsSpot w1 amounts poolHoldings poolNewHoldings
                   (pool_getNormalizedWeights w) newBalances) (\<lambda>(weights, newBalances', weightSum).
     rbind (updatePoolWeights weights weightSum w1) (\<lambda>w2.
     rbind (getNormalizedWeights w2) (\<lambda>normalized.
     Inr (emit (Deposit amounts newBalances' normalized) w2))))))))))"


definition withdrawTokens :: "TokenValue list \<Rightarrow> world \<Rightarrow> error + world" where
  "withdrawTokens tokenWithAmount w0 =
     rbind (lockGuardianFees False w0) (\<lambda>w.
     rbind (getPoolTokens w) (\<lambda>poolTokens.
     rbind (getHoldings w) (\<lambda>holdings.
     rbind (getValuesFromTokenWithValues w tokenWithAmount poolTokens) (\<lambda>amounts.
     rbind (checkWithdrawAmount w poolTokens holdings amounts) (\<lambda>_.
     rbind (getOraclePrices w) (\<lambda>(oraclePrices, updatedAt).
     rbind (checkOracleStatus w updatedAt) (\<lambda>_.
     rbind (forM [0..<numPoolTokens w]
              (\<lambda>balances i.
                 rbind (rd amounts i) (\<lambda>a.
                 if 0 < a then wr balances i (balanceOf w i (vaultAddress w)) else Inr balances))
              (replicate (numTokens w) 0)) (\<lambda>balances0.
     rbind (getPoolTokenValues w amounts) (\<lambda>poolAmounts.
     rbind (withdrawFromPool poolAmounts w) (\<lambda>w1.
     rbind (forM [0..<numPoolTokens w]
              (\<lambda>(weights, balances, weightSum, w2) i.
                 rbind (rd amounts i) (\<lambda>a.
                 rbind (if 0 < a then
                          rbind (rd balances i) (\<lambda>b0.
                          rbind (usub (balanceOf w2 i (vaultAddress w2)) b0) (\<lambda>b.
                          rbind (wr balances i b) (\<lambda>balances'.
                          rbind (safeTransfer i (vaultAddress w2) (owner w2) b w2) (\<lambda>w3.
                          rbind (rd weights i) (\<lambda>wt.
                          rbind (rd holdings i) (\<lambda>h.
                          rbind (usub h a) (\<lambda>rest.
                          rbind (umul wt rest) (\<lambda>m.
                          rbind (udiv m h) (\<lambda>q.
                          rbind (wr weights i q) (\<lambda>weights'.
                          Inr (weights', balances', w3)))))))))))
                        else Inr (weights, balances, w2)) (\<lambda>(weights', balances', w3).
                 rbind (rd weights' i) (\<lambda>wt.
                 rbind (uadd weightSum wt) (\<lambda>weightSum'.
                 Inr (weights', balances', weightSum', w3))))))
              (pool_getNormalizedWeights w, balances0, 0, w1)) (\<lambda>(weights, balances1, weightSum, w2).
     rbind (forM [0..<numYieldTokens w]
              (\<lambda>(balances, w3) i.
                 rbind (rd amounts (numPoolTokens w + i)) (\<lambda>a.
                 if 0 < a then
                   rbind (rd (isWithdrawable w) i) (\<lambda>withdrawable.
                   if withdrawable then
                     rbind (wr balances (numPoolTokens w + i) a) (\<lambda>balances'.
                     rbind (safeTransfer (numPoolTokens w + i) (vaultAddress w3) (owner w3) a w3) (\<lambda>w4.
                     Inr (balances', w4)))
                   else
                     rbind (rd (underlyingIndexes w) i) (\<lambda>underlyingIndex.
                     rbind (rd poolTokens underlyingIndex) (\<lambda>_.
                     rbind (rd oraclePrices underlyingIndex) (\<lambda>price.
                     rbind (withdrawUnderlyingAsset i a price underlyingIndex w3) (\<lambda>(gained, w4).
                     rbind (wr balances (numPoolTokens w + i) gained) (\<lambda>balances'.
                     rbind (safeTransfer underlyingIndex (vaultAddress w4) (owner w4) gained w4) (\<lambda>w5.
                     Inr (balances', w5))))))))
                 else Inr (balances, w3)))
              (balances1, w2)) (\<lambda>(balances, w3).
     rbind (updatePoolWeights weights weightSum w3) (\<lambda>w4.
     rbind (getNormalizedWeights w4) (\<lambda>normalized.
     Inr (emit (Withdraw amounts balances normalized) w4)))))))))))))))"

text \<open>\<open>returnFunds\<close>: everything but the fees owed to guardians goes to the owner.\<close>

definition returnFunds :: "world \<Rightarrow> error + nat list \<times> world" where
  "returnFunds w =
     rbind (getTokens w) (\<lambda>tokens.
     rbind (getPoolHoldings w) (\<lambda>poolHoldings.
     rbind (withdrawFromPool poolHoldings w) (\<lambda>w1.
     forM [0..<numTokens w]
       (\<lambda>(amounts, w2) i.
          rbind (rd (guardiansFeeTotal w2) i) (\<lambda>fee.
          rbind (usub (balanceOf w2 i (vaultAddress w2)) fee) (\<lambda>amount.
          rbind (safeTransfer i (vaultAddress w2) (owner w2) amount w2) (\<lambda>w3.
          rbind (wr amounts i amount) (\<lambda>amounts'.
          Inr (amounts', w3))))))
       (replicate (numTokens w) 0, w1))))"

section \<open>Entry points\<close>

text \<open>
  Every entry point takes the caller (\<open>msg.sender\<close>) first; its modifiers are checked in
  the order the source lists them.
\<close>

definition onlyOwner :: "address \<Rightarrow> world \<Rightarrow> error + unit" where
  "onlyOwner sender w = (if sender \<noteq> owner w then Inl Ownable_CallerIsNotTheOwner else Inr ())"

definition onlyGuardian :: "address \<Rightarrow> world \<Rightarrow> error + unit" where
  "onlyGuardian sender w = (if sender \<noteq> guardian w then Inl Mammon__CallerIsNotGuardian else Inr ())"

definition whenInitialized :: "world \<Rightarrow> error + unit" where
  "whenInitialized w = (if \<not> initialized w then Inl Mammon__VaultNotInitialized else Inr ())"

definition whenNotFinalized :: "world \<Rightarrow> error + unit" where
  "whenNotFinalized w = (if finalized w then Inl Mammon__VaultIsFinalized else Inr ())"

definition deposit :: "address \<Rightarrow> TokenValue list \<Rightarrow> world \<Rightarrow> error + world" where
  "deposit sender tokenWithAmount w =
     rbind (onlyOwner sender w) (\<lambda>_.
     rbind (whenInitialized w) (\<lambda>_.
     rbind (whenNotFinalized w) (\<lambda>_.
     depositTokensAndUpdateWeights tokenWithAmount DETERMINED w)))"

definition depositRiskingArbitrage :: "address \<Rightarrow> TokenValue list \<Rightarrow> world \<Rightarrow> error + world" where
  "depositRiskingArbitrage sender tokenWithAmount w =
     rbind (onlyOwner sender w) (\<lambda>_.
     rbind (whenInitialized w) (\<lambda>_.
     rbind (whenNotFinalized w) (\<lambda>_.
     depositTokensAndUpdateWeights tokenWithAmount SPOT w)))"

definition withdraw :: "address \<Rightarrow> TokenValue list \<Rightarrow> world \<Rightarrow> error + world" where
  "withdraw sender tokenWithAmount w =
     rbind (onlyOwner sender w) (\<lambda>_.
     rbind (whenInitialized w) (\<lambda>_.
     rbind (whenNotFinalized w) (\<lambda>_.
     withdrawTokens tokenWithAmount w)))"

definition finalize :: "address \<Rightarrow> world \<Rightarrow> error + world" where
  "finalize sender w =
     rbind (onlyOwner sender w) (\<lambda>_.
     rbind (whenInitialized w) (\<lambda>_.
     rbind (whenNotFinalized w) (\<lambda>_.
     rbind (lockGuardianFees True (w\<lparr>finalized := True\<rparr>)) (\<lambda>w1.
     rbind (returnFunds (setSwapEnabled False w1)) (\<lambda>(amounts, w2).
     Inr (emit (Finalized (owner w2) amounts) w2))))))"

text \<open>
  \<open>setGuardian\<close> after the fees of the outgoing guardian have been locked: the new
  guardian gets a ledger row if it has none, the event is emitted, the guardian is replaced.
\<close>

definition installGuardian :: "address \<Rightarrow> world \<Rightarrow> world" where
  "installGuardian newGuardian w1 =
     (let w2 = (if length (guardiansFee w1 newGuardian) = 0
                then w1\<lparr>guardiansFee := (guardiansFee w1)(newGuardian := replicate (numTokens w1) 0)\<rparr>
                else w1);
          w3 = emit (GuardianChanged (guardian w2) newGuardian) w2
      in w3\<lparr>guardian := newGuardian\<rparr>)"

definition setGuardian :: "address \<Rightarrow> address \<Rightarrow> world \<Rightarrow> error + world" where
  "setGuardian sender newGuardian w =
     rbind (onlyOwner sender w) (\<lambda>_.
     rbind (checkGuardianAddress w newGuardian) (\<lambda>_.
     rbind (if initialized w \<and> \<not> finalized w then lockGuardianFees False w else Inr w) (\<lambda>w1.
     Inr (installGuardian newGuardian w1))))"

text \<open>
  \<open>claimGuardianFees\<close> after the fees of the current guardian have been locked: the
  caller's ledger row is paid out slot by slot.
\<close>

definition distributeGuardianFees :: "address \<Rightarrow> world \<Rightarrow> error + world" where
  "distributeGuardianFees sender w1 =
     (if length (guardiansFee w1 sender) = 0 then Inl (Mammon__NoAvailableFeeForCaller sender)
      else
        rbind (getTokens w1) (\<lambda>tokens.
        (let fees = guardiansFee w1 sender in
         rbind (forM [0..<numTokens w1]
                  (\<lambda>w2 i.
                     rbind (rd fees i) (\<lambda>fee.
                     rbind (rd (guardiansFeeTotal w2) i) (\<lambda>total.
                     rbind (usub total fee) (\<lambda>total'.
                     rbind (wr (guardiansFee w2 sender) i 0) (\<lambda>row'.
                     safeTransfer i (vaultAddress w2) sender fee
                       (w2\<lparr>guardiansFeeTotal := (guardiansFeeTotal w2)[i := total'],
                           guardiansFee := (guardiansFee w2)(sender := row')\<rparr>))))))
                  w1) (\<lambda>w3.
         (let w4 = (if sender \<noteq> guardian w3
                    then w3\<lparr>guardiansFee := (guardiansFee w3)(sender := [])\<rparr> else w3)
          in Inr (emit (DistributeGuardianFees sender fees) w4))))))"

definition claimGuardianFees :: "address \<Rightarrow> world \<Rightarrow> error + world" where
  "claimGuardianFees sender w =
     rbind (whenInitialized w) (\<lambda>_.
     rbind (whenNotFinalized w) (\<lambda>_.
     rbind (if sender = guardian w then lockGuardianFees False w else Inr w)
       (distributeGuardianFees sender)))"

text \<open>\<open>token.balanceOf(a)\<close> for the token of slot \<open>t\<close>, as a call on the state.\<close>

definition tokenBalanceOf :: "nat \<Rightarrow> address \<Rightarrow> world \<Rightarrow> error + nat" where
  "tokenBalanceOf t a w = Inr (balanceOf w t a)"

text \<open>The getter of the public mapping \<open>guardiansFee\<close>.\<close>

definition getGuardiansFee :: "address \<Rightarrow> nat \<Rightarrow> world \<Rightarrow> error + nat" where
  "getGuardiansFee a i w = rd (guardiansFee w a) i"

text \<open>The weight loop of \<open>enableTradingWithOraclePrice\<close>.\<close>

definition oraclePriceWeights :: "world \<Rightarrow> nat list \<Rightarrow> nat list \<Rightarrow> error + nat list \<times> nat" where
  "oraclePriceWeights w prices poolHoldings =
     rbind (rd poolHoldings (numeraireAssetIndex w)) (\<lambda>numeraireAssetHolding.
     rbind (wr (replicate (numPoolTokens w) 0) (numeraireAssetIndex w) ONE) (\<lambda>weights0.
     forM [0..<numPoolTokens w]
       (\<lambda>(weights, weightSum) i.
          if i = numeraireAssetIndex w then Inr (weights, weightSum)
          else
            rbind (rd poolHoldings i) (\<lambda>h.
            rbind (umul h ONE) (\<lambda>a.
            rbind (udiv a numeraireAssetHolding) (\<lambda>holdingsRatio.
            rbind (umul holdingsRatio ONE) (\<lambda>b.
            rbind (rd prices i) (\<lambda>p.
            rbind (udiv b p) (\<lambda>q.
            rbind (wr weights i q) (\<lambda>weights'.
            rbind (uadd weightSum q) (\<lambda>weightSum'.
            Inr (weights', weightSum'))))))))))
       (weights0, ONE)))"

definition enableTradingWithOraclePrice :: "address \<Rightarrow> world \<Rightarrow> error + world" where
  "enableTradingWithOraclePrice sender w =
     rbind (onlyGuardian sender w) (\<lambda>_.
     rbind (whenInitialized w) (\<lambda>_.
     rbind (getOraclePrices w) (\<lambda>(prices, updatedAt).
     rbind (checkOracleStatus w updatedAt) (\<lambda>_.
     rbind (getPoolHoldings w) (\<lambda>poolHoldings.
     rbind (oraclePriceWeights w prices poolHoldings) (\<lambda>(weights, weightSum).
     rbind (updatePoolWeights weights weightSum w) (\<lambda>w1.
     (let w2 = setSwapEnabled True w1 in
      Inr (emit (UpdateWeightsWithOraclePrice prices (pool_getNormalizedWeights w2)) w2)))))))))"


section \<open>The weight engine\<close>

definition getWeightChangeRatio :: "nat \<Rightarrow> nat \<Rightarrow> error + nat" where
  "getWeightChangeRatio weight targetWeight =
     (if targetWeight < weight
      then rbind (umul ONE weight) (\<lambda>m. udiv m targetWeight)
      else rbind (umul ONE targetWeight) (\<lambda>m. udiv m weight))"

definition checkWeightChangeRatio ::
  "world \<Rightarrow> address list \<Rightarrow> nat list \<Rightarrow> nat \<Rightarrow> nat \<Rightarrow> error + unit" where
  "checkWeightChangeRatio w poolTokens targetPoolWeights startTime endTime =
     (let currentPoolWeights = pool_getNormalizedWeights w in
      rbind (usub endTime startTime) (\<lambda>duration.
      rbind (umul MAX_WEIGHT_CHANGE_RATIO duration) (\<lambda>maximumRatio.
      forM [0..<numPoolTokens w]
        (\<lambda>_ i.
           rbind (rd currentPoolWeights i) (\<lambda>cw.
           rbind (rd targetPoolWeights i) (\<lambda>tw.
           rbind (getWeightChangeRatio cw tw) (\<lambda>changeRatio.
           if maximumRatio < changeRatio
           then rbind (rd poolTokens i) (\<lambda>pt.
                  Inl (Mammon__WeightChangeRatioIsAboveMax pt changeRatio maximumRatio))
           else Inr ()))))
        ())))"

definition getUnderlyingTotalWeights :: "world \<Rightarrow> nat list \<Rightarrow> nat list \<Rightarrow> error + nat list" where
  "getUnderlyingTotalWeights w underlyingIndexes' weights =
     rbind (mapM (rd weights) [0..<numPoolTokens w]) (\<lambda>underlyingTotalWeights.
     forM [0..<numYieldTokens w]
       (\<lambda>total i.
          rbind (rd underlyingIndexes' i) (\<lambda>u.
          rbind (rd total u) (\<lambda>t.
          rbind (rd weights (numPoolTokens w + i)) (\<lambda>wt.
          rbind (uadd t wt) (\<lambda>t'.
          wr total u t')))))
       underlyingTotalWeights)"

text \<open>
  \<open>calcAdjustmentAmounts\<close>. \<open>targetBalance\<close> is declared before the loop and assigned
  only for a positive target weight, so it is carried from one yield slot to the next.
\<close>

definition calcAdjustmentAmounts ::
  "world \<Rightarrow> nat list \<Rightarrow> nat list \<Rightarrow> nat list \<Rightarrow> nat list \<Rightarrow> nat list
     \<Rightarrow> error + nat list \<times> nat list" where
  "calcAdjustmentAmounts w underlyingIndexes' poolHoldings underlyingBalances targetWeights oraclePrices =
     rbind (getUnderlyingTotalBalances w underlyingIndexes' poolHoldings underlyingBalances) (\<lambda>totals.
     rbind (getValue w totals oraclePrices) (\<lambda>value.
     rbind (forM [0..<numYieldTokens w]
              (\<lambda>(depositAmounts, withdrawAmounts, targetBalance) i.
                 rbind (rd targetWeights (numPoolTokens w + i)) (\<lambda>tw.
                 rbind (if 0 < tw then
                          rbind (umul value tw) (\<lambda>m.
                          rbind (rd underlyingIndexes' i) (\<lambda>u.
                          rbind (rd oraclePrices u) (\<lambda>p.
                          udiv m p)))
                        else Inr targetBalance) (\<lambda>targetBalance'.
                 rbind (rd underlyingBalances i) (\<lambda>b.
                 if b < targetBalance' then
                   rbind (wr depositAmounts i (targetBalance' - b)) (\<lambda>depositAmounts'.
                   Inr (depositAmounts', withdrawAmounts, targetBalance'))
                 else
                   rbind (wr withdrawAmounts i (b - targetBalance')) (\<lambda>withdrawAmounts'.
                   Inr (depositAmounts, withdrawAmounts', targetBalance'))))))
              (replicate (numYieldTokens w) 0, replicate (numYieldTokens w) 0, 0))
       (\<lambda>(depositAmounts, withdrawAmounts, _). Inr (depositAmounts, withdrawAmounts))))"

definition calcNecessaryAmounts ::
  "world \<Rightarrow> nat list \<Rightarrow> nat list \<Rightarrow> nat list \<Rightarrow> nat list \<Rightarrow> error + nat list" where
  "calcNecessaryAmounts w underlyingIndexes' poolHoldings depositAmounts balances =
     (let poolWeights' = pool_getNormalizedWeights w in
      rbind (mapM (\<lambda>i. rbind (rd poolHoldings i) (\<lambda>h.
                       rbind (rd poolWeights' i) (\<lambda>pw.
                       rbind (usub pw MIN_WEIGHT) (\<lambda>d.
                       rbind (umul h d) (\<lambda>m.
                       udiv m pw)))))
               [0..<numPoolTokens w]) (\<lambda>availableHoldings.
      rbind (forM [0..<numYieldTokens w]
               (\<lambda>necessaryAmounts i.
                  rbind (rd depositAmounts i) (\<lambda>d.
                  if 0 < d then
                    rbind (rd underlyingIndexes' i) (\<lambda>u.
                    rbind (rd necessaryAmounts u) (\<lambda>n.
                    rbind (uadd n d) (\<lambda>n'.
                    wr necessaryAmounts u n')))
                  else Inr necessaryAmounts))
               (replicate (numPoolTokens w) 0)) (\<lambda>necessaryAmounts1.
      forM [0..<numPoolTokens w]
        (\<lambda>necessaryAmounts i.
           rbind (rd necessaryAmounts i) (\<lambda>n.
           rbind (rd balances i) (\<lambda>b.
           if n \<le> b then wr necessaryAmounts i 0
           else
             rbind (rd availableHoldings i) (\<lambda>a.
             rbind (uadd a b) (\<lambda>ab.
             if ab < n then wr necessaryAmounts i a
             else wr necessaryAmounts i (n - b))))))
        necessaryAmounts1)))"

definition withdrawNecessaryTokensFromPool ::
  "nat list \<Rightarrow> nat list \<Rightarrow> world \<Rightarrow> error + nat list \<times> world" where
  "withdrawNecessaryTokensFromPool balances necessaryAmounts w =
     rbind (mapM (rd balances) [0..<numPoolTokens w]) (\<lambda>newBalances0.
     rbind (mapM (\<lambda>i. rbind (rd necessaryAmounts i) (\<lambda>n.
                      Inr (if 0 < n then balanceOf w i (vaultAddress w) else 0)))
              [0..<numPoolTokens w]) (\<lambda>currentBalances.
     rbind (withdrawFromPool necessaryAmounts w) (\<lambda>w1.
     rbind (forM [0..<numPoolTokens w]
              (\<lambda>newBalances i.
                 rbind (rd necessaryAmounts i) (\<lambda>n.
                 if 0 < n then
                   rbind (rd currentBalances i) (\<lambda>c.
                   rbind (usub (balanceOf w1 i (vaultAddress w1)) c) (\<lambda>d.
                   rbind (rd newBalances i) (\<lambda>b.
                   rbind (uadd b d) (\<lambda>b'.
                   wr newBalances i b'))))
                 else Inr newBalances))
              newBalances0) (\<lambda>newBalances.
     Inr (newBalances, w1)))))"

definition withdrawFromYieldTokens ::
  "address list \<Rightarrow> nat list \<Rightarrow> nat list \<Rightarrow> nat list \<Rightarrow> world \<Rightarrow> error + nat list \<times> world" where
  "withdrawFromYieldTokens poolTokens underlyingIndexes' withdrawAmounts oraclePrices w =
     forM [0..<numYieldTokens w]
       (\<lambda>(amounts, w1) i.
          rbind (rd withdrawAmounts i) (\<lambda>wa.
          if 0 < wa then
            rbind (rd underlyingIndexes' i) (\<lambda>underlyingIndex.
            rbind (rd (yieldTokens w) i) (\<lambda>_.
            rbind (rd poolTokens underlyingIndex) (\<lambda>_.
            rbind (rd oraclePrices underlyingIndex) (\<lambda>price.
            rbind (withdrawUnderlyingAsset i wa price underlyingIndex w1) (\<lambda>(gained, w2).
            rbind (rd amounts underlyingIndex) (\<lambda>a.
            rbind (uadd a gained) (\<lambda>a'.
            rbind (wr amounts underlyingIndex a') (\<lambda>amounts'.
            Inr (amounts', w2)))))))))
          else Inr (amounts, w1)))
       (replicate (numPoolTokens w) 0, w)"

text \<open>
  \<open>depositToYieldTokens\<close>. The amount offered to slot \<open>i\<close> is
  \<open>Math.min(depositAmounts[i], balances[i])\<close>, as the source has it.
\<close>

definition depositToYieldTokens ::
  "address list \<Rightarrow> nat list \<Rightarrow> nat list \<Rightarrow> nat list \<Rightarrow> nat list \<Rightarrow> nat list \<Rightarrow> world
     \<Rightarrow> error + world" where
  "depositToYieldTokens poolTokens underlyingIndexes' poolHoldings depositAmounts balances0 oraclePrices w =
     rbind (calcNecessaryAmounts w underlyingIndexes' poolHoldings depositAmounts balances0)
       (\<lambda>necessaryAmounts.
     rbind (withdrawNecessaryTokensFromPool balances0 necessaryAmounts w) (\<lambda>(balances1, w1).
     rbind (forM [0..<numYieldTokens w]
              (\<lambda>(balances, w2) i.
                 rbind (rd underlyingIndexes' i) (\<lambda>underlyingIndex.
                 rbind (rd depositAmounts i) (\<lambda>d.
                 rbind (if 0 < d then rbind (rd balances underlyingIndex) (\<lambda>b. Inr (0 < b))
                        else Inr False) (\<lambda>go.
                 if go then
                   rbind (rd (yieldTokens w) i) (\<lambda>_.
                   rbind (rd poolTokens underlyingIndex) (\<lambda>_.
                   rbind (rd balances i) (\<lambda>bi.
                   rbind (rd oraclePrices underlyingIndex) (\<lambda>price.
                   rbind (depositUnderlyingAsset i (min d bi) price underlyingIndex w2)
                     (\<lambda>(depositedAmount, w3).
                   rbind (rd balances underlyingIndex) (\<lambda>b.
                   rbind (usub b depositedAmount) (\<lambda>b'.
                   rbind (wr balances underlyingIndex b') (\<lambda>balances'.
                   Inr (balances', w3)))))))))
                 else Inr (balances, w2)))))
              (balances1, w1)) (\<lambda>(balances, w2).
     rbind (forM [0..<numPoolTokens w]
              (\<lambda>w3 i. rbind (rd poolTokens i) (\<lambda>_.
                       rbind (rd balances i) (\<lambda>b.
                       setAllowance i (bVaultAddress w3) b w3)))
              w2) (\<lambda>w3.
     depositToPool balances w3))))"

definition adjustYieldTokens ::
  "address list \<Rightarrow> nat list \<Rightarrow> nat list \<Rightarrow> nat list \<Rightarrow> world \<Rightarrow> error + world" where
  "adjustYieldTokens poolTokens underlyingIndexes' poolHoldings targetWeights w =
     rbind (getUnderlyingBalances w) (\<lambda>underlyingBalances.
     rbind (getOraclePrices w) (\<lambda>(oraclePrices, updatedAt).
     rbind (checkOracleStatus w updatedAt) (\<lambda>_.
     rbind (calcAdjustmentAmounts w underlyingIndexes' poolHoldings underlyingBalances
              targetWeights oraclePrices) (\<lambda>(depositAmounts, withdrawAmounts).
     rbind (withdrawFromYieldTokens poolTokens underlyingIndexes' withdrawAmounts oraclePrices w)
       (\<lambda>(balances, w1).
     depositToYieldTokens poolTokens underlyingIndexes' poolHoldings depositAmounts balances
       oraclePrices w1)))))"

definition adjustPoolWeights ::
  "nat list \<Rightarrow> nat list \<Rightarrow> nat list \<Rightarrow> world \<Rightarrow> error + nat list \<times> world" where
  "adjustPoolWeights underlyingIndexes' poolHoldings targetWeights w =
     rbind (getUnderlyingTotalWeights w underlyingIndexes' targetWeights) (\<lambda>targetPoolWeights0.
     rbind (getPoolHoldings w) (\<lambda>currentPoolHoldings.
     (let poolWeights' = pool_getNormalizedWeights w in
      rbind (getNormalizedWeights w) (\<lambda>currentWeights.
      rbind (forM [0..<numYieldTokens w]
               (\<lambda>targetPoolWeights i.
                  rbind (rd underlyingIndexes' i) (\<lambda>u.
                  rbind (rd targetPoolWeights u) (\<lambda>t.
                  rbind (rd currentWeights (numPoolTokens w + i)) (\<lambda>c.
                  rbind (usub t c) (\<lambda>t'.
                  wr targetPoolWeights u t')))))
               targetPoolWeights0) (\<lambda>targetPoolWeights.
      rbind (forM [0..<numPoolTokens w]
               (\<lambda>(newPoolWeights, weightSum, targetWeightSum) i.
                  rbind (rd poolWeights' i) (\<lambda>pw.
                  rbind (rd currentPoolHoldings i) (\<lambda>ch.
                  rbind (umul pw ch) (\<lambda>m.
                  rbind (rd poolHoldings i) (\<lambda>h.
                  rbind (udiv m h) (\<lambda>q.
                  rbind (wr newPoolWeights i q) (\<lambda>newPoolWeights'.
                  rbind (uadd weightSum q) (\<lambda>weightSum'.
                  rbind (rd targetPoolWeights i) (\<lambda>t.
                  rbind (uadd targetWeightSum t) (\<lambda>targetWeightSum'.
                  Inr (newPoolWeights', weightSum', targetWeightSum')))))))))))
               (replicate (numPoolTokens w) 0, 0, 0)) (\<lambda>(newPoolWeights, weightSum, targetWeightSum).
      rbind (updatePoolWeights newPoolWeights weightSum w) (\<lambda>w1.
      rbind (normalizeWeights targetPoolWeights targetWeightSum) (\<lambda>normalized.
      Inr (normalized, w1)))))))))"

text \<open>
  \<open>updateWeightsGradually\<close>, in three parts: the schedule checks; \<open>prepareWeightUpdate\<close>,
  everything the function does before the rate-limit check (it returns the pool tokens, the
  target weights, the normalised target weights of the pool and the state reached); and the
  check with the instruction to the pool. \<open>rateCheckInputs\<close> names what the rate-limit
  check compares: the pool's current weights and its target weights at that point.
\<close>

definition prepareWeightUpdate ::
  "TokenValue list \<Rightarrow> world \<Rightarrow> error + address list \<times> nat list \<times> nat list \<times> world" where
  "prepareWeightUpdate tokenWithWeight w =
     rbind (getPoolTokensData w) (\<lambda>(poolTokens, poolHoldings, _).
     rbind (getValuesFromTokenWithValues w tokenWithWeight poolTokens) (\<lambda>targetWeights.
     rbind (checkWeights targetWeights) (\<lambda>_.
     rbind (adjustYieldTokens poolTokens (underlyingIndexes w) poolHoldings targetWeights w) (\<lambda>w1.
     rbind (adjustPoolWeights (underlyingIndexes w) poolHoldings targetWeights w1)
       (\<lambda>(targetPoolWeights, w2).
     Inr (poolTokens, targetWeights, targetPoolWeights, w2))))))"

definition rateCheckInputs ::
  "TokenValue list \<Rightarrow> world \<Rightarrow> error + address list \<times> nat list \<times> nat list \<times> nat" where
  "rateCheckInputs tokenWithWeight w =
     rbind (prepareWeightUpdate tokenWithWeight w) (\<lambda>(poolTokens, _, targetPoolWeights, w2).
     Inr (poolTokens, pool_getNormalizedWeights w2, targetPoolWeights, numPoolTokens w2))"

definition updateWeightsGraduallyBody ::
  "TokenValue list \<Rightarrow> nat \<Rightarrow> nat \<Rightarrow> world \<Rightarrow> error + world" where
  "updateWeightsGraduallyBody tokenWithWeight startTime endTime w =
     rbind (prepareWeightUpdate tokenWithWeight w) (\<lambda>(poolTokens, targetWeights, targetPoolWeights, w2).
     rbind (checkWeightChangeRatio w2 poolTokens targetPoolWeights startTime endTime) (\<lambda>_.
     rbind (pool_updateWeightsGradually startTime endTime poolTokens targetPoolWeights w2) (\<lambda>w3.
     Inr (emit (UpdateWeightsGradually startTime endTime targetWeights) w3))))"

definition updateWeightsGradually ::
  "address \<Rightarrow> TokenValue list \<Rightarrow> nat \<Rightarrow> nat \<Rightarrow> world \<Rightarrow> error + world" where
  "updateWeightsGradually sender tokenWithWeight startTime endTime w =
     rbind (onlyGuardian sender w) (\<lambda>_.
     rbind (whenInitialized w) (\<lambda>_.
     rbind (whenNotFinalized w) (\<lambda>_.
     if MAX_UINT32 < startTime
     then Inl (Mammon__WeightChangeStartTimeIsAboveMax startTime MAX_UINT32)
     else if MAX_UINT32 < endTime
     then Inl (Mammon__WeightChangeEndTimeIsAboveMax endTime MAX_UINT32)
     else
       (let startTime' = max (blockTimestamp w) startTime in
        if endTime < startTime' then Inl Mammon__WeightChangeEndBeforeStart
        else
          rbind (uadd startTime' MINIMUM_WEIGHT_CHANGE_DURATION) (\<lambda>minEnd.
          if endTime < minEnd
          then rbind (usub endTime startTime') (\<lambda>d.
                 Inl (Mammon__WeightChangeDurationIsBelowMin d MINIMUM_WEIGHT_CHANGE_DURATION))
          else updateWeightsGraduallyBody tokenWithWeight startTime' endTime w)))))"

section \<open>A concrete vault\<close>

text \<open>
  A small vault used to run the model: two pool tokens (slot 0 is the numeraire, slot 1 has
  a price feed with 8 decimals) and one yield token over pool token 0 that is not directly
  withdrawable. The wrapper holds 200 assets for 100 shares, of which the vault holds 50.
  The owner (address 1) has approved the vault (address 100) for every token.
\<close>

definition exampleVault :: world where
  "exampleVault =
     \<lparr>blockTimestamp = 1000500, vaultAddress = 100, bVaultAddress = 200, owner = 1,
      numPoolTokens = 2, numYieldTokens = 1, numeraireAssetIndex = 0,
      createdAt = 1000000, minFeeDuration = 1000,
      minReliableVaultValue = 10, minSignificantDepositValue = 20, minYieldActionThreshold = 10,
      maxOracleSpotDivergence = 11 * 10 ^ 17, maxOracleDelay = 3600, managementFee = 0,
      oracleUnits = [0, 10 ^ 8], yieldTokens = [13], underlyingIndexes = [0],
      isWithdrawable = [False],
      initialized = True, finalized = False, oraclesEnabled = True, guardian = 2,
      lastFeeCheckpoint = 1000000,
      guardiansFee = (\<lambda>a. if a = 2 then [0, 0, 0] else []),
      guardiansFeeTotal = [0, 0, 0],
      erc20Balance = (\<lambda>t a.
         if t = 0 then (if a = 1 then 1000 else if a = 13 then 200 else 0)
         else if t = 1 then (if a = 1 then 1000 else 0)
         else if t = 2 then (if a = 100 then 50 else if a = 1 then 50 else 0)
         else 0),
      erc20Allowance = (\<lambda>t holder spender. if holder = 1 \<and> spender = 100 then MAX_UINT256 else 0),
      bptAddress = 10, bptBalance = 0, poolTokenAddrs = [11, 12],
      cash = [1000, 1000], managed = [0, 0], lastChangeBlock = 0,
      poolWeights = [5 * 10 ^ 17, 5 * 10 ^ 17], poolSchedule = None,
      poolSwapFee = 0, poolSwapEnabled = True,
      oracles = [\<lparr>oAnswer = 0, oUpdatedAt = 0\<rparr>, \<lparr>oAnswer = 10 ^ 8, oUpdatedAt = 1000400\<rparr>],
      wrappers = [\<lparr>wPaused = False, wMaxDepositAmount = None, wMaxWithdrawalAmount = None,
                  wTotalSupply = 100\<rparr>],
      events = []\<rparr>"

text \<open>
  A vault with three pool tokens of weights 5%, 90% and 5% and no yield token; its price
  feeds are fresh and report a price of one.
\<close>

definition threeTokenVault :: world where
  "threeTokenVault =
     \<lparr>blockTimestamp = 1000500, vaultAddress = 100, bVaultAddress = 200, owner = 1,
      numPoolTokens = 3, numYieldTokens = 0, numeraireAssetIndex = 0,
      createdAt = 1000000, minFeeDuration = 1000,
      minReliableVaultValue = 10, minSignificantDepositValue = 20, minYieldActionThreshold = 10,
      maxOracleSpotDivergence = 11 * 10 ^ 17, maxOracleDelay = 3600, managementFee = 0,
      oracleUnits = [0, 10 ^ 8, 10 ^ 8], yieldTokens = [], underlyingIndexes = [],
      isWithdrawable = [],
      initialized = True, finalized = False, oraclesEnabled = True, guardian = 2,
      lastFeeCheckpoint = 1000000,
      guardiansFee = (\<lambda>a. if a = 2 then [0, 0, 0] else []),
      guardiansFeeTotal = [0, 0, 0],
      erc20Balance = (\<lambda>t a. if a = 1 then 1000 else 0),
      erc20Allowance = (\<lambda>t holder spender. if holder = 1 \<and> spender = 100 then MAX_UINT256 else 0),
      bptAddress = 10, bptBalance = 0, poolTokenAddrs = [11, 12, 13],
      cash = [500, 9000, 500], managed = [0, 0, 0], lastChangeBlock = 0,
      poolWeights = [5 * 10 ^ 16, 9 * 10 ^ 17, 5 * 10 ^ 16], poolSchedule = None,
      poolSwapFee = 0, poolSwapEnabled = True,
      oracles = [\<lparr>oAnswer = 0, oUpdatedAt = 0\<rparr>, \<lparr>oAnswer = 10 ^ 8, oUpdatedAt = 1000400\<rparr>,
                 \<lparr>oAnswer = 10 ^ 8, oUpdatedAt = 1000400\<rparr>],
      wrappers = [],
      events = []\<rparr>"



definition feeVault :: world where
  "feeVault = exampleVault\<lparr>managementFee := MAX_MANAGEMENT_FEE, cash := [10 ^ 18, 10 ^ 18]\<rparr>"

text \<open>
  Three more variants: one whose price feed for slot 1 is older than \<open>maxOracleDelay\<close>;
  one whose price feed reports twice the spot price; and one that does so while the vault
  is worth less than \<open>minReliableVaultValue\<close>.
\<close>

definition staleVault :: world where
  "staleVault = exampleVault\<lparr>maxOracleDelay := 50\<rparr>"

definition divergedVault :: world where
  "divergedVault =
     exampleVault\<lparr>oracles := [\<lparr>oAnswer = 0, oUpdatedAt = 0\<rparr>,
                               \<lparr>oAnswer = 2 * 10 ^ 8, oUpdatedAt = 1000400\<rparr>]\<rparr>"

definition youngVault :: world where
  "youngVault = divergedVault\<lparr>minReliableVaultValue := 5000\<rparr>"

text \<open>
  A variant of the small vault with fees outstanding: 5 of token 0 for the guardian
  (address 2), and 7 of token 0 and 3 shares of the yield token for a former guardian
  (address 3); the vault contract holds the 12 of token 0.
\<close>

definition formerGuardianVault :: world where
  "formerGuardianVault =
     exampleVault\<lparr>guardiansFee := (\<lambda>a. if a = 2 then [5, 0, 0] else if a = 3 then [7, 0, 3] else []),
       guardiansFeeTotal := [12, 0, 3],
       erc20Balance := (\<lambda>t a.
         if t = 0 then (if a = 1 then 1000 else if a = 13 then 200 else if a = 100 then 12 else 0)
         else if t = 1 then (if a = 1 then 1000 else 0)
         else if t = 2 then (if a = 100 then 50 else if a = 1 then 50 else 0)
         else 0)\<rparr>"

text \<open>A variant of the small vault whose yield token can be withdrawn directly.\<close>

definition openVault :: world where
  "openVault = exampleVault\<lparr>isWithdrawable := [True]\<rparr>"

text \<open>
  A variant of the small vault whose pool holds 1 of token 0 and \<open>10 ^ 19\<close> of token 1:
  the spot price of token 1 in token 0 truncates to zero.
\<close>

definition zeroSpotVault :: world where
  "zeroSpotVault = exampleVault\<lparr>cash := [1, 10 ^ 19]\<rparr>"

section \<open>The configuration of a vault\<close>

text \<open>
  The part of the state that deposits, withdrawals, fee accrual and fee claims never
  write: the immutables of the vault, its flags and guardian, and the static data of the
  pool and of the price feeds.
\<close>

definition config where
  "config (w :: world) =
     (blockTimestamp w, vaultAddress w, bVaultAddress w, owner w, numPoolTokens w, numYieldTokens w,
      numeraireAssetIndex w, createdAt w, minFeeDuration w, minReliableVaultValue w,
      minSignificantDepositValue w, minYieldActionThreshold w, maxOracleSpotDivergence w,
      maxOracleDelay w, managementFee w, oracleUnits w, yieldTokens w, underlyingIndexes w,
      isWithdrawable w, initialized w, finalized w, oraclesEnabled w, guardian w,
      bptAddress w, bptBalance w, poolTokenAddrs w, lastChangeBlock w, poolSwapFee w, oracles w)"

text \<open>
  What \<open>getHoldings\<close> reads: the configuration, the fees owed to guardians, the pool's
  balances, and the vault contract's balances of the yield tokens.
\<close>

definition books where
  "books (w :: world) =
     (config w, guardiansFeeTotal w, cash w, managed w,
      (\<lambda>t. if numPoolTokens w \<le> t then erc20Balance w t (vaultAddress w) else 0))"

section \<open>Lemmas on the arithmetic and the loop combinators\<close>

lemma rbind_Inr [simp]: "rbind (Inr x) f = f x"
  by (simp add: rbind_def)

lemma rbind_Inl [simp]: "rbind (Inl e) f = Inl e"
  by (simp add: rbind_def)

lemma rbind_Inr_iff: "rbind m f = Inr y \<longleftrightarrow> (\<exists>x. m = Inr x \<and> f x = Inr y)"
  by (cases m) auto

lemma uadd_Inr_iff: "uadd a b = Inr c \<longleftrightarrow> c = a + b \<and> a + b \<le> MAX_UINT256"
  by (auto simp: uadd_def)

lemma usub_Inr_iff: "usub a b = Inr c \<longleftrightarrow> c = a - b \<and> b \<le> a"
  by (auto simp: usub_def)

lemma umul_Inr_iff: "umul a b = Inr c \<longleftrightarrow> c = a * b \<and> a * b \<le> MAX_UINT256"
  by (auto simp: umul_def)

lemma udiv_Inr_iff: "udiv a b = Inr c \<longleftrightarrow> c = a div b \<and> b \<noteq> 0"
  by (auto simp: udiv_def)

lemma rd_Inr_iff: "rd xs i = Inr x \<longleftrightarrow> i < length xs \<and> x = xs ! i"
  by (auto simp: rd_def)

lemma wr_Inr_iff: "wr xs i v = Inr ys \<longleftrightarrow> i < length xs \<and> ys = xs[i := v]"
  by (auto simp: wr_def)

lemmas Inr_iffs = rbind_Inr_iff uadd_Inr_iff usub_Inr_iff umul_Inr_iff udiv_Inr_iff rd_Inr_iff wr_Inr_iff

lemma forM_upt_inv:
  assumes "forM [a..<b] f s = Inr t" and "a \<le> b" and "P a s"
    and "\<And>i u v. a \<le> i \<Longrightarrow> i < b \<Longrightarrow> P i u \<Longrightarrow> f u i = Inr v \<Longrightarrow> P (Suc i) v"
  shows "P b t"
  using assms
proof (induction "b - a" arbitrary: a s)
  case 0
  then show ?case by simp
next
  case (Suc n)
  then have ab: "a < b" by simp
  then have upt: "[a..<b] = a # [Suc a..<b]" by (simp add: upt_conv_Cons)
  from Suc.prems(1) obtain s1 where s1: "f s a = Inr s1" and rest: "forM [Suc a..<b] f s1 = Inr t"
    unfolding upt by (auto simp: rbind_Inr_iff)
  have P1: "P (Suc a) s1" using Suc.prems(4)[OF _ ab Suc.prems(3) s1] by simp
  show ?case
  proof (rule Suc.hyps(1)[OF _ rest _ P1])
    show "n = b - Suc a" using Suc.hyps(2) by simp
    show "Suc a \<le> b" using ab by simp
    fix i u v assume "Suc a \<le> i" "i < b" "P i u" "f u i = Inr v"
    then show "P (Suc i) v" using Suc.prems(4)[of i u v] by simp
  qed
qed

lemma forM_upt_total:
  assumes "a \<le> b" and "P a s"
    and "\<And>i u. a \<le> i \<Longrightarrow> i < b \<Longrightarrow> P i u \<Longrightarrow> \<exists>v. f u i = Inr v \<and> P (Suc i) v"
  shows "\<exists>t. forM [a..<b] f s = Inr t \<and> P b t"
  using assms
proof (induction "b - a" arbitrary: a s)
  case 0
  then show ?case by simp
next
  case (Suc n)
  then have ab: "a < b" by simp
  then have upt: "[a..<b] = a # [Suc a..<b]" by (simp add: upt_conv_Cons)
  from Suc.prems(3)[OF _ ab Suc.prems(2)] obtain s1 where s1: "f s a = Inr s1" and P1: "P (Suc a) s1"
    by auto
  have "\<exists>t. forM [Suc a..<b] f s1 = Inr t \<and> P b t"
  proof (rule Suc.hyps(1)[OF _ _ P1])
    show "n = b - Suc a" using Suc.hyps(2) by simp
    show "Suc a \<le> b" using ab by simp
    fix i u assume "Suc a \<le> i" "i < b" "P i u"
    then show "\<exists>v. f u i = Inr v \<and> P (Suc i) v" using Suc.prems(3)[of i u] by simp
  qed
  then show ?case unfolding upt using s1 by simp
qed

lemma normalizeWeights_loop:
  assumes "forM [0..<length ws]
             (\<lambda>(newWeights, adjustedSum) i.
                  rbind (rd ws i) (\<lambda>w.
                  rbind (umul w ONE) (\<lambda>p.
                  rbind (udiv p S) (\<lambda>q.
                  rbind (wr newWeights i q) (\<lambda>newWeights'.
                  rbind (uadd adjustedSum q) (\<lambda>adjustedSum'.
                  Inr (newWeights', adjustedSum')))))))
             (replicate (length ws) 0, 0) = Inr (nw, adj)"
  shows "length nw = length ws \<and> (\<forall>k < length ws. nw ! k = ws ! k * ONE div S) \<and> adj = sum_list nw"
proof -
  let ?P = "\<lambda>i (st :: nat list \<times> nat). length (fst st) = length ws
              \<and> (\<forall>k < i. fst st ! k = ws ! k * ONE div S)
              \<and> (\<forall>k. i \<le> k \<and> k < length ws \<longrightarrow> fst st ! k = 0)
              \<and> snd st = sum_list (fst st)"
  have "?P (length ws) (nw, adj)"
  proof (rule forM_upt_inv[OF assms, where P = ?P])
    show "0 \<le> length ws" by simp
    show "?P 0 (replicate (length ws) 0, 0)" by simp
  next
    fix i u v
    assume i: "0 \<le> i" "i < length ws" and P: "?P i u"
      and step: "(case u of (newWeights, adjustedSum) \<Rightarrow> \<lambda>i.
                  rbind (rd ws i) (\<lambda>w.
                  rbind (umul w ONE) (\<lambda>p.
                  rbind (udiv p S) (\<lambda>q.
                  rbind (wr newWeights i q) (\<lambda>newWeights'.
                  rbind (uadd adjustedSum q) (\<lambda>adjustedSum'.
                  Inr (newWeights', adjustedSum'))))))) i = Inr v"
    obtain nw0 adj0 where u: "u = (nw0, adj0)" by (cases u)
    from step have v: "v = (nw0[i := ws ! i * ONE div S], adj0 + ws ! i * ONE div S)"
      unfolding u by (auto simp: Inr_iffs)
    from P u i have z: "nw0 ! i = 0" and len: "length nw0 = length ws" and s: "adj0 = sum_list nw0" by auto
    have "sum_list (nw0[i := ws ! i * ONE div S]) = sum_list nw0 + ws ! i * ONE div S"
      using i len z by (simp add: sum_list_update)
    then show "?P (Suc i) v"
      using P u i v s by (auto simp: nth_list_update less_Suc_eq)
  qed
  then show ?thesis by simp
qed

lemma normalizeWeights_sum:
  assumes "normalizeWeights ws S = Inr ns"
  shows "length ns = length ws \<and> sum_list ns = ONE
         \<and> (\<forall>i. 0 < i \<and> i < length ws \<longrightarrow> ns ! i = ws ! i * ONE div S)"
proof -
  from assms obtain nw adj where
    loop: "forM [0..<length ws]
             (\<lambda>(newWeights, adjustedSum) i.
                  rbind (rd ws i) (\<lambda>w.
                  rbind (umul w ONE) (\<lambda>p.
                  rbind (udiv p S) (\<lambda>q.
                  rbind (wr newWeights i q) (\<lambda>newWeights'.
                  rbind (uadd adjustedSum q) (\<lambda>adjustedSum'.
                  Inr (newWeights', adjustedSum')))))))
             (replicate (length ws) 0, 0) = Inr (nw, adj)"
    and fin: "0 < length nw" "adj \<le> nw ! 0 + ONE" "ns = nw[0 := nw ! 0 + ONE - adj]"
    unfolding normalizeWeights_def Let_def by (auto simp: Inr_iffs)
  from normalizeWeights_loop[OF loop]
  have len: "length nw = length ws" and ent: "\<forall>k < length ws. nw ! k = ws ! k * ONE div S"
    and adj: "adj = sum_list nw" by auto
  have "sum_list ns = sum_list nw + (nw ! 0 + ONE - adj) - nw ! 0"
    using fin by (simp add: sum_list_update)
  moreover have "nw ! 0 \<le> sum_list nw" using fin(1) by (simp add: member_le_sum_list)
  ultimately have "sum_list ns = ONE" using fin(2) adj by simp
  then show ?thesis using len ent fin by auto
qed


lemma calcNormalizedWeights_sum:
  "calcNormalizedWeights w value prices uidx ubal = Inr ws \<Longrightarrow> length ws = numTokens w \<and> sum_list ws = ONE"
  unfolding calcNormalizedWeights_def Let_def
  apply (clarsimp simp: rbind_Inr_iff split: prod.splits)
  subgoal premises p for ws1 pws s1 ws2 s2 x
  proof -
    let ?n = "numTokens w"
    let ?P = "\<lambda>i (st :: nat list \<times> nat \<times> nat). length (fst st) = ?n
                \<and> (\<forall>k < ?n. k < numPoolTokens w \<or> numPoolTokens w + i \<le> k \<longrightarrow> fst st ! k = 0)
                \<and> snd (snd st) = sum_list (fst st)"
    have A: "?P (numYieldTokens w) (ws1, pws, s1)"
      apply (rule forM_upt_inv[OF p(1), where P = ?P])
        apply simp
       apply simp
      subgoal for i u v
        apply (cases u)
        apply (clarsimp simp: Inr_iffs nth_list_update sum_list_update)
        done
      done
    let ?Q = "\<lambda>i (st :: nat list \<times> nat). length (fst st) = ?n
                \<and> (\<forall>k. i \<le> k \<and> k < numPoolTokens w \<longrightarrow> fst st ! k = 0)
                \<and> snd st = sum_list (fst st)"
    have B: "?Q (numPoolTokens w) (ws2, s2)"
      apply (rule forM_upt_inv[OF p(2), where P = ?Q])
        apply simp
      using A apply (simp add: numTokens_def)
      subgoal for i u v
        apply (cases u)
        apply (clarsimp simp: Inr_iffs nth_list_update sum_list_update numTokens_def)
        done
      done
    from B have len: "length ws2 = ?n" and s2: "s2 = sum_list ws2" by auto
    from p(3) have x: "0 < length ws2" "x = ws2 ! 0" by (auto simp: Inr_iffs)
    have le: "ws2 ! 0 \<le> sum_list ws2" using x(1) by (simp add: member_le_sum_list)
    show ?thesis
      using p(4) len s2 x le
      by (auto simp: Inr_iffs sum_list_update split: if_splits)
  qed
  done

lemma forM_append: "forM (xs @ ys) f s = rbind (forM xs f s) (forM ys f)"
  by (induction xs arbitrary: s) (auto simp: rbind_def split: sum.splits)

lemma forM_all_pass:
  "(\<And>j. j \<in> set xs \<Longrightarrow> f s j = Inr s) \<Longrightarrow> forM xs f s = Inr s"
  by (induction xs) auto

lemma forM_first_failure:
  assumes "a \<le> k" and "k < b" and "\<And>j. a \<le> j \<Longrightarrow> j < k \<Longrightarrow> f s j = Inr s" and "f s k = Inl e"
  shows "forM [a..<b] f s = Inl e"
proof -
  have split: "[a..<b] = [a..<k] @ k # [Suc k..<b]"
  proof -
    have "[a..<b] = [a..<k] @ [k..<b]"
      using assms(1,2) by (metis le_Suc_ex less_imp_le_nat upt_add_eq_append)
    then show ?thesis using assms(2) by (simp add: upt_conv_Cons)
  qed
  have "forM [a..<k] f s = Inr s"
    by (rule forM_all_pass) (use assms(3) in auto)
  then show ?thesis unfolding split forM_append using assms(4) by simp
qed

lemma forM_upt_pass_iff:
  fixes f :: "unit \<Rightarrow> nat \<Rightarrow> error + unit"
  shows "forM [a..<b] f () = Inr () \<longleftrightarrow> (\<forall>j. a \<le> j \<and> j < b \<longrightarrow> f () j = Inr ())"
proof
  assume ok: "forM [a..<b] f () = Inr ()"
  show "\<forall>j. a \<le> j \<and> j < b \<longrightarrow> f () j = Inr ()"
  proof (intro allI impI)
    fix j assume j: "a \<le> j \<and> j < b"
    show "f () j = Inr ()"
    proof (rule ccontr)
      assume "f () j \<noteq> Inr ()"
      then obtain e where "f () j = Inl e" by (cases "f () j") auto
      moreover have "\<exists>k. (a \<le> k \<and> k < b \<and> (\<exists>e. f () k = Inl e)) \<and> (\<forall>m<k. \<not> (a \<le> m \<and> m < b \<and> (\<exists>e. f () m = Inl e)))"
        using j calculation exists_least_iff[of "\<lambda>k. a \<le> k \<and> k < b \<and> (\<exists>e. f () k = Inl e)"] by blast
      then obtain k e' where k: "a \<le> k" "k < b" "f () k = Inl e'"
        and least: "\<forall>m<k. \<not> (a \<le> m \<and> m < b \<and> (\<exists>e. f () m = Inl e))" by blast
      have "\<And>m. a \<le> m \<Longrightarrow> m < k \<Longrightarrow> f () m = Inr ()"
      proof -
        fix m assume m: "a \<le> m" "m < k"
        then have "\<not> (\<exists>e. f () m = Inl e)" using least k(2) by auto
        then show "f () m = Inr ()" by (cases "f () m") auto
      qed
      then have "forM [a..<b] f () = Inl e'" using forM_first_failure[of a k b f "()" e'] k by blast
      then show False using ok by simp
    qed
  qed
next
  assume "\<forall>j. a \<le> j \<and> j < b \<longrightarrow> f () j = Inr ()"
  then show "forM [a..<b] f () = Inr ()" by (intro forM_all_pass) auto
qed

section \<open>Weight normalisation sums to one\<close>

lemma div_add_le_nat: "(a::nat) div S + b div S \<le> (a + b) div S"
proof (cases "S = 0")
  case True
  then show ?thesis by simp
next
  case False
  have "(a div S + b div S) * S \<le> a + b"
    by (simp add: add_mult_distrib add_mono)
  then have "((a div S + b div S) * S) div S \<le> (a + b) div S"
    by (rule div_le_mono)
  then show ?thesis using False by simp
qed

lemma sum_list_floor_le:
  "sum_list (map (\<lambda>x. x * c div S) xs) \<le> sum_list xs * c div (S::nat)"
proof (induction xs)
  case Nil
  then show ?case by simp
next
  case (Cons x xs)
  have "x * c div S + sum_list (map (\<lambda>x. x * c div S) xs) \<le> x * c div S + sum_list xs * c div S"
    using Cons.IH by simp
  also have "\<dots> \<le> (x * c + sum_list xs * c) div S" by (rule div_add_le_nat)
  finally show ?case by (simp add: add_mult_distrib)
qed

lemma sum_list_take_le: "sum_list (take i (xs::nat list)) \<le> sum_list xs"
proof -
  have "sum_list xs = sum_list (take i xs) + sum_list (drop i xs)"
    by (metis append_take_drop_id sum_list_append)
  then show ?thesis by simp
qed

lemma ONE_le_MAX: "2 * ONE \<le> MAX_UINT256"
  by (simp add: ONE_def MAX_UINT256_def)

lemma normalizeWeights_total:
  assumes ne: "ws \<noteq> []" and S: "S = sum_list ws" and pos: "0 < S"
    and fit: "\<forall>x \<in> set ws. x * ONE \<le> MAX_UINT256"
  shows "\<exists>ns. normalizeWeights ws S = Inr ns"
proof -
  let ?g = "\<lambda>x. x * ONE div S"
  let ?f = "(\<lambda>(newWeights, adjustedSum) i.
                  rbind (rd ws i) (\<lambda>w.
                  rbind (umul w ONE) (\<lambda>p.
                  rbind (udiv p S) (\<lambda>q.
                  rbind (wr newWeights i q) (\<lambda>newWeights'.
                  rbind (uadd adjustedSum q) (\<lambda>adjustedSum'.
                  Inr (newWeights', adjustedSum')))))))"
  let ?P = "\<lambda>i (st :: nat list \<times> nat). length (fst st) = length ws
              \<and> snd st = sum_list (map ?g (take i ws))"
  have tot: "sum_list (map ?g ws) \<le> ONE"
    using sum_list_floor_le[of ONE S ws] S pos by simp
  have part: "sum_list (map ?g (take i ws)) \<le> ONE" for i
    using sum_list_take_le[of i "map ?g ws"] tot by (simp add: take_map)
  have "\<exists>t. forM [0..<length ws] ?f (replicate (length ws) 0, 0) = Inr t \<and> ?P (length ws) t"
  proof (rule forM_upt_total[where P = ?P])
    show "0 \<le> length ws" by simp
    show "?P 0 (replicate (length ws) 0, 0)" by simp
  next
    fix i u
    assume i: "0 \<le> i" "i < length ws" and P: "?P i u"
    obtain nw adj where u: "u = (nw, adj)" by (cases u)
    have t: "take (Suc i) ws = take i ws @ [ws ! i]" using i by (simp add: take_Suc_conv_app_nth)
    have "adj + ?g (ws ! i) = sum_list (map ?g (take (Suc i) ws))" using P u t by simp
    then have le: "adj + ?g (ws ! i) \<le> MAX_UINT256"
      using part[of "Suc i"] ONE_le_MAX by simp
    have m: "ws ! i * ONE \<le> MAX_UINT256" using fit i by simp
    show "\<exists>v. ?f u i = Inr v \<and> ?P (Suc i) v"
      using P u i le m pos t
      by (simp add: rd_def umul_def udiv_def wr_def uadd_def)
  qed
  then obtain nw adj where loop: "forM [0..<length ws] ?f (replicate (length ws) 0, 0) = Inr (nw, adj)"
    by auto
  from normalizeWeights_loop[OF loop]
  have len: "length nw = length ws" and ent: "\<forall>k < length ws. nw ! k = ?g (ws ! k)"
    and adj: "adj = sum_list nw" by auto
  have nwmap: "nw = map ?g ws" using len ent by (simp add: list_eq_iff_nth_eq)
  have a: "adj \<le> ONE" using adj nwmap tot by simp
  have "nw ! 0 \<le> sum_list nw" using ne len by (simp add: member_le_sum_list)
  then have b: "nw ! 0 \<le> ONE" using a adj by simp
  show ?thesis
    unfolding normalizeWeights_def Let_def loop
    using ne len a b ONE_le_MAX
    by (cases nw) (auto simp: rd_def uadd_def usub_def wr_def)
qed

lemma getNormalizedWeights_sum:
  "getNormalizedWeights w = Inr ws \<Longrightarrow> length ws = numTokens w \<and> sum_list ws = ONE"
  unfolding getNormalizedWeights_def
  by (auto simp: rbind_Inr_iff split: prod.splits dest: calcNormalizedWeights_sum)

section \<open>Evaluating the model on concrete states\<close>

lemma replicate_numeral_eq: "replicate (numeral k) x = x # replicate (pred_numeral k) x"
  by (simp add: numeral_eq_Suc)

lemmas arith_defs = uadd_def usub_def umul_def udiv_def rd_def wr_def ONE_def MAX_UINT256_def
  PANIC_ARITH_def PANIC_DIV_def PANIC_INDEX_def MIN_WEIGHT_def

lemmas view_defs = getPoolTokens_def getPoolHoldings_def getPoolTokensData_def getTokens_def
  getHoldings_def getUnderlyingBalances_def getUnderlyingTotalBalances_def getValue_def
  getOraclePrices_def checkOracleStatus_def calcSpotPrice_def getSpotPrices_def
  checkDivergence_def getDeterminedPrices_def calcNormalizedWeights_def getNormalizedWeights_def
  bVault_getPoolTokens_def pool_getNormalizedWeights_def numTokens_def numOracles_def
  convertToAssets_def totalAssets_def balanceOf_def

lemmas erc20_defs = allowance_def approve_def safeTransfer_def safeTransferFrom_def
  safeIncreaseAllowance_def safeDecreaseAllowance_def

lemmas wrapper_defs = previewDeposit_def previewWithdraw_def maxDeposit_def maxWithdraw_def
  mintShares_def burnShares_def erc4626_deposit_def erc4626_withdraw_def

lemmas pool_defs = managePoolBalanceOp_def pool_updateWeightsGradually_def pool_setSwapEnabled_def
  emit_def

lemmas op_defs = updatePoolWeights_def setSwapEnabled_def depositToken_def clearAllowance_def
  setAllowance_def getPoolTokenValues_def updatePoolBalance_def depositToPool_def
  withdrawFromPool_def depositTokens_def getFeeIndex_def creditFee_def calcFee_def
  lockGuardianFees_def getValuesFromTokenWithValues_def checkWeights_def checkGuardianAddress_def
  checkWithdrawAmount_def belowYieldActionThreshold_def depositUnderlyingAsset_def
  withdrawUnderlyingAsset_def depositWeightsOracle_def depositWeightsSpot_def
  depositTokensAndUpdateWeights_def withdrawTokens_def returnFunds_def

lemmas entry_defs = onlyOwner_def onlyGuardian_def whenInitialized_def whenNotFinalized_def
  deposit_def depositRiskingArbitrage_def withdraw_def finalize_def installGuardian_def
  setGuardian_def distributeGuardianFees_def claimGuardianFees_def getGuardiansFee_def
  oraclePriceWeights_def enableTradingWithOraclePrice_def

lemmas engine_defs = getWeightChangeRatio_def checkWeightChangeRatio_def
  getUnderlyingTotalWeights_def calcAdjustmentAmounts_def calcNecessaryAmounts_def
  withdrawNecessaryTokensFromPool_def withdrawFromYieldTokens_def depositToYieldTokens_def
  adjustYieldTokens_def adjustPoolWeights_def prepareWeightUpdate_def rateCheckInputs_def
  updateWeightsGraduallyBody_def
  updateWeightsGradually_def MAX_UINT32_def MINIMUM_WEIGHT_CHANGE_DURATION_def
  MAX_WEIGHT_CHANGE_RATIO_def

lemmas eval_simps = arith_defs view_defs erc20_defs wrapper_defs pool_defs op_defs entry_defs
  engine_defs normalizeWeights_def upt_rec replicate_numeral_eq Let_def

lemma normalizeWeights_example:
  "normalizeWeights [1, 1, 1] 3 = Inr [333333333333333334, 333333333333333333, 333333333333333333]"
  by (simp add: normalizeWeights_def arith_defs upt_rec)

lemma getNormalizedWeights_example:
  "getNormalizedWeights exampleVault
     = Inr [476190476190476191, 476190476190476190, 47619047619047619]"
  by (simp add: view_defs arith_defs exampleVault_def upt_rec replicate_numeral_eq)

section \<open>Claims\<close>

text \<open>
  C1 (as amended). Every successful call of \<open>normalizeWeights\<close> returns a vector of the
  length of its input whose entries sum to exactly \<open>ONE\<close>, every entry after index 0 being
  the truncated quotient \<open>weights[i] * ONE / weightSum\<close>, so that the rounding residue sits
  at index 0. The call succeeds whenever the array is not empty, \<open>weightSum\<close> is the
  nonzero sum of the weights (as every caller passes it) and no product
  \<open>weights[i] * ONE\<close> overflows. Every successful \<open>getNormalizedWeights\<close> returns
  \<open>numTokens\<close> entries that sum to exactly \<open>ONE\<close>.
\<close>

theorem normalized_weights_sum_to_ONE:
  "(normalizeWeights ws S = Inr ns \<longrightarrow>
      length ns = length ws \<and> sum_list ns = ONE
      \<and> (\<forall>i. 0 < i \<and> i < length ws \<longrightarrow> ns ! i = ws ! i * ONE div S))
   \<and> (ws \<noteq> [] \<and> S = sum_list ws \<and> 0 < S \<and> (\<forall>x \<in> set ws. x * ONE \<le> MAX_UINT256) \<longrightarrow>
        (\<exists>ns'. normalizeWeights ws S = Inr ns'))
   \<and> (getNormalizedWeights w = Inr nw \<longrightarrow> length nw = numTokens w \<and> sum_list nw = ONE)"
  using normalizeWeights_sum[of ws S ns] normalizeWeights_total[of ws S]
    getNormalizedWeights_sum[of w nw]
  by blast

theorem normalized_weights_sum_to_ONE_witness:
  "sum_list [333333333333333334, 333333333333333333, 333333333333333333] = ONE
   \<and> (\<exists>ns'. normalizeWeights [1, 1, 1] 3 = Inr ns')
   \<and> sum_list [476190476190476191, 476190476190476190, 47619047619047619] = ONE
   \<and> numTokens exampleVault = 3"
proof -
  have h1: "normalizeWeights [1, 1, 1] 3
              = Inr [333333333333333334, 333333333333333333, 333333333333333333]"
    by (rule normalizeWeights_example)
  have h2: "[1, 1, 1] \<noteq> [] \<and> (3::nat) = sum_list [1, 1, 1] \<and> (0::nat) < 3
              \<and> (\<forall>x \<in> set [1, 1, 1]. x * ONE \<le> MAX_UINT256)"
    by (simp add: ONE_def MAX_UINT256_def)
  have h3: "getNormalizedWeights exampleVault
              = Inr [476190476190476191, 476190476190476190, 47619047619047619]"
    by (rule getNormalizedWeights_example)
  from normalized_weights_sum_to_ONE
         [of "[1, 1, 1]" 3 "[333333333333333334, 333333333333333333, 333333333333333333]"
             exampleVault "[476190476190476191, 476190476190476190, 47619047619047619]"]
       h1 h2 h3
  show ?thesis by simp
qed

text \<open>
  C1 as stated fails: with a nonzero \<open>weightSum\<close> below the sum of the weights the
  correction at index 0 underflows and \<open>normalizeWeights\<close> reverts instead of returning.
\<close>

theorem normalizeWeights_reverts_counterexample:
  "normalizeWeights [1, 1, 1] 1 = Inl (Panic PANIC_ARITH)"
  by (simp add: normalizeWeights_def arith_defs upt_rec)

lemmas guard_defs = onlyOwner_def onlyGuardian_def whenInitialized_def whenNotFinalized_def

lemma updateWeightsGradually_schedule:
  assumes "sender = guardian w" and "initialized w" and "\<not> finalized w"
  shows "updateWeightsGradually sender tokenWithWeight startTime endTime w =
     (if MAX_UINT32 < startTime
        then Inl (Mammon__WeightChangeStartTimeIsAboveMax startTime MAX_UINT32)
      else if MAX_UINT32 < endTime
        then Inl (Mammon__WeightChangeEndTimeIsAboveMax endTime MAX_UINT32)
      else if endTime < max (blockTimestamp w) startTime
        then Inl Mammon__WeightChangeEndBeforeStart
      else if endTime - max (blockTimestamp w) startTime < MINIMUM_WEIGHT_CHANGE_DURATION
        then Inl (Mammon__WeightChangeDurationIsBelowMin
                    (endTime - max (blockTimestamp w) startTime) MINIMUM_WEIGHT_CHANGE_DURATION)
      else updateWeightsGraduallyBody tokenWithWeight (max (blockTimestamp w) startTime) endTime w)"
proof -
  have fit: "max (blockTimestamp w) startTime + MINIMUM_WEIGHT_CHANGE_DURATION \<le> MAX_UINT256"
    if "endTime \<le> MAX_UINT32" "max (blockTimestamp w) startTime \<le> endTime"
    using that by (simp add: MAX_UINT32_def MAX_UINT256_def MINIMUM_WEIGHT_CHANGE_DURATION_def)
  show ?thesis
    using assms fit
    by (auto simp: updateWeightsGradually_def guard_defs Let_def uadd_def usub_def not_less)
qed

text \<open>
  C9. For the guardian of an initialized vault that is not finalized,
  \<open>updateWeightsGradually\<close> checks its schedule in this order: a start time above
  \<open>2^32 - 1\<close> fails, then an end time above \<open>2^32 - 1\<close> fails; the start time is
  clamped to \<open>max(now, startTime)\<close>; a clamped start after the end time fails with
  \<open>WeightChangeEndBeforeStart\<close>; a duration \<open>endTime - start\<close> below the minimum of
  four hours fails with \<open>WeightChangeDurationIsBelowMin\<close>; otherwise the update
  proceeds with the clamped start time.
\<close>

theorem updateWeightsGradually_schedule_checks:
  assumes "sender = guardian w" and "initialized w" and "\<not> finalized w"
  shows "updateWeightsGradually sender tokenWithWeight startTime endTime w =
     (if MAX_UINT32 < startTime
        then Inl (Mammon__WeightChangeStartTimeIsAboveMax startTime MAX_UINT32)
      else if MAX_UINT32 < endTime
        then Inl (Mammon__WeightChangeEndTimeIsAboveMax endTime MAX_UINT32)
      else if endTime < max (blockTimestamp w) startTime
        then Inl Mammon__WeightChangeEndBeforeStart
      else if endTime - max (blockTimestamp w) startTime < MINIMUM_WEIGHT_CHANGE_DURATION
        then Inl (Mammon__WeightChangeDurationIsBelowMin
                    (endTime - max (blockTimestamp w) startTime) MINIMUM_WEIGHT_CHANGE_DURATION)
      else updateWeightsGraduallyBody tokenWithWeight (max (blockTimestamp w) startTime) endTime w)"
  using assms by (rule updateWeightsGradually_schedule)

theorem updateWeightsGradually_schedule_checks_witness:
  "updateWeightsGradually 2 [] 0 1000600 exampleVault
     = Inl (Mammon__WeightChangeDurationIsBelowMin 100 14400)"
proof -
  have h: "2 = guardian exampleVault" "initialized exampleVault" "\<not> finalized exampleVault"
    by (simp_all add: exampleVault_def)
  show ?thesis
    using updateWeightsGradually_schedule_checks[OF h, of "[]" 0 1000600]
    by (simp add: exampleVault_def MAX_UINT32_def MINIMUM_WEIGHT_CHANGE_DURATION_def)
qed

section \<open>The oracle staleness gate\<close>

lemma mapM_Inr_iff:
  "mapM f xs = Inr ys \<longleftrightarrow> length ys = length xs \<and> (\<forall>i < length xs. f (xs ! i) = Inr (ys ! i))"
proof (induction xs arbitrary: ys)
  case Nil
  then show ?case by auto
next
  case (Cons x xs)
  show ?case
  proof (cases ys)
    case Nil
    then show ?thesis by (auto simp: rbind_Inr_iff)
  next
    case (Cons y ys')
    have "(\<forall>i < Suc (length xs). f ((x # xs) ! i) = Inr ((y # ys') ! i))
            \<longleftrightarrow> f x = Inr y \<and> (\<forall>i < length xs. f (xs ! i) = Inr (ys' ! i))"
      by (auto simp: nth_Cons split: nat.splits)
    then show ?thesis using Cons Cons.IH[of ys'] by (auto simp: rbind_Inr_iff)
  qed
qed

lemma mapM_upt_Inr_iff:
  "mapM f [0..<n] = Inr ys \<longleftrightarrow> length ys = n \<and> (\<forall>i < n. f i = Inr (ys ! i))"
  by (simp add: mapM_Inr_iff)

lemma checkOracleStatus_Inr_iff:
  "checkOracleStatus w u = Inr r \<longleftrightarrow>
     oraclesEnabled w \<and>
     (\<forall>j < numOracles w. j \<noteq> numeraireAssetIndex w \<longrightarrow>
        j < length u \<and> u ! j \<le> blockTimestamp w \<and> blockTimestamp w - u ! j \<le> maxOracleDelay w)"
  unfolding checkOracleStatus_def
  by (cases r) (auto simp: forM_upt_pass_iff Inr_iffs not_less split: if_splits)

lemma checkOracleStatus_delayed:
  assumes en: "oraclesEnabled w" and len: "numOracles w \<le> length u"
    and past: "\<forall>j < numOracles w. j \<noteq> numeraireAssetIndex w \<longrightarrow> u ! j \<le> blockTimestamp w"
    and i: "i < numOracles w" "i \<noteq> numeraireAssetIndex w"
    and stale: "maxOracleDelay w < blockTimestamp w - u ! i"
  shows "\<exists>k \<le> i. k \<noteq> numeraireAssetIndex w \<and> maxOracleDelay w < blockTimestamp w - u ! k \<and>
           checkOracleStatus w u
             = Inl (Mammon__OracleIsDelayedBeyondMax k (blockTimestamp w - u ! k) (maxOracleDelay w))"
proof -
  let ?S = "\<lambda>k. k < numOracles w \<and> k \<noteq> numeraireAssetIndex w \<and> maxOracleDelay w < blockTimestamp w - u ! k"
  have "\<exists>k. ?S k" using i stale by blast
  then obtain k where k: "?S k" and least: "\<forall>m<k. \<not> ?S m"
    using exists_least_iff[of ?S] by blast
  have ki: "k \<le> i" using least i stale by (meson not_less)
  let ?f = "(\<lambda>_ i.
             if i = numeraireAssetIndex w then Inr ()
             else
               rbind (rd u i) (\<lambda>x.
               rbind (usub (blockTimestamp w) x) (\<lambda>delay.
               if maxOracleDelay w < delay
               then Inl (Mammon__OracleIsDelayedBeyondMax i delay (maxOracleDelay w))
               else Inr ())))"
  have "forM [0..<numOracles w] ?f ()
          = Inl (Mammon__OracleIsDelayedBeyondMax k (blockTimestamp w - u ! k) (maxOracleDelay w))"
  proof (rule forM_first_failure[where k = k])
    show "0 \<le> k" by simp
    show "k < numOracles w" using k by simp
    show "?f () j = Inr ()" if "0 \<le> j" "j < k" for j
      using that least k len past by (auto simp: rd_def usub_def not_less)
    show "?f () k = Inl (Mammon__OracleIsDelayedBeyondMax k (blockTimestamp w - u ! k) (maxOracleDelay w))"
      using k len past by (auto simp: rd_def usub_def)
  qed
  then show ?thesis using en k ki unfolding checkOracleStatus_def by auto
qed

lemma getOraclePrices_updatedAt:
  assumes "getOraclePrices w = Inr (P, U)"
  shows "length U = numOracles w \<and> length P = numOracles w \<and>
         (\<forall>i < numOracles w. i \<noteq> numeraireAssetIndex w \<longrightarrow>
             i < length (oracles w) \<and> U ! i = oUpdatedAt (oracles w ! i) \<and> 0 < oAnswer (oracles w ! i))"
  using assms unfolding getOraclePrices_def
  by (auto simp: Inr_iffs mapM_upt_Inr_iff split: if_splits) (metis snd_conv)+

lemma checkOracleStatus_stale_fails:
  assumes "i < numOracles w" "i \<noteq> numeraireAssetIndex w" "maxOracleDelay w < blockTimestamp w - u ! i"
  shows "checkOracleStatus w u \<noteq> Inr r"
  using assms by (auto simp: checkOracleStatus_Inr_iff)

lemma enableTradingWithOraclePrice_stale_fails:
  assumes "i < numOracles w" "i \<noteq> numeraireAssetIndex w"
    "maxOracleDelay w < blockTimestamp w - oUpdatedAt (oracles w ! i)"
  shows "enableTradingWithOraclePrice sender w \<noteq> Inr w'"
proof
  assume "enableTradingWithOraclePrice sender w = Inr w'"
  then obtain P U r where g: "getOraclePrices w = Inr (P, U)" and c: "checkOracleStatus w U = Inr r"
    unfolding enableTradingWithOraclePrice_def by (auto simp: rbind_Inr_iff split: prod.splits)
  from getOraclePrices_updatedAt[OF g] assms have "U ! i = oUpdatedAt (oracles w ! i)" by simp
  with checkOracleStatus_stale_fails[OF assms(1,2), of U r] assms(3) c show False by simp
qed

lemma getDeterminedPrices_stale_not_oracle:
  assumes "i < numOracles w" "i \<noteq> numeraireAssetIndex w"
    "maxOracleDelay w < blockTimestamp w - oUpdatedAt (oracles w ! i)"
  shows "getDeterminedPrices w amounts \<noteq> Inr (prices, ORACLE)"
proof
  assume "getDeterminedPrices w amounts = Inr (prices, ORACLE)"
  then obtain P U r where g: "getOraclePrices w = Inr (P, U)" and c: "checkOracleStatus w U = Inr r"
    unfolding getDeterminedPrices_def
    by (auto simp: rbind_Inr_iff split: prod.splits if_splits)
  from getOraclePrices_updatedAt[OF g] assms have "U ! i = oUpdatedAt (oracles w ! i)" by simp
  with checkOracleStatus_stale_fails[OF assms(1,2), of U r] assms(3) c show False by simp
qed

section \<open>The rate-limit check\<close>

lemma ONE_sq_le_MAX: "ONE * ONE \<le> MAX_UINT256"
  by (simp add: ONE_def MAX_UINT256_def)

lemma ONE_mult_fits: "x \<le> ONE \<Longrightarrow> ONE * x \<le> MAX_UINT256"
  using ONE_sq_le_MAX by (meson le_trans mult_le_mono2)

lemma getWeightChangeRatio_pos:
  "0 < c \<Longrightarrow> 0 < t \<Longrightarrow> ONE * max c t \<le> MAX_UINT256 \<Longrightarrow>
     getWeightChangeRatio c t = Inr (ONE * max c t div min c t)"
  by (cases "t < c") (simp_all add: getWeightChangeRatio_def umul_def udiv_def max_def min_def)

lemma getWeightChangeRatio_zero:
  "c = 0 \<or> t = 0 \<Longrightarrow> ONE * max c t \<le> MAX_UINT256 \<Longrightarrow>
     getWeightChangeRatio c t = Inl (Panic PANIC_DIV)"
  by (cases "t < c") (auto simp: getWeightChangeRatio_def umul_def udiv_def max_def min_def)

lemma getWeightChangeRatio_Inr_pos:
  "getWeightChangeRatio c t = Inr r \<Longrightarrow> 0 < c \<and> 0 < t"
  by (auto simp: getWeightChangeRatio_def Inr_iffs split: if_splits)

lemma getWeightChangeRatio_no_div_panic:
  "0 < c \<Longrightarrow> 0 < t \<Longrightarrow> getWeightChangeRatio c t \<noteq> Inl (Panic PANIC_DIV)"
  by (auto simp: getWeightChangeRatio_def umul_def udiv_def PANIC_DIV_def PANIC_ARITH_def)

lemma forM_Inl_source:
  "forM xs f () = Inl e \<Longrightarrow> \<exists>k \<in> set xs. f () k = Inl e"
proof (induction xs)
  case Nil
  then show ?case by simp
next
  case (Cons x xs)
  then show ?case by (cases "f () x") auto
qed

text \<open>One iteration of the rate-limit check.\<close>

lemma checkWeightChangeRatio_unfold:
  assumes "startTime \<le> endTime" and "MAX_WEIGHT_CHANGE_RATIO * (endTime - startTime) \<le> MAX_UINT256"
  shows "checkWeightChangeRatio w poolTokens target startTime endTime =
     forM [0..<numPoolTokens w]
        (\<lambda>_ i.
           rbind (rd (poolWeights w) i) (\<lambda>cw.
           rbind (rd target i) (\<lambda>tw.
           rbind (getWeightChangeRatio cw tw) (\<lambda>changeRatio.
           if MAX_WEIGHT_CHANGE_RATIO * (endTime - startTime) < changeRatio
           then rbind (rd poolTokens i) (\<lambda>pt.
                  Inl (Mammon__WeightChangeRatioIsAboveMax pt changeRatio
                         (MAX_WEIGHT_CHANGE_RATIO * (endTime - startTime))))
           else Inr ()))))
        ()"
  using assms
  by (simp add: checkWeightChangeRatio_def Let_def pool_getNormalizedWeights_def usub_def umul_def)

lemma checkWeightChangeRatio_above:
  assumes t: "startTime \<le> endTime" "MAX_WEIGHT_CHANGE_RATIO * (endTime - startTime) \<le> MAX_UINT256"
    and i: "i < numPoolTokens w"
    and len: "numPoolTokens w \<le> length (poolWeights w)" "numPoolTokens w \<le> length target"
             "numPoolTokens w \<le> length poolTokens"
    and nz: "\<forall>j \<le> i. 0 < poolWeights w ! j \<and> 0 < target ! j \<and> poolWeights w ! j \<le> ONE \<and> target ! j \<le> ONE"
    and above: "MAX_WEIGHT_CHANGE_RATIO * (endTime - startTime)
                  < ONE * max (poolWeights w ! i) (target ! i) div min (poolWeights w ! i) (target ! i)"
  shows "\<exists>k \<le> i.
           MAX_WEIGHT_CHANGE_RATIO * (endTime - startTime)
             < ONE * max (poolWeights w ! k) (target ! k) div min (poolWeights w ! k) (target ! k)
           \<and> checkWeightChangeRatio w poolTokens target startTime endTime
               = Inl (Mammon__WeightChangeRatioIsAboveMax (poolTokens ! k)
                        (ONE * max (poolWeights w ! k) (target ! k) div min (poolWeights w ! k) (target ! k))
                        (MAX_WEIGHT_CHANGE_RATIO * (endTime - startTime)))"
proof -
  let ?M = "MAX_WEIGHT_CHANGE_RATIO * (endTime - startTime)"
  let ?r = "\<lambda>k. ONE * max (poolWeights w ! k) (target ! k) div min (poolWeights w ! k) (target ! k)"
  let ?S = "\<lambda>k. k \<le> i \<and> ?M < ?r k"
  have "\<exists>k. ?S k" using above by blast
  then obtain k where k: "?S k" and least: "\<forall>m<k. \<not> ?S m"
    using exists_least_iff[of ?S] by blast
  have fits: "ONE * max (poolWeights w ! j) (target ! j) \<le> MAX_UINT256" if "j \<le> i" for j
    using nz that by (simp add: ONE_mult_fits)
  have ratio: "getWeightChangeRatio (poolWeights w ! j) (target ! j) = Inr (?r j)" if "j \<le> i" for j
    using getWeightChangeRatio_pos[of "poolWeights w ! j" "target ! j"] nz fits that by simp
  have "checkWeightChangeRatio w poolTokens target startTime endTime
          = Inl (Mammon__WeightChangeRatioIsAboveMax (poolTokens ! k) (?r k) ?M)"
    unfolding checkWeightChangeRatio_unfold[OF t]
  proof (rule forM_first_failure[where k = k])
    show "0 \<le> k" by simp
    show "k < numPoolTokens w" using k i by simp
  next
    fix j assume j: "0 \<le> j" "j < k"
    then have "\<not> ?M < ?r j" using least k by auto
    then show "rbind (rd (poolWeights w) j) (\<lambda>cw.
           rbind (rd target j) (\<lambda>tw.
           rbind (getWeightChangeRatio cw tw) (\<lambda>changeRatio.
           if ?M < changeRatio
           then rbind (rd poolTokens j) (\<lambda>pt.
                  Inl (Mammon__WeightChangeRatioIsAboveMax pt changeRatio ?M))
           else Inr ()))) = Inr ()"
      using j k i len ratio[of j] by (simp add: rd_def)
  next
    show "rbind (rd (poolWeights w) k) (\<lambda>cw.
           rbind (rd target k) (\<lambda>tw.
           rbind (getWeightChangeRatio cw tw) (\<lambda>changeRatio.
           if ?M < changeRatio
           then rbind (rd poolTokens k) (\<lambda>pt.
                  Inl (Mammon__WeightChangeRatioIsAboveMax pt changeRatio ?M))
           else Inr ()))) = Inl (Mammon__WeightChangeRatioIsAboveMax (poolTokens ! k) (?r k) ?M)"
      using k i len ratio[of k] by (simp add: rd_def)
  qed
  then show ?thesis using k by blast
qed

lemma checkWeightChangeRatio_zero:
  assumes t: "startTime \<le> endTime" "MAX_WEIGHT_CHANGE_RATIO * (endTime - startTime) \<le> MAX_UINT256"
    and i: "i < numPoolTokens w"
    and len: "numPoolTokens w \<le> length (poolWeights w)" "numPoolTokens w \<le> length target"
    and z: "poolWeights w ! i = 0 \<or> target ! i = 0" "poolWeights w ! i \<le> ONE" "target ! i \<le> ONE"
    and before: "\<forall>j < i. 0 < poolWeights w ! j \<and> 0 < target ! j \<and> poolWeights w ! j \<le> ONE \<and> target ! j \<le> ONE
                  \<and> ONE * max (poolWeights w ! j) (target ! j) div min (poolWeights w ! j) (target ! j)
                      \<le> MAX_WEIGHT_CHANGE_RATIO * (endTime - startTime)"
  shows "checkWeightChangeRatio w poolTokens target startTime endTime = Inl (Panic PANIC_DIV)"
  unfolding checkWeightChangeRatio_unfold[OF t]
proof (rule forM_first_failure[where k = i])
  show "0 \<le> i" by simp
  show "i < numPoolTokens w" by (rule i)
next
  fix j assume j: "0 \<le> j" "j < i"
  have "getWeightChangeRatio (poolWeights w ! j) (target ! j)
          = Inr (ONE * max (poolWeights w ! j) (target ! j) div min (poolWeights w ! j) (target ! j))"
    using before j by (intro getWeightChangeRatio_pos) (auto simp: ONE_mult_fits)
  then show "rbind (rd (poolWeights w) j) (\<lambda>cw.
           rbind (rd target j) (\<lambda>tw.
           rbind (getWeightChangeRatio cw tw) (\<lambda>changeRatio.
           if MAX_WEIGHT_CHANGE_RATIO * (endTime - startTime) < changeRatio
           then rbind (rd poolTokens j) (\<lambda>pt.
                  Inl (Mammon__WeightChangeRatioIsAboveMax pt changeRatio
                         (MAX_WEIGHT_CHANGE_RATIO * (endTime - startTime))))
           else Inr ()))) = Inr ()"
    using j i len before by (simp add: rd_def not_less)
next
  have "getWeightChangeRatio (poolWeights w ! i) (target ! i) = Inl (Panic PANIC_DIV)"
    using z by (intro getWeightChangeRatio_zero) (auto simp: ONE_mult_fits)
  then show "rbind (rd (poolWeights w) i) (\<lambda>cw.
           rbind (rd target i) (\<lambda>tw.
           rbind (getWeightChangeRatio cw tw) (\<lambda>changeRatio.
           if MAX_WEIGHT_CHANGE_RATIO * (endTime - startTime) < changeRatio
           then rbind (rd poolTokens i) (\<lambda>pt.
                  Inl (Mammon__WeightChangeRatioIsAboveMax pt changeRatio
                         (MAX_WEIGHT_CHANGE_RATIO * (endTime - startTime))))
           else Inr ()))) = Inl (Panic PANIC_DIV)"
    using i len by (simp add: rd_def)
qed

lemma checkWeightChangeRatio_no_div_panic:
  assumes pos: "\<forall>j < numPoolTokens w. 0 < poolWeights w ! j \<and> 0 < target ! j"
  shows "checkWeightChangeRatio w poolTokens target startTime endTime \<noteq> Inl (Panic PANIC_DIV)"
proof
  assume a: "checkWeightChangeRatio w poolTokens target startTime endTime = Inl (Panic PANIC_DIV)"
  have ne: "PANIC_ARITH \<noteq> PANIC_DIV" "PANIC_INDEX \<noteq> PANIC_DIV"
    by (simp_all add: PANIC_ARITH_def PANIC_DIV_def PANIC_INDEX_def)
  from a obtain d m where d: "usub endTime startTime = Inr d" and m: "umul MAX_WEIGHT_CHANGE_RATIO d = Inr m"
    and loop: "forM [0..<numPoolTokens w]
        (\<lambda>_ i.
           rbind (rd (poolWeights w) i) (\<lambda>cw.
           rbind (rd target i) (\<lambda>tw.
           rbind (getWeightChangeRatio cw tw) (\<lambda>changeRatio.
           if m < changeRatio
           then rbind (rd poolTokens i) (\<lambda>pt.
                  Inl (Mammon__WeightChangeRatioIsAboveMax pt changeRatio m))
           else Inr ()))))
        () = Inl (Panic PANIC_DIV)"
    using ne
    by (auto simp: checkWeightChangeRatio_def Let_def pool_getNormalizedWeights_def rbind_def
          usub_def umul_def split: sum.splits if_splits)
  from forM_Inl_source[OF loop] obtain k where k: "k < numPoolTokens w"
    and step: "rbind (rd (poolWeights w) k) (\<lambda>cw.
           rbind (rd target k) (\<lambda>tw.
           rbind (getWeightChangeRatio cw tw) (\<lambda>changeRatio.
           if m < changeRatio
           then rbind (rd poolTokens k) (\<lambda>pt.
                  Inl (Mammon__WeightChangeRatioIsAboveMax pt changeRatio m))
           else Inr ()))) = Inl (Panic PANIC_DIV)"
    by auto
  have "getWeightChangeRatio (poolWeights w ! k) (target ! k) \<noteq> Inl (Panic PANIC_DIV)"
    using pos k by (intro getWeightChangeRatio_no_div_panic) auto
  with step ne show False
    by (auto simp: rbind_def rd_def split: sum.splits if_splits)
qed

lemma ratio_bound_fits:
  assumes "startTime \<le> endTime" "endTime \<le> MAX_UINT32"
  shows "MAX_WEIGHT_CHANGE_RATIO * (endTime - startTime) \<le> MAX_UINT256"
proof -
  have "endTime - startTime \<le> 2 ^ 32" using assms by (simp add: MAX_UINT32_def)
  then have "MAX_WEIGHT_CHANGE_RATIO * (endTime - startTime) \<le> 10 ^ 15 * 2 ^ 32"
    unfolding MAX_WEIGHT_CHANGE_RATIO_def by (rule mult_le_mono2)
  also have "\<dots> \<le> MAX_UINT256" by (simp add: MAX_UINT256_def)
  finally show ?thesis .
qed

lemma updateWeightsGradually_at_check:
  assumes g: "sender = guardian w" "initialized w" "\<not> finalized w"
    and s: "startTime \<le> MAX_UINT32" "endTime \<le> MAX_UINT32"
           "max (blockTimestamp w) startTime + MINIMUM_WEIGHT_CHANGE_DURATION \<le> endTime"
    and r: "rateCheckInputs tokenWithWeight w = Inr (poolTokens, current, target, n)"
  shows "\<exists>targetWeights w2. poolWeights w2 = current \<and> numPoolTokens w2 = n \<and>
           updateWeightsGradually sender tokenWithWeight startTime endTime w =
             rbind (checkWeightChangeRatio w2 poolTokens target (max (blockTimestamp w) startTime) endTime)
               (\<lambda>_. rbind (pool_updateWeightsGradually (max (blockTimestamp w) startTime) endTime
                              poolTokens target w2)
                 (\<lambda>w3. Inr (emit (UpdateWeightsGradually (max (blockTimestamp w) startTime) endTime
                                     targetWeights) w3)))"
proof -
  from r obtain targetWeights w2 where
    p: "prepareWeightUpdate tokenWithWeight w = Inr (poolTokens, targetWeights, target, w2)"
    and c: "poolWeights w2 = current" "numPoolTokens w2 = n"
    unfolding rateCheckInputs_def
    by (auto simp: rbind_Inr_iff pool_getNormalizedWeights_def split: prod.splits)
  have a: "\<not> MAX_UINT32 < startTime" "\<not> MAX_UINT32 < endTime"
    "\<not> endTime < max (blockTimestamp w) startTime"
    "\<not> endTime - max (blockTimestamp w) startTime < MINIMUM_WEIGHT_CHANGE_DURATION"
    using s by linarith+
  have "updateWeightsGradually sender tokenWithWeight startTime endTime w
          = updateWeightsGraduallyBody tokenWithWeight (max (blockTimestamp w) startTime) endTime w"
    unfolding updateWeightsGradually_schedule[OF g, of tokenWithWeight startTime endTime]
    using a by (simp only: if_False)
  then show ?thesis using p c unfolding updateWeightsGraduallyBody_def by auto
qed

lemma updateWeightsGradually_above:
  assumes g: "sender = guardian w" "initialized w" "\<not> finalized w"
    and s: "startTime \<le> MAX_UINT32" "endTime \<le> MAX_UINT32"
           "max (blockTimestamp w) startTime + MINIMUM_WEIGHT_CHANGE_DURATION \<le> endTime"
    and r: "rateCheckInputs tokenWithWeight w = Inr (poolTokens, current, target, n)"
    and i: "i < n" and len: "n \<le> length current" "n \<le> length target" "n \<le> length poolTokens"
    and nz: "\<forall>j \<le> i. 0 < current ! j \<and> 0 < target ! j \<and> current ! j \<le> ONE \<and> target ! j \<le> ONE"
    and above: "MAX_WEIGHT_CHANGE_RATIO * (endTime - max (blockTimestamp w) startTime)
                  < ONE * max (current ! i) (target ! i) div min (current ! i) (target ! i)"
  shows "\<exists>k \<le> i.
           MAX_WEIGHT_CHANGE_RATIO * (endTime - max (blockTimestamp w) startTime)
             < ONE * max (current ! k) (target ! k) div min (current ! k) (target ! k)
           \<and> updateWeightsGradually sender tokenWithWeight startTime endTime w
               = Inl (Mammon__WeightChangeRatioIsAboveMax (poolTokens ! k)
                        (ONE * max (current ! k) (target ! k) div min (current ! k) (target ! k))
                        (MAX_WEIGHT_CHANGE_RATIO * (endTime - max (blockTimestamp w) startTime)))"
proof -
  let ?st = "max (blockTimestamp w) startTime"
  from updateWeightsGradually_at_check[OF g s r] obtain targetWeights w2 where
    c: "poolWeights w2 = current" "numPoolTokens w2 = n"
    and eq: "updateWeightsGradually sender tokenWithWeight startTime endTime w =
             rbind (checkWeightChangeRatio w2 poolTokens target ?st endTime)
               (\<lambda>_. rbind (pool_updateWeightsGradually ?st endTime poolTokens target w2)
                 (\<lambda>w3. Inr (emit (UpdateWeightsGradually ?st endTime targetWeights) w3)))"
    by blast
  have t: "?st \<le> endTime" using s(3) by linarith
  have f: "MAX_WEIGHT_CHANGE_RATIO * (endTime - ?st) \<le> MAX_UINT256"
    using ratio_bound_fits[OF t s(2)] .
  from checkWeightChangeRatio_above[of ?st endTime i w2 target poolTokens, OF t f]
    i len nz above c
  obtain k where "k \<le> i" "MAX_WEIGHT_CHANGE_RATIO * (endTime - ?st)
             < ONE * max (current ! k) (target ! k) div min (current ! k) (target ! k)"
    "checkWeightChangeRatio w2 poolTokens target ?st endTime
               = Inl (Mammon__WeightChangeRatioIsAboveMax (poolTokens ! k)
                        (ONE * max (current ! k) (target ! k) div min (current ! k) (target ! k))
                        (MAX_WEIGHT_CHANGE_RATIO * (endTime - ?st)))"
    by auto
  then show ?thesis using eq by auto
qed

lemma updateWeightsGradually_zero_weight:
  assumes g: "sender = guardian w" "initialized w" "\<not> finalized w"
    and s: "startTime \<le> MAX_UINT32" "endTime \<le> MAX_UINT32"
           "max (blockTimestamp w) startTime + MINIMUM_WEIGHT_CHANGE_DURATION \<le> endTime"
    and r: "rateCheckInputs tokenWithWeight w = Inr (poolTokens, current, target, n)"
    and i: "i < n" and len: "n \<le> length current" "n \<le> length target"
    and z: "current ! i = 0 \<or> target ! i = 0" "current ! i \<le> ONE" "target ! i \<le> ONE"
    and before: "\<forall>j < i. 0 < current ! j \<and> 0 < target ! j \<and> current ! j \<le> ONE \<and> target ! j \<le> ONE
                  \<and> ONE * max (current ! j) (target ! j) div min (current ! j) (target ! j)
                      \<le> MAX_WEIGHT_CHANGE_RATIO * (endTime - max (blockTimestamp w) startTime)"
  shows "updateWeightsGradually sender tokenWithWeight startTime endTime w = Inl (Panic PANIC_DIV)"
proof -
  let ?st = "max (blockTimestamp w) startTime"
  from updateWeightsGradually_at_check[OF g s r] obtain targetWeights w2 where
    c: "poolWeights w2 = current" "numPoolTokens w2 = n"
    and eq: "updateWeightsGradually sender tokenWithWeight startTime endTime w =
             rbind (checkWeightChangeRatio w2 poolTokens target ?st endTime)
               (\<lambda>_. rbind (pool_updateWeightsGradually ?st endTime poolTokens target w2)
                 (\<lambda>w3. Inr (emit (UpdateWeightsGradually ?st endTime targetWeights) w3)))"
    by blast
  have t: "?st \<le> endTime" using s(3) by linarith
  have f: "MAX_WEIGHT_CHANGE_RATIO * (endTime - ?st) \<le> MAX_UINT256"
    using ratio_bound_fits[OF t s(2)] .
  have "checkWeightChangeRatio w2 poolTokens target ?st endTime = Inl (Panic PANIC_DIV)"
    using checkWeightChangeRatio_zero[of ?st endTime i w2 target poolTokens, OF t f]
      i len z before c by auto
  then show ?thesis using eq by simp
qed

lemma pool_updateWeightsGradually_no_panic:
  "pool_updateWeightsGradually s e ts ws w \<noteq> Inl (Panic c)"
  by (simp add: pool_updateWeightsGradually_def)

lemma updateWeightsGradually_positive_no_div_panic:
  assumes g: "sender = guardian w" "initialized w" "\<not> finalized w"
    and s: "startTime \<le> MAX_UINT32" "endTime \<le> MAX_UINT32"
           "max (blockTimestamp w) startTime + MINIMUM_WEIGHT_CHANGE_DURATION \<le> endTime"
    and r: "rateCheckInputs tokenWithWeight w = Inr (poolTokens, current, target, n)"
    and pos: "\<forall>j < n. 0 < current ! j \<and> 0 < target ! j"
  shows "updateWeightsGradually sender tokenWithWeight startTime endTime w \<noteq> Inl (Panic PANIC_DIV)"
proof -
  let ?st = "max (blockTimestamp w) startTime"
  from updateWeightsGradually_at_check[OF g s r] obtain targetWeights w2 where
    c: "poolWeights w2 = current" "numPoolTokens w2 = n"
    and eq: "updateWeightsGradually sender tokenWithWeight startTime endTime w =
             rbind (checkWeightChangeRatio w2 poolTokens target ?st endTime)
               (\<lambda>_. rbind (pool_updateWeightsGradually ?st endTime poolTokens target w2)
                 (\<lambda>w3. Inr (emit (UpdateWeightsGradually ?st endTime targetWeights) w3)))"
    by blast
  have "checkWeightChangeRatio w2 poolTokens target ?st endTime \<noteq> Inl (Panic PANIC_DIV)"
    using checkWeightChangeRatio_no_div_panic[of w2 target poolTokens ?st endTime] pos c by simp
  then show ?thesis
    unfolding eq using pool_updateWeightsGradually_no_panic[of ?st endTime poolTokens target w2 PANIC_DIV]
    by (auto simp: rbind_def split: sum.splits)
qed

text \<open>
  C5 (as amended). A call of \<open>updateWeightsGradually\<close> that reaches the rate-limit check
  with some pool token \<open>i\<close> whose change ratio \<open>max(current, target) / min(current, target)\<close>
  exceeds \<open>MAX_WEIGHT_CHANGE_RATIO * (endTime - max(now, startTime))\<close> fails with
  \<open>WeightChangeRatioIsAboveMax\<close> for the first such token, provided every pool token up to
  \<open>i\<close> has a positive current and target weight. The call returns the error and no state:
  nothing it did before the check is applied.
\<close>

theorem rate_limit_rejection:
  assumes "sender = guardian w" and "initialized w" and "\<not> finalized w"
    and "startTime \<le> MAX_UINT32" and "endTime \<le> MAX_UINT32"
    and "max (blockTimestamp w) startTime + MINIMUM_WEIGHT_CHANGE_DURATION \<le> endTime"
    and "rateCheckInputs tokenWithWeight w = Inr (poolTokens, current, target, n)"
    and "i < n" and "n \<le> length current" and "n \<le> length target" and "n \<le> length poolTokens"
    and "\<forall>j \<le> i. 0 < current ! j \<and> 0 < target ! j \<and> current ! j \<le> ONE \<and> target ! j \<le> ONE"
    and "MAX_WEIGHT_CHANGE_RATIO * (endTime - max (blockTimestamp w) startTime)
           < ONE * max (current ! i) (target ! i) div min (current ! i) (target ! i)"
  shows "\<exists>k \<le> i.
           MAX_WEIGHT_CHANGE_RATIO * (endTime - max (blockTimestamp w) startTime)
             < ONE * max (current ! k) (target ! k) div min (current ! k) (target ! k)
           \<and> updateWeightsGradually sender tokenWithWeight startTime endTime w
               = Inl (Mammon__WeightChangeRatioIsAboveMax (poolTokens ! k)
                        (ONE * max (current ! k) (target ! k) div min (current ! k) (target ! k))
                        (MAX_WEIGHT_CHANGE_RATIO * (endTime - max (blockTimestamp w) startTime)))"
  using assms by (rule updateWeightsGradually_above)

text \<open>
  C10 (as amended). \<open>getWeightChangeRatio\<close> returns a ratio only when both weights are
  nonzero. A call of \<open>updateWeightsGradually\<close> that reaches the rate-limit check aborts
  with the division-by-zero panic when the first pool token that does not pass the check
  has a zero current or target weight, that is, when every pool token before it has positive
  weights and a ratio within the limit. When all current and target pool weights are
  positive the call never aborts with that panic.
\<close>

theorem zero_weight_panics:
  assumes "sender = guardian w" and "initialized w" and "\<not> finalized w"
    and "startTime \<le> MAX_UINT32" and "endTime \<le> MAX_UINT32"
    and "max (blockTimestamp w) startTime + MINIMUM_WEIGHT_CHANGE_DURATION \<le> endTime"
    and "rateCheckInputs tokenWithWeight w = Inr (poolTokens, current, target, n)"
  shows "(\<forall>c t r. getWeightChangeRatio c t = Inr r \<longrightarrow> 0 < c \<and> 0 < t)
    \<and> (i < n \<and> n \<le> length current \<and> n \<le> length target
        \<and> (current ! i = 0 \<or> target ! i = 0) \<and> current ! i \<le> ONE \<and> target ! i \<le> ONE
        \<and> (\<forall>j < i. 0 < current ! j \<and> 0 < target ! j \<and> current ! j \<le> ONE \<and> target ! j \<le> ONE
               \<and> ONE * max (current ! j) (target ! j) div min (current ! j) (target ! j)
                    \<le> MAX_WEIGHT_CHANGE_RATIO * (endTime - max (blockTimestamp w) startTime))
        \<longrightarrow> updateWeightsGradually sender tokenWithWeight startTime endTime w = Inl (Panic PANIC_DIV))
    \<and> ((\<forall>j < n. 0 < current ! j \<and> 0 < target ! j)
        \<longrightarrow> updateWeightsGradually sender tokenWithWeight startTime endTime w \<noteq> Inl (Panic PANIC_DIV))"
proof (intro conjI allI impI)
  fix c t r assume "getWeightChangeRatio c t = Inr r"
  then show "0 < c" "0 < t" using getWeightChangeRatio_Inr_pos by blast+
next
  assume "i < n \<and> n \<le> length current \<and> n \<le> length target
        \<and> (current ! i = 0 \<or> target ! i = 0) \<and> current ! i \<le> ONE \<and> target ! i \<le> ONE
        \<and> (\<forall>j < i. 0 < current ! j \<and> 0 < target ! j \<and> current ! j \<le> ONE \<and> target ! j \<le> ONE
               \<and> ONE * max (current ! j) (target ! j) div min (current ! j) (target ! j)
                    \<le> MAX_WEIGHT_CHANGE_RATIO * (endTime - max (blockTimestamp w) startTime))"
  then show "updateWeightsGradually sender tokenWithWeight startTime endTime w = Inl (Panic PANIC_DIV)"
    using updateWeightsGradually_zero_weight[OF assms, of i] by blast
next
  assume "\<forall>j < n. 0 < current ! j \<and> 0 < target ! j"
  then show "updateWeightsGradually sender tokenWithWeight startTime endTime w \<noteq> Inl (Panic PANIC_DIV)"
    using updateWeightsGradually_positive_no_div_panic[OF assms] by blast
qed

section \<open>Moving assets into and out of a yield wrapper\<close>





section \<open>The choice of prices for a deposit\<close>

lemma divergence_step:
  assumes "i < length oraclePrices" "i < length spotPrices"
    and "0 < min (oraclePrices ! i) (spotPrices ! i)"
    and "max (oraclePrices ! i) (spotPrices ! i) * ONE \<le> MAX_UINT256"
  shows "rbind (rd oraclePrices i) (\<lambda>op.
         rbind (rd spotPrices i) (\<lambda>sp.
         rbind (if sp < op then rbind (umul op ONE) (\<lambda>m. udiv m sp)
                else rbind (umul sp ONE) (\<lambda>m. udiv m op)) (\<lambda>ratio. g ratio)))
         = g (max (oraclePrices ! i) (spotPrices ! i) * ONE div min (oraclePrices ! i) (spotPrices ! i))"
proof (cases "spotPrices ! i < oraclePrices ! i")
  case True
  then have "max (oraclePrices ! i) (spotPrices ! i) = oraclePrices ! i"
            "min (oraclePrices ! i) (spotPrices ! i) = spotPrices ! i" by simp_all
  with assms True show ?thesis by (simp add: rd_def umul_def udiv_def)
next
  case False
  then have "max (oraclePrices ! i) (spotPrices ! i) = spotPrices ! i"
            "min (oraclePrices ! i) (spotPrices ! i) = oraclePrices ! i" by simp_all
  with assms False show ?thesis by (simp add: rd_def umul_def udiv_def)
qed

lemma checkDivergence_within:
  assumes "\<forall>j < numPoolTokens w. j \<noteq> numeraireAssetIndex w \<longrightarrow>
             j < length oraclePrices \<and> j < length spotPrices
             \<and> 0 < min (oraclePrices ! j) (spotPrices ! j)
             \<and> max (oraclePrices ! j) (spotPrices ! j) * ONE \<le> MAX_UINT256
             \<and> max (oraclePrices ! j) (spotPrices ! j) * ONE div min (oraclePrices ! j) (spotPrices ! j)
                  \<le> maxOracleSpotDivergence w"
  shows "checkDivergence w oraclePrices spotPrices = Inr ()"
  unfolding checkDivergence_def
proof (rule forM_all_pass)
  fix j assume "j \<in> set [0..<numPoolTokens w]"
  then have j: "j < numPoolTokens w" by simp
  show "(if j = numeraireAssetIndex w then Inr ()
         else rbind (rd oraclePrices j) (\<lambda>op.
              rbind (rd spotPrices j) (\<lambda>sp.
              rbind (if sp < op then rbind (umul op ONE) (\<lambda>m. udiv m sp)
                     else rbind (umul sp ONE) (\<lambda>m. udiv m op)) (\<lambda>ratio.
              if maxOracleSpotDivergence w < ratio
              then Inl (Mammon__OracleSpotPriceDivergenceExceedsMax j ratio (maxOracleSpotDivergence w))
              else Inr ())))) = Inr ()"
  proof (cases "j = numeraireAssetIndex w")
    case True then show ?thesis by simp
  next
    case False
    with assms j have a: "j < length oraclePrices" "j < length spotPrices"
      "0 < min (oraclePrices ! j) (spotPrices ! j)"
      "max (oraclePrices ! j) (spotPrices ! j) * ONE \<le> MAX_UINT256"
      and b: "max (oraclePrices ! j) (spotPrices ! j) * ONE div min (oraclePrices ! j) (spotPrices ! j)
                  \<le> maxOracleSpotDivergence w" by blast+
    show ?thesis using False b by (simp add: divergence_step[OF a])
  qed
qed

lemma checkDivergence_exceeds:
  assumes k: "k < numPoolTokens w" "k \<noteq> numeraireAssetIndex w"
    and wk: "k < length oraclePrices" "k < length spotPrices"
            "0 < min (oraclePrices ! k) (spotPrices ! k)"
            "max (oraclePrices ! k) (spotPrices ! k) * ONE \<le> MAX_UINT256"
    and above: "maxOracleSpotDivergence w
                  < max (oraclePrices ! k) (spotPrices ! k) * ONE div min (oraclePrices ! k) (spotPrices ! k)"
    and before: "\<forall>j < k. j \<noteq> numeraireAssetIndex w \<longrightarrow>
             j < length oraclePrices \<and> j < length spotPrices
             \<and> 0 < min (oraclePrices ! j) (spotPrices ! j)
             \<and> max (oraclePrices ! j) (spotPrices ! j) * ONE \<le> MAX_UINT256
             \<and> max (oraclePrices ! j) (spotPrices ! j) * ONE div min (oraclePrices ! j) (spotPrices ! j)
                  \<le> maxOracleSpotDivergence w"
  shows "checkDivergence w oraclePrices spotPrices
           = Inl (Mammon__OracleSpotPriceDivergenceExceedsMax k
                    (max (oraclePrices ! k) (spotPrices ! k) * ONE div min (oraclePrices ! k) (spotPrices ! k))
                    (maxOracleSpotDivergence w))"
  unfolding checkDivergence_def
proof (rule forM_first_failure[where k = k])
  show "0 \<le> k" by simp
  show "k < numPoolTokens w" by (rule k(1))
next
  fix j assume j: "0 \<le> j" "j < k"
  show "(if j = numeraireAssetIndex w then Inr ()
         else rbind (rd oraclePrices j) (\<lambda>op.
              rbind (rd spotPrices j) (\<lambda>sp.
              rbind (if sp < op then rbind (umul op ONE) (\<lambda>m. udiv m sp)
                     else rbind (umul sp ONE) (\<lambda>m. udiv m op)) (\<lambda>ratio.
              if maxOracleSpotDivergence w < ratio
              then Inl (Mammon__OracleSpotPriceDivergenceExceedsMax j ratio (maxOracleSpotDivergence w))
              else Inr ())))) = Inr ()"
  proof (cases "j = numeraireAssetIndex w")
    case True then show ?thesis by simp
  next
    case False
    with before j have a: "j < length oraclePrices" "j < length spotPrices"
      "0 < min (oraclePrices ! j) (spotPrices ! j)"
      "max (oraclePrices ! j) (spotPrices ! j) * ONE \<le> MAX_UINT256"
      and b: "max (oraclePrices ! j) (spotPrices ! j) * ONE div min (oraclePrices ! j) (spotPrices ! j)
                  \<le> maxOracleSpotDivergence w" by blast+
    show ?thesis using False b by (simp add: divergence_step[OF a])
  qed
next
  show "(if k = numeraireAssetIndex w then Inr ()
         else rbind (rd oraclePrices k) (\<lambda>op.
              rbind (rd spotPrices k) (\<lambda>sp.
              rbind (if sp < op then rbind (umul op ONE) (\<lambda>m. udiv m sp)
                     else rbind (umul sp ONE) (\<lambda>m. udiv m op)) (\<lambda>ratio.
              if maxOracleSpotDivergence w < ratio
              then Inl (Mammon__OracleSpotPriceDivergenceExceedsMax k ratio (maxOracleSpotDivergence w))
              else Inr ()))))
        = Inl (Mammon__OracleSpotPriceDivergenceExceedsMax k
                    (max (oraclePrices ! k) (spotPrices ! k) * ONE div min (oraclePrices ! k) (spotPrices ! k))
                    (maxOracleSpotDivergence w))"
    using k(2) above by (simp add: divergence_step[OF wk])
qed

lemma divergence_step_zero:
  assumes "i < length oraclePrices" "i < length spotPrices"
    and "min (oraclePrices ! i) (spotPrices ! i) = 0"
    and "max (oraclePrices ! i) (spotPrices ! i) * ONE \<le> MAX_UINT256"
  shows "rbind (rd oraclePrices i) (\<lambda>op.
         rbind (rd spotPrices i) (\<lambda>sp.
         rbind (if sp < op then rbind (umul op ONE) (\<lambda>m. udiv m sp)
                else rbind (umul sp ONE) (\<lambda>m. udiv m op)) (\<lambda>ratio. g ratio)))
         = Inl (Panic PANIC_DIV)"
proof (cases "spotPrices ! i < oraclePrices ! i")
  case True
  then have "max (oraclePrices ! i) (spotPrices ! i) = oraclePrices ! i"
            "min (oraclePrices ! i) (spotPrices ! i) = spotPrices ! i" by simp_all
  with assms True show ?thesis by (simp add: rd_def umul_def udiv_def)
next
  case False
  then have "max (oraclePrices ! i) (spotPrices ! i) = spotPrices ! i"
            "min (oraclePrices ! i) (spotPrices ! i) = oraclePrices ! i" by simp_all
  with assms False show ?thesis by (simp add: rd_def umul_def udiv_def)
qed

lemma checkDivergence_zero_price:
  assumes k: "k < numPoolTokens w" "k \<noteq> numeraireAssetIndex w"
    and wk: "k < length oraclePrices" "k < length spotPrices"
            "min (oraclePrices ! k) (spotPrices ! k) = 0"
            "max (oraclePrices ! k) (spotPrices ! k) * ONE \<le> MAX_UINT256"
    and before: "\<forall>j < k. j \<noteq> numeraireAssetIndex w \<longrightarrow>
             j < length oraclePrices \<and> j < length spotPrices
             \<and> 0 < min (oraclePrices ! j) (spotPrices ! j)
             \<and> max (oraclePrices ! j) (spotPrices ! j) * ONE \<le> MAX_UINT256
             \<and> max (oraclePrices ! j) (spotPrices ! j) * ONE div min (oraclePrices ! j) (spotPrices ! j)
                  \<le> maxOracleSpotDivergence w"
  shows "checkDivergence w oraclePrices spotPrices = Inl (Panic PANIC_DIV)"
  unfolding checkDivergence_def
proof (rule forM_first_failure[where k = k])
  show "0 \<le> k" by simp
  show "k < numPoolTokens w" by (rule k(1))
next
  fix j assume j: "0 \<le> j" "j < k"
  show "(if j = numeraireAssetIndex w then Inr ()
         else rbind (rd oraclePrices j) (\<lambda>op.
              rbind (rd spotPrices j) (\<lambda>sp.
              rbind (if sp < op then rbind (umul op ONE) (\<lambda>m. udiv m sp)
                     else rbind (umul sp ONE) (\<lambda>m. udiv m op)) (\<lambda>ratio.
              if maxOracleSpotDivergence w < ratio
              then Inl (Mammon__OracleSpotPriceDivergenceExceedsMax j ratio (maxOracleSpotDivergence w))
              else Inr ())))) = Inr ()"
  proof (cases "j = numeraireAssetIndex w")
    case True then show ?thesis by simp
  next
    case False
    with before j have a: "j < length oraclePrices" "j < length spotPrices"
      "0 < min (oraclePrices ! j) (spotPrices ! j)"
      "max (oraclePrices ! j) (spotPrices ! j) * ONE \<le> MAX_UINT256"
      and b: "max (oraclePrices ! j) (spotPrices ! j) * ONE div min (oraclePrices ! j) (spotPrices ! j)
                  \<le> maxOracleSpotDivergence w" by blast+
    show ?thesis using False b by (simp add: divergence_step[OF a])
  qed
next
  show "(if k = numeraireAssetIndex w then Inr ()
         else rbind (rd oraclePrices k) (\<lambda>op.
              rbind (rd spotPrices k) (\<lambda>sp.
              rbind (if sp < op then rbind (umul op ONE) (\<lambda>m. udiv m sp)
                     else rbind (umul sp ONE) (\<lambda>m. udiv m op)) (\<lambda>ratio.
              if maxOracleSpotDivergence w < ratio
              then Inl (Mammon__OracleSpotPriceDivergenceExceedsMax k ratio (maxOracleSpotDivergence w))
              else Inr ()))))
        = Inl (Panic PANIC_DIV)"
    using k(2) by (simp add: divergence_step_zero[OF wk])
qed

lemma getDeterminedPrices_unfold:
  assumes "getPoolHoldings w = Inr poolHoldings"
    and "getOraclePrices w = Inr (oraclePrices, updatedAt)"
    and "getSpotPrices w poolHoldings = Inr spotPrices"
    and "getUnderlyingBalances w = Inr underlyingBalances"
    and "getUnderlyingTotalBalances w (underlyingIndexes w) poolHoldings underlyingBalances
           = Inr underlyingTotalBalances"
    and "getValue w underlyingTotalBalances spotPrices = Inr vaultValue"
  shows "getDeterminedPrices w amounts =
     (if vaultValue < minReliableVaultValue w then
       rbind (checkOracleStatus w updatedAt) (\<lambda>_. Inr (oraclePrices, ORACLE))
     else
       rbind (checkDivergence w oraclePrices spotPrices) (\<lambda>_.
       rbind (getValue w amounts spotPrices) (\<lambda>depositValue.
       if depositValue < minSignificantDepositValue w then Inr (spotPrices, SPOT)
       else rbind (checkOracleStatus w updatedAt) (\<lambda>_. Inr (oraclePrices, ORACLE)))))"
  using assms by (simp add: getDeterminedPrices_def)

lemma getDeterminedPrices_decision:
  assumes r: "getPoolHoldings w = Inr poolHoldings"
    "getOraclePrices w = Inr (oraclePrices, updatedAt)"
    "getSpotPrices w poolHoldings = Inr spotPrices"
    "getUnderlyingBalances w = Inr underlyingBalances"
    "getUnderlyingTotalBalances w (underlyingIndexes w) poolHoldings underlyingBalances
           = Inr underlyingTotalBalances"
    "getValue w underlyingTotalBalances spotPrices = Inr vaultValue"
  shows "(vaultValue < minReliableVaultValue w \<longrightarrow>
            getDeterminedPrices w amounts
              = rbind (checkOracleStatus w updatedAt) (\<lambda>_. Inr (oraclePrices, ORACLE)))
    \<and> (minReliableVaultValue w \<le> vaultValue \<longrightarrow>
         (k < numPoolTokens w \<and> k \<noteq> numeraireAssetIndex w
          \<and> k < length oraclePrices \<and> k < length spotPrices
          \<and> 0 < min (oraclePrices ! k) (spotPrices ! k)
          \<and> max (oraclePrices ! k) (spotPrices ! k) * ONE \<le> MAX_UINT256
          \<and> maxOracleSpotDivergence w
               < max (oraclePrices ! k) (spotPrices ! k) * ONE div min (oraclePrices ! k) (spotPrices ! k)
          \<and> (\<forall>j < k. j \<noteq> numeraireAssetIndex w \<longrightarrow>
                j < length oraclePrices \<and> j < length spotPrices
                \<and> 0 < min (oraclePrices ! j) (spotPrices ! j)
                \<and> max (oraclePrices ! j) (spotPrices ! j) * ONE \<le> MAX_UINT256
                \<and> max (oraclePrices ! j) (spotPrices ! j) * ONE div min (oraclePrices ! j) (spotPrices ! j)
                     \<le> maxOracleSpotDivergence w)
          \<longrightarrow> getDeterminedPrices w amounts
                = Inl (Mammon__OracleSpotPriceDivergenceExceedsMax k
                        (max (oraclePrices ! k) (spotPrices ! k) * ONE div min (oraclePrices ! k) (spotPrices ! k))
                        (maxOracleSpotDivergence w)))
       \<and> (z < numPoolTokens w \<and> z \<noteq> numeraireAssetIndex w
          \<and> z < length oraclePrices \<and> z < length spotPrices
          \<and> min (oraclePrices ! z) (spotPrices ! z) = 0
          \<and> max (oraclePrices ! z) (spotPrices ! z) * ONE \<le> MAX_UINT256
          \<and> (\<forall>j < z. j \<noteq> numeraireAssetIndex w \<longrightarrow>
                j < length oraclePrices \<and> j < length spotPrices
                \<and> 0 < min (oraclePrices ! j) (spotPrices ! j)
                \<and> max (oraclePrices ! j) (spotPrices ! j) * ONE \<le> MAX_UINT256
                \<and> max (oraclePrices ! j) (spotPrices ! j) * ONE div min (oraclePrices ! j) (spotPrices ! j)
                     \<le> maxOracleSpotDivergence w)
          \<longrightarrow> getDeterminedPrices w amounts = Inl (Panic PANIC_DIV))
       \<and> ((\<forall>j < numPoolTokens w. j \<noteq> numeraireAssetIndex w \<longrightarrow>
                j < length oraclePrices \<and> j < length spotPrices
                \<and> 0 < min (oraclePrices ! j) (spotPrices ! j)
                \<and> max (oraclePrices ! j) (spotPrices ! j) * ONE \<le> MAX_UINT256
                \<and> max (oraclePrices ! j) (spotPrices ! j) * ONE div min (oraclePrices ! j) (spotPrices ! j)
                     \<le> maxOracleSpotDivergence w)
          \<and> getValue w amounts spotPrices = Inr depositValue
          \<longrightarrow> (depositValue < minSignificantDepositValue w \<longrightarrow>
                  getDeterminedPrices w amounts = Inr (spotPrices, SPOT))
              \<and> (minSignificantDepositValue w \<le> depositValue \<longrightarrow>
                  getDeterminedPrices w amounts
                    = rbind (checkOracleStatus w updatedAt) (\<lambda>_. Inr (oraclePrices, ORACLE)))))"
proof (intro conjI impI)
  assume "vaultValue < minReliableVaultValue w"
  then show "getDeterminedPrices w amounts
              = rbind (checkOracleStatus w updatedAt) (\<lambda>_. Inr (oraclePrices, ORACLE))"
    unfolding getDeterminedPrices_unfold[OF r] by simp
next
  assume v: "minReliableVaultValue w \<le> vaultValue"
    and h: "k < numPoolTokens w \<and> k \<noteq> numeraireAssetIndex w
          \<and> k < length oraclePrices \<and> k < length spotPrices
          \<and> 0 < min (oraclePrices ! k) (spotPrices ! k)
          \<and> max (oraclePrices ! k) (spotPrices ! k) * ONE \<le> MAX_UINT256
          \<and> maxOracleSpotDivergence w
               < max (oraclePrices ! k) (spotPrices ! k) * ONE div min (oraclePrices ! k) (spotPrices ! k)
          \<and> (\<forall>j < k. j \<noteq> numeraireAssetIndex w \<longrightarrow>
                j < length oraclePrices \<and> j < length spotPrices
                \<and> 0 < min (oraclePrices ! j) (spotPrices ! j)
                \<and> max (oraclePrices ! j) (spotPrices ! j) * ONE \<le> MAX_UINT256
                \<and> max (oraclePrices ! j) (spotPrices ! j) * ONE div min (oraclePrices ! j) (spotPrices ! j)
                     \<le> maxOracleSpotDivergence w)"
  have "checkDivergence w oraclePrices spotPrices
           = Inl (Mammon__OracleSpotPriceDivergenceExceedsMax k
                    (max (oraclePrices ! k) (spotPrices ! k) * ONE div min (oraclePrices ! k) (spotPrices ! k))
                    (maxOracleSpotDivergence w))"
    by (rule checkDivergence_exceeds) (use h in blast)+
  then show "getDeterminedPrices w amounts
                = Inl (Mammon__OracleSpotPriceDivergenceExceedsMax k
                        (max (oraclePrices ! k) (spotPrices ! k) * ONE div min (oraclePrices ! k) (spotPrices ! k))
                        (maxOracleSpotDivergence w))"
    unfolding getDeterminedPrices_unfold[OF r] using v by simp
next
  assume v: "minReliableVaultValue w \<le> vaultValue"
    and h: "z < numPoolTokens w \<and> z \<noteq> numeraireAssetIndex w
          \<and> z < length oraclePrices \<and> z < length spotPrices
          \<and> min (oraclePrices ! z) (spotPrices ! z) = 0
          \<and> max (oraclePrices ! z) (spotPrices ! z) * ONE \<le> MAX_UINT256
          \<and> (\<forall>j < z. j \<noteq> numeraireAssetIndex w \<longrightarrow>
                j < length oraclePrices \<and> j < length spotPrices
                \<and> 0 < min (oraclePrices ! j) (spotPrices ! j)
                \<and> max (oraclePrices ! j) (spotPrices ! j) * ONE \<le> MAX_UINT256
                \<and> max (oraclePrices ! j) (spotPrices ! j) * ONE div min (oraclePrices ! j) (spotPrices ! j)
                     \<le> maxOracleSpotDivergence w)"
  have "checkDivergence w oraclePrices spotPrices = Inl (Panic PANIC_DIV)"
    by (rule checkDivergence_zero_price) (use h in blast)+
  then show "getDeterminedPrices w amounts = Inl (Panic PANIC_DIV)"
    unfolding getDeterminedPrices_unfold[OF r] using v by simp
next
  assume v: "minReliableVaultValue w \<le> vaultValue"
    and h: "(\<forall>j < numPoolTokens w. j \<noteq> numeraireAssetIndex w \<longrightarrow>
                j < length oraclePrices \<and> j < length spotPrices
                \<and> 0 < min (oraclePrices ! j) (spotPrices ! j)
                \<and> max (oraclePrices ! j) (spotPrices ! j) * ONE \<le> MAX_UINT256
                \<and> max (oraclePrices ! j) (spotPrices ! j) * ONE div min (oraclePrices ! j) (spotPrices ! j)
                     \<le> maxOracleSpotDivergence w)
          \<and> getValue w amounts spotPrices = Inr depositValue"
  have c: "checkDivergence w oraclePrices spotPrices = Inr ()"
    by (rule checkDivergence_within) (use h in blast)
  show "getDeterminedPrices w amounts = Inr (spotPrices, SPOT)"
    if "depositValue < minSignificantDepositValue w"
    unfolding getDeterminedPrices_unfold[OF r] using v h c that by simp
  show "getDeterminedPrices w amounts
          = rbind (checkOracleStatus w updatedAt) (\<lambda>_. Inr (oraclePrices, ORACLE))"
    if "minSignificantDepositValue w \<le> depositValue"
    unfolding getDeterminedPrices_unfold[OF r] using v h c that by simp
qed

text \<open>
  C2 (as amended). Once the views it reads have returned, \<open>getDeterminedPrices\<close> decides as
  follows. When the value of the vault is below \<open>minReliableVaultValue\<close> it returns the
  oracle prices after \<open>checkOracleStatus\<close>, whatever the spot prices are. Otherwise it goes
  through the pool slots other than the numeraire in order and computes the ratio
  \<open>max(oracle, spot) * ONE / min(oracle, spot)\<close>: it fails with
  \<open>OracleSpotPriceDivergenceExceedsMax\<close> at the first slot whose ratio exceeds
  \<open>maxOracleSpotDivergence\<close>, provided the smaller price of that slot and of every slot
  before it is not zero, and it aborts with the division-by-zero panic at the first slot
  whose smaller price is zero, the slots before it being within the limit. When every ratio
  is within the limit it returns the spot prices, without \<open>checkOracleStatus\<close>, if the
  deposit valued at spot prices is below \<open>minSignificantDepositValue\<close>, and the oracle
  prices after \<open>checkOracleStatus\<close> if not.
\<close>

theorem determined_prices_decision:
  assumes r: "getPoolHoldings w = Inr poolHoldings"
    "getOraclePrices w = Inr (oraclePrices, updatedAt)"
    "getSpotPrices w poolHoldings = Inr spotPrices"
    "getUnderlyingBalances w = Inr underlyingBalances"
    "getUnderlyingTotalBalances w (underlyingIndexes w) poolHoldings underlyingBalances
           = Inr underlyingTotalBalances"
    "getValue w underlyingTotalBalances spotPrices = Inr vaultValue"
  shows "(vaultValue < minReliableVaultValue w \<longrightarrow>
            getDeterminedPrices w amounts
              = rbind (checkOracleStatus w updatedAt) (\<lambda>_. Inr (oraclePrices, ORACLE)))
    \<and> (minReliableVaultValue w \<le> vaultValue \<longrightarrow>
         (k < numPoolTokens w \<and> k \<noteq> numeraireAssetIndex w
          \<and> k < length oraclePrices \<and> k < length spotPrices
          \<and> 0 < min (oraclePrices ! k) (spotPrices ! k)
          \<and> max (oraclePrices ! k) (spotPrices ! k) * ONE \<le> MAX_UINT256
          \<and> maxOracleSpotDivergence w
               < max (oraclePrices ! k) (spotPrices ! k) * ONE div min (oraclePrices ! k) (spotPrices ! k)
          \<and> (\<forall>j < k. j \<noteq> numeraireAssetIndex w \<longrightarrow>
                j < length oraclePrices \<and> j < length spotPrices
                \<and> 0 < min (oraclePrices ! j) (spotPrices ! j)
                \<and> max (oraclePrices ! j) (spotPrices ! j) * ONE \<le> MAX_UINT256
                \<and> max (oraclePrices ! j) (spotPrices ! j) * ONE div min (oraclePrices ! j) (spotPrices ! j)
                     \<le> maxOracleSpotDivergence w)
          \<longrightarrow> getDeterminedPrices w amounts
                = Inl (Mammon__OracleSpotPriceDivergenceExceedsMax k
                        (max (oraclePrices ! k) (spotPrices ! k) * ONE div min (oraclePrices ! k) (spotPrices ! k))
                        (maxOracleSpotDivergence w)))
       \<and> (z < numPoolTokens w \<and> z \<noteq> numeraireAssetIndex w
          \<and> z < length oraclePrices \<and> z < length spotPrices
          \<and> min (oraclePrices ! z) (spotPrices ! z) = 0
          \<and> max (oraclePrices ! z) (spotPrices ! z) * ONE \<le> MAX_UINT256
          \<and> (\<forall>j < z. j \<noteq> numeraireAssetIndex w \<longrightarrow>
                j < length oraclePrices \<and> j < length spotPrices
                \<and> 0 < min (oraclePrices ! j) (spotPrices ! j)
                \<and> max (oraclePrices ! j) (spotPrices ! j) * ONE \<le> MAX_UINT256
                \<and> max (oraclePrices ! j) (spotPrices ! j) * ONE div min (oraclePrices ! j) (spotPrices ! j)
                     \<le> maxOracleSpotDivergence w)
          \<longrightarrow> getDeterminedPrices w amounts = Inl (Panic PANIC_DIV))
       \<and> ((\<forall>j < numPoolTokens w. j \<noteq> numeraireAssetIndex w \<longrightarrow>
                j < length oraclePrices \<and> j < length spotPrices
                \<and> 0 < min (oraclePrices ! j) (spotPrices ! j)
                \<and> max (oraclePrices ! j) (spotPrices ! j) * ONE \<le> MAX_UINT256
                \<and> max (oraclePrices ! j) (spotPrices ! j) * ONE div min (oraclePrices ! j) (spotPrices ! j)
                     \<le> maxOracleSpotDivergence w)
          \<and> getValue w amounts spotPrices = Inr depositValue
          \<longrightarrow> (depositValue < minSignificantDepositValue w \<longrightarrow>
                  getDeterminedPrices w amounts = Inr (spotPrices, SPOT))
              \<and> (minSignificantDepositValue w \<le> depositValue \<longrightarrow>
                  getDeterminedPrices w amounts
                    = rbind (checkOracleStatus w updatedAt) (\<lambda>_. Inr (oraclePrices, ORACLE)))))"
  using assms by (rule getDeterminedPrices_decision)

section \<open>The fee index and the guaranteed fee\<close>

lemma getFeeIndex_plain:
  "getFeeIndex w False
     = Inr (if lastFeeCheckpoint w < blockTimestamp w then blockTimestamp w - lastFeeCheckpoint w else 0)"
  by (simp add: getFeeIndex_def)

lemma getFeeIndex_guaranteed:
  assumes "createdAt w + minFeeDuration w \<le> MAX_UINT256"
    and "(if lastFeeCheckpoint w < blockTimestamp w then blockTimestamp w - lastFeeCheckpoint w else 0)
         + (if blockTimestamp w < createdAt w + minFeeDuration w
            then createdAt w + minFeeDuration w - blockTimestamp w else 0) \<le> MAX_UINT256"
  shows "getFeeIndex w True
     = Inr ((if lastFeeCheckpoint w < blockTimestamp w then blockTimestamp w - lastFeeCheckpoint w else 0)
            + (if blockTimestamp w < createdAt w + minFeeDuration w
               then createdAt w + minFeeDuration w - blockTimestamp w else 0))"
  using assms by (auto simp: getFeeIndex_def uadd_def Let_def)

lemma finalize_locks_guaranteed_fee:
  assumes "sender = owner w" "initialized w" "\<not> finalized w"
  shows "finalize sender w =
           rbind (lockGuardianFees True (w\<lparr>finalized := True\<rparr>)) (\<lambda>w1.
           rbind (returnFunds (setSwapEnabled False w1)) (\<lambda>(amounts, w2).
           Inr (emit (Finalized (owner w2) amounts) w2)))"
  using assms by (simp add: finalize_def onlyOwner_def whenInitialized_def whenNotFinalized_def)

lemma setGuardian_locks_elapsed_fee:
  assumes "sender = owner w" "newGuardian \<noteq> 0" "newGuardian \<noteq> owner w" "initialized w" "\<not> finalized w"
  shows "setGuardian sender newGuardian w =
           rbind (lockGuardianFees False w) (\<lambda>w1. Inr (installGuardian newGuardian w1))"
  using assms by (simp add: setGuardian_def onlyOwner_def checkGuardianAddress_def)

lemma claimGuardianFees_locks_elapsed_fee:
  assumes "sender = guardian w" "initialized w" "\<not> finalized w"
  shows "claimGuardianFees sender w =
           rbind (lockGuardianFees False w) (distributeGuardianFees sender)"
  using assms by (simp add: claimGuardianFees_def whenInitialized_def whenNotFinalized_def)

text \<open>
  C4 (as amended). \<open>getFeeIndex\<close> returns \<open>now - lastFeeCheckpoint\<close> when that is positive
  and 0 otherwise; with \<open>lockGuaranteedFee\<close> set it adds \<open>createdAt + minFeeDuration - now\<close>
  when that point is still in the future. \<open>finalize\<close> locks the fees with the flag set;
  \<open>setGuardian\<close> and \<open>claimGuardianFees\<close> (called by the guardian) lock them with the flag
  cleared. With \<open>minFeeDuration = 1000\<close>, at \<open>createdAt + 500\<close> and with the checkpoint at
  \<open>createdAt\<close>, the fee index is 1000 with the flag set and 500 with the flag cleared.
\<close>

theorem fee_index_and_guaranteed_fee:
  "getFeeIndex w False
     = Inr (if lastFeeCheckpoint w < blockTimestamp w then blockTimestamp w - lastFeeCheckpoint w else 0)
   \<and> (createdAt w + minFeeDuration w \<le> MAX_UINT256
        \<and> (if lastFeeCheckpoint w < blockTimestamp w then blockTimestamp w - lastFeeCheckpoint w else 0)
           + (if blockTimestamp w < createdAt w + minFeeDuration w
              then createdAt w + minFeeDuration w - blockTimestamp w else 0) \<le> MAX_UINT256
      \<longrightarrow> getFeeIndex w True
            = Inr ((if lastFeeCheckpoint w < blockTimestamp w
                    then blockTimestamp w - lastFeeCheckpoint w else 0)
                   + (if blockTimestamp w < createdAt w + minFeeDuration w
                      then createdAt w + minFeeDuration w - blockTimestamp w else 0)))
   \<and> (minFeeDuration w = 1000 \<and> blockTimestamp w = createdAt w + 500
        \<and> lastFeeCheckpoint w = createdAt w \<and> createdAt w + 1000 \<le> MAX_UINT256
      \<longrightarrow> getFeeIndex w True = Inr 1000 \<and> getFeeIndex w False = Inr 500)
   \<and> (sender = owner w \<and> initialized w \<and> \<not> finalized w
      \<longrightarrow> finalize sender w =
            rbind (lockGuardianFees True (w\<lparr>finalized := True\<rparr>)) (\<lambda>w1.
            rbind (returnFunds (setSwapEnabled False w1)) (\<lambda>(amounts, w2).
            Inr (emit (Finalized (owner w2) amounts) w2))))
   \<and> (sender = owner w \<and> newGuardian \<noteq> 0 \<and> newGuardian \<noteq> owner w
        \<and> initialized w \<and> \<not> finalized w
      \<longrightarrow> setGuardian sender newGuardian w =
            rbind (lockGuardianFees False w) (\<lambda>w1. Inr (installGuardian newGuardian w1)))
   \<and> (claimant = guardian w \<and> initialized w \<and> \<not> finalized w
      \<longrightarrow> claimGuardianFees claimant w =
            rbind (lockGuardianFees False w) (distributeGuardianFees claimant))"
proof (intro conjI impI)
  show "getFeeIndex w False
     = Inr (if lastFeeCheckpoint w < blockTimestamp w then blockTimestamp w - lastFeeCheckpoint w else 0)"
    by (rule getFeeIndex_plain)
next
  assume "createdAt w + minFeeDuration w \<le> MAX_UINT256
        \<and> (if lastFeeCheckpoint w < blockTimestamp w then blockTimestamp w - lastFeeCheckpoint w else 0)
           + (if blockTimestamp w < createdAt w + minFeeDuration w
              then createdAt w + minFeeDuration w - blockTimestamp w else 0) \<le> MAX_UINT256"
  then show "getFeeIndex w True
            = Inr ((if lastFeeCheckpoint w < blockTimestamp w
                    then blockTimestamp w - lastFeeCheckpoint w else 0)
                   + (if blockTimestamp w < createdAt w + minFeeDuration w
                      then createdAt w + minFeeDuration w - blockTimestamp w else 0))"
    using getFeeIndex_guaranteed[of w] by blast
next
  assume a: "minFeeDuration w = 1000 \<and> blockTimestamp w = createdAt w + 500
        \<and> lastFeeCheckpoint w = createdAt w \<and> createdAt w + 1000 \<le> MAX_UINT256"
  then show "getFeeIndex w True = Inr 1000"
    using getFeeIndex_guaranteed[of w] by (simp add: MAX_UINT256_def)
  from a show "getFeeIndex w False = Inr 500"
    by (simp add: getFeeIndex_plain)
next
  assume "sender = owner w \<and> initialized w \<and> \<not> finalized w"
  then show "finalize sender w =
            rbind (lockGuardianFees True (w\<lparr>finalized := True\<rparr>)) (\<lambda>w1.
            rbind (returnFunds (setSwapEnabled False w1)) (\<lambda>(amounts, w2).
            Inr (emit (Finalized (owner w2) amounts) w2)))"
    using finalize_locks_guaranteed_fee[of sender w] by blast
next
  assume "sender = owner w \<and> newGuardian \<noteq> 0 \<and> newGuardian \<noteq> owner w
        \<and> initialized w \<and> \<not> finalized w"
  then show "setGuardian sender newGuardian w =
            rbind (lockGuardianFees False w) (\<lambda>w1. Inr (installGuardian newGuardian w1))"
    using setGuardian_locks_elapsed_fee[of sender w newGuardian] by blast
next
  assume "claimant = guardian w \<and> initialized w \<and> \<not> finalized w"
  then show "claimGuardianFees claimant w =
            rbind (lockGuardianFees False w) (distributeGuardianFees claimant)"
    using claimGuardianFees_locks_elapsed_fee[of claimant w] by blast
qed

theorem fee_index_and_guaranteed_fee_witness:
  "getFeeIndex feeVault True = Inr 1000 \<and> getFeeIndex feeVault False = Inr 500
   \<and> finalize 1 feeVault =
        rbind (lockGuardianFees True (feeVault\<lparr>finalized := True\<rparr>)) (\<lambda>w1.
        rbind (returnFunds (setSwapEnabled False w1)) (\<lambda>(amounts, w2).
        Inr (emit (Finalized (owner w2) amounts) w2)))
   \<and> setGuardian 1 3 feeVault =
        rbind (lockGuardianFees False feeVault) (\<lambda>w1. Inr (installGuardian 3 w1))
   \<and> claimGuardianFees 2 feeVault =
        rbind (lockGuardianFees False feeVault) (distributeGuardianFees 2)"
proof -
  have f: "minFeeDuration feeVault = 1000" "blockTimestamp feeVault = createdAt feeVault + 500"
    "lastFeeCheckpoint feeVault = createdAt feeVault" "createdAt feeVault + 1000 \<le> MAX_UINT256"
    "owner feeVault = 1" "guardian feeVault = 2" "initialized feeVault" "\<not> finalized feeVault"
    by (simp_all add: feeVault_def exampleVault_def MAX_UINT256_def)
  show ?thesis
    using fee_index_and_guaranteed_fee[where w = feeVault and sender = 1 and newGuardian = 3
                                         and claimant = 2]
    by (simp add: f)
qed

text \<open>
  The claim C4 as stated fails: on a vault that charges the maximal fee on a pool holding
  \<open>10 ^ 18\<close> of token 0, 500 seconds after its creation and with \<open>minFeeDuration = 1000\<close>,
  \<open>finalize\<close> credits the guardian with the fee of 1000 seconds, but a change of guardian
  credits the outgoing guardian with the fee of the 500 seconds elapsed only.
\<close>

theorem guardian_change_not_guaranteed_counterexample:
  "getFeeIndex feeVault True = Inr 1000
   \<and> rbind (finalize 1 feeVault) (getGuardiansFee 2 0) = Inr (10 ^ 18 * 1000 * MAX_MANAGEMENT_FEE div ONE)
   \<and> rbind (setGuardian 1 3 feeVault) (getGuardiansFee 2 0) = Inr (10 ^ 18 * 500 * MAX_MANAGEMENT_FEE div ONE)
   \<and> 10 ^ 18 * 500 * MAX_MANAGEMENT_FEE div ONE < 10 ^ 18 * 1000 * MAX_MANAGEMENT_FEE div ONE"
  by (simp add: eval_simps MAX_MANAGEMENT_FEE_def feeVault_def exampleVault_def)

section \<open>Claiming guardian fees\<close>

lemma config_fields:
  assumes "config u = config w"
  shows "blockTimestamp u = blockTimestamp w" "vaultAddress u = vaultAddress w"
    "bVaultAddress u = bVaultAddress w" "owner u = owner w"
    "numPoolTokens u = numPoolTokens w" "numYieldTokens u = numYieldTokens w"
    "numeraireAssetIndex u = numeraireAssetIndex w" "managementFee u = managementFee w"
    "yieldTokens u = yieldTokens w" "underlyingIndexes u = underlyingIndexes w"
    "isWithdrawable u = isWithdrawable w" "initialized u = initialized w"
    "finalized u = finalized w" "oraclesEnabled u = oraclesEnabled w" "guardian u = guardian w"
    "bptAddress u = bptAddress w" "bptBalance u = bptBalance w"
    "poolTokenAddrs u = poolTokenAddrs w" "poolSwapFee u = poolSwapFee w" "oracles u = oracles w"
    "oracleUnits u = oracleUnits w" "maxOracleDelay u = maxOracleDelay w"
    "minYieldActionThreshold u = minYieldActionThreshold w" "numTokens u = numTokens w"
  using assms by (simp_all add: config_def numTokens_def)

lemma distribute_loop:
  assumes loop: "forM [0..<numTokens w1]
                  (\<lambda>w2 i.
                     rbind (rd fees i) (\<lambda>fee.
                     rbind (rd (guardiansFeeTotal w2) i) (\<lambda>total.
                     rbind (usub total fee) (\<lambda>total'.
                     rbind (wr (guardiansFee w2 sender) i 0) (\<lambda>row'.
                     safeTransfer i (vaultAddress w2) sender fee
                       (w2\<lparr>guardiansFeeTotal := (guardiansFeeTotal w2)[i := total'],
                           guardiansFee := (guardiansFee w2)(sender := row')\<rparr>))))))
                  w1 = Inr w3"
    and fees: "fees = guardiansFee w1 sender"
    and nv: "sender \<noteq> vaultAddress w1"
  shows "config w3 = config w1
    \<and> length (guardiansFee w3 sender) = length fees
    \<and> length (guardiansFeeTotal w3) = length (guardiansFeeTotal w1)
    \<and> (\<forall>a. a \<noteq> sender \<longrightarrow> guardiansFee w3 a = guardiansFee w1 a)
    \<and> (\<forall>i < numTokens w1.
          i < length fees \<and> i < length (guardiansFeeTotal w1)
          \<and> guardiansFee w3 sender ! i = 0
          \<and> fees ! i \<le> guardiansFeeTotal w1 ! i
          \<and> guardiansFeeTotal w3 ! i = guardiansFeeTotal w1 ! i - fees ! i
          \<and> fees ! i \<le> erc20Balance w1 i (vaultAddress w1)
          \<and> erc20Balance w3 i sender = erc20Balance w1 i sender + fees ! i
          \<and> erc20Balance w3 i (vaultAddress w1) = erc20Balance w1 i (vaultAddress w1) - fees ! i)
    \<and> (\<forall>i \<ge> numTokens w1.
          guardiansFee w3 sender ! i = fees ! i
          \<and> guardiansFeeTotal w3 ! i = guardiansFeeTotal w1 ! i
          \<and> erc20Balance w3 i = erc20Balance w1 i)"
proof -
  let ?P = "\<lambda>k u. config u = config w1
    \<and> length (guardiansFee u sender) = length fees
    \<and> length (guardiansFeeTotal u) = length (guardiansFeeTotal w1)
    \<and> (\<forall>a. a \<noteq> sender \<longrightarrow> guardiansFee u a = guardiansFee w1 a)
    \<and> (\<forall>i < k.
          i < length fees \<and> i < length (guardiansFeeTotal w1)
          \<and> guardiansFee u sender ! i = 0
          \<and> fees ! i \<le> guardiansFeeTotal w1 ! i
          \<and> guardiansFeeTotal u ! i = guardiansFeeTotal w1 ! i - fees ! i
          \<and> fees ! i \<le> erc20Balance w1 i (vaultAddress w1)
          \<and> erc20Balance u i sender = erc20Balance w1 i sender + fees ! i
          \<and> erc20Balance u i (vaultAddress w1) = erc20Balance w1 i (vaultAddress w1) - fees ! i)
    \<and> (\<forall>i \<ge> k.
          guardiansFee u sender ! i = fees ! i
          \<and> guardiansFeeTotal u ! i = guardiansFeeTotal w1 ! i
          \<and> erc20Balance u i = erc20Balance w1 i)"
  have "?P (numTokens w1) w3"
  proof (rule forM_upt_inv[OF loop, where P = ?P])
    show "0 \<le> numTokens w1" by simp
    show "?P 0 w1" using fees by simp
  next
    fix i u v
    assume i: "0 \<le> i" "i < numTokens w1" and P: "?P i u"
      and step: "rbind (rd fees i) (\<lambda>fee.
                     rbind (rd (guardiansFeeTotal u) i) (\<lambda>total.
                     rbind (usub total fee) (\<lambda>total'.
                     rbind (wr (guardiansFee u sender) i 0) (\<lambda>row'.
                     safeTransfer i (vaultAddress u) sender fee
                       (u\<lparr>guardiansFeeTotal := (guardiansFeeTotal u)[i := total'],
                           guardiansFee := (guardiansFee u)(sender := row')\<rparr>))))) = Inr v"
    have va: "vaultAddress u = vaultAddress w1" using P config_fields(2) by blast
    from step have a: "i < length fees" "i < length (guardiansFeeTotal u)"
      "fees ! i \<le> guardiansFeeTotal u ! i" "i < length (guardiansFee u sender)"
      and t: "safeTransfer i (vaultAddress w1) sender (fees ! i)
               (u\<lparr>guardiansFeeTotal := (guardiansFeeTotal u)[i := guardiansFeeTotal u ! i - fees ! i],
                   guardiansFee := (guardiansFee u)(sender := (guardiansFee u sender)[i := 0])\<rparr>) = Inr v"
      by (auto simp: Inr_iffs va)
    from P have cur: "guardiansFee u sender ! i = fees ! i"
      "guardiansFeeTotal u ! i = guardiansFeeTotal w1 ! i" "erc20Balance u i = erc20Balance w1 i"
      by auto
    from t have b: "fees ! i \<le> erc20Balance u i (vaultAddress w1)"
      and v: "v = u\<lparr>guardiansFeeTotal := (guardiansFeeTotal u)[i := guardiansFeeTotal u ! i - fees ! i],
                   guardiansFee := (guardiansFee u)(sender := (guardiansFee u sender)[i := 0]),
                   erc20Balance := (erc20Balance u)(i := ((erc20Balance u i)
                       (vaultAddress w1 := erc20Balance u i (vaultAddress w1) - fees ! i))
                       (sender := ((erc20Balance u i)
                       (vaultAddress w1 := erc20Balance u i (vaultAddress w1) - fees ! i)) sender + fees ! i))\<rparr>"
      by (auto simp: safeTransfer_def Let_def split: if_splits)
    have c: "config v = config w1" using P by (simp add: v config_def)
    show "?P (Suc i) v"
    proof (intro conjI allI impI)
      show "config v = config w1" by (rule c)
      show "length (guardiansFee v sender) = length fees" using P by (simp add: v)
      show "length (guardiansFeeTotal v) = length (guardiansFeeTotal w1)" using P by (simp add: v)
    next
      fix a assume "a \<noteq> sender"
      then show "guardiansFee v a = guardiansFee w1 a" using P by (simp add: v)
    next
      fix j assume j: "j < Suc i"
      show "j < length fees" using j a P by (cases "j = i") auto
      show "j < length (guardiansFeeTotal w1)" using j a P by (cases "j = i") auto
      show "guardiansFee v sender ! j = 0" using j a P by (cases "j = i") (auto simp: v)
      show "fees ! j \<le> guardiansFeeTotal w1 ! j" using j a P cur by (cases "j = i") auto
      show "guardiansFeeTotal v ! j = guardiansFeeTotal w1 ! j - fees ! j"
        using j a P cur by (cases "j = i") (auto simp: v)
      show "fees ! j \<le> erc20Balance w1 j (vaultAddress w1)"
        using j b P cur by (cases "j = i") auto
      show "erc20Balance v j sender = erc20Balance w1 j sender + fees ! j"
        using j P cur nv by (cases "j = i") (auto simp: v)
      show "erc20Balance v j (vaultAddress w1) = erc20Balance w1 j (vaultAddress w1) - fees ! j"
        using j P cur nv by (cases "j = i") (auto simp: v)
    next
      fix j assume j: "Suc i \<le> j"
      then have ne: "j \<noteq> i" "i \<le> j" by simp_all
      show "guardiansFee v sender ! j = fees ! j" using ne P by (simp add: v)
      show "guardiansFeeTotal v ! j = guardiansFeeTotal w1 ! j" using ne P by (simp add: v)
      show "erc20Balance v j = erc20Balance w1 j" using ne P by (simp add: v)
    qed
  qed
  then show ?thesis by blast
qed

lemma forM_same:
  assumes "forM xs f s = Inr t" and "\<And>u i v. f u i = Inr v \<Longrightarrow> g v = g u"
  shows "g t = g s"
  using assms
proof (induction xs arbitrary: s)
  case Nil
  then show ?case by simp
next
  case (Cons x xs)
  from Cons.prems(1) obtain s1 where s1: "f s x = Inr s1" and rest: "forM xs f s1 = Inr t"
    by (auto simp: rbind_Inr_iff)
  have "g t = g s1" by (rule Cons.IH[OF rest Cons.prems(2)])
  also have "g s1 = g s" by (rule Cons.prems(2)[OF s1])
  finally show ?case .
qed

lemma safeTransfer_Inr_iff:
  "safeTransfer t a b x w = Inr w' \<longleftrightarrow>
     x \<le> erc20Balance w t a
     \<and> w' = w\<lparr>erc20Balance := (erc20Balance w)
               (t := ((erc20Balance w t)(a := erc20Balance w t a - x))
                       (b := ((erc20Balance w t)(a := erc20Balance w t a - x)) b + x))\<rparr>"
  by (auto simp: safeTransfer_def Let_def)

lemma safeTransferFrom_Inr:
  assumes "safeTransferFrom t sp a b x w = Inr w'"
  shows "\<exists>al. x \<le> erc20Balance w t a
     \<and> w' = w\<lparr>erc20Allowance := al,
              erc20Balance := (erc20Balance w)
               (t := ((erc20Balance w t)(a := erc20Balance w t a - x))
                       (b := ((erc20Balance w t)(a := erc20Balance w t a - x)) b + x))\<rparr>"
proof (cases "allowance w t a sp = MAX_UINT256")
  case True
  with assms have "safeTransfer t a b x w = Inr w'" by (simp add: safeTransferFrom_def Let_def)
  then show ?thesis
    by (intro exI[of _ "erc20Allowance w"]) (simp add: safeTransfer_Inr_iff)
next
  case False
  with assms have "safeTransfer t a b x (approve t a sp (allowance w t a sp - x) w) = Inr w'"
    by (simp add: safeTransferFrom_def Let_def split: if_splits)
  then show ?thesis
    by (intro exI[of _ "erc20Allowance (approve t a sp (allowance w t a sp - x) w)"])
       (simp add: safeTransfer_Inr_iff approve_def)
qed

lemma clearAllowance_Inr:
  assumes "clearAllowance t sp w = Inr w'"
  shows "\<exists>al. w' = w\<lparr>erc20Allowance := al\<rparr>"
proof (cases "0 < allowance w t (vaultAddress w) sp")
  case True
  with assms show ?thesis
    by (intro exI[of _ "erc20Allowance w'"])
       (auto simp: clearAllowance_def safeDecreaseAllowance_def approve_def Let_def split: if_splits)
next
  case False
  with assms have "w' = w" by (simp add: clearAllowance_def Let_def)
  then show ?thesis by (intro exI[of _ "erc20Allowance w"]) simp
qed

lemma setAllowance_Inr:
  assumes "setAllowance t sp x w = Inr w'"
  shows "\<exists>al. w' = w\<lparr>erc20Allowance := al\<rparr>"
proof -
  from assms obtain w1 where c: "clearAllowance t sp w = Inr w1"
    and i: "safeIncreaseAllowance t (vaultAddress w1) sp x w1 = Inr w'"
    by (auto simp: setAllowance_def rbind_Inr_iff)
  from clearAllowance_Inr[OF c] obtain al where w1: "w1 = w\<lparr>erc20Allowance := al\<rparr>" by blast
  from i show ?thesis
    by (intro exI[of _ "erc20Allowance w'"])
       (auto simp: safeIncreaseAllowance_def approve_def w1 Inr_iffs)
qed

lemma managePoolBalanceOp_config:
  assumes "managePoolBalanceOp kind i amount w = Inr w'"
  shows "config w' = config w"
proof (cases kind)
  case WITHDRAW
  with assms show ?thesis
    by (auto simp: managePoolBalanceOp_def Inr_iffs config_def split: if_splits)
next
  case DEPOSIT
  with assms obtain w1 where
    t: "safeTransferFrom i (bVaultAddress w) (vaultAddress w) (bVaultAddress w) amount w = Inr w1"
    and w': "w' = w1\<lparr>cash := (cash w1)[i := cash w ! i + amount],
                       managed := (managed w1)[i := managed w ! i - amount]\<rparr>"
    by (auto simp: managePoolBalanceOp_def Inr_iffs split: if_splits)
  from safeTransferFrom_Inr[OF t] show ?thesis by (auto simp: w' config_def)
next
  case UPDATE
  with assms show ?thesis
    by (auto simp: managePoolBalanceOp_def Inr_iffs config_def split: if_splits)
qed

lemma updatePoolBalance_config:
  assumes "updatePoolBalance amounts kind w = Inr w'"
  shows "config w' = config w"
proof -
  from assms obtain ops where
    l: "forM [0..<numPoolTokens w]
          (\<lambda>w1 i. rbind (rd ops i) (\<lambda>amount. managePoolBalanceOp kind i amount w1)) w = Inr w'"
    by (auto simp: updatePoolBalance_def rbind_Inr_iff)
  show ?thesis
    by (rule forM_same[OF l]) (auto simp: rbind_Inr_iff managePoolBalanceOp_config)
qed

lemma withdrawFromPool_config:
  assumes "withdrawFromPool amounts w = Inr w'"
  shows "config w' = config w"
  using assms
  by (auto simp: withdrawFromPool_def Let_def rbind_Inr_iff dest!: updatePoolBalance_config)

lemma creditFee_config:
  assumes "creditFee g i fee w = Inr w'"
  shows "config w' = config w"
  using assms by (auto simp: creditFee_def Inr_iffs config_def)

lemma lockGuardianFees_config:
  assumes "lockGuardianFees b w = Inr w'"
  shows "config w' = config w"
proof (cases "managementFee w = 0")
  case True
  with assms show ?thesis by (simp add: lockGuardianFees_def)
next
  case False
  from assms False obtain feeIndex where fi: "getFeeIndex w b = Inr feeIndex"
    by (auto simp: lockGuardianFees_def rbind_Inr_iff)
  show ?thesis
  proof (cases "feeIndex = 0")
    case True
    with assms False fi show ?thesis by (simp add: lockGuardianFees_def)
  next
    case nz: False
    from assms False fi nz obtain newFees balances holdings w1 w3 where
      a: "withdrawFromPool newFees (w\<lparr>lastFeeCheckpoint := blockTimestamp w\<rparr>) = Inr w1"
      and l1: "forM [0..<numPoolTokens w]
                   (\<lambda>w2 i.
                      rbind (rd balances i) (\<lambda>b.
                      rbind (usub (balanceOf w2 i (vaultAddress w2)) b) (\<lambda>newFee.
                      creditFee (guardian w2) i newFee w2)))
                   w1 = Inr w3"
      and l2: "forM [numPoolTokens w..<numTokens w]
            (\<lambda>w4 i.
               rbind (rd holdings i) (\<lambda>h.
               rbind (calcFee w h feeIndex) (\<lambda>newFee.
               creditFee (guardian w4) i newFee w4)))
            w3 = Inr w'"
      by (auto simp: lockGuardianFees_def rbind_Inr_iff)
    have "config w' = config w3"
      by (rule forM_same[OF l2]) (auto simp: rbind_Inr_iff creditFee_config)
    also have "config w3 = config w1"
      by (rule forM_same[OF l1]) (auto simp: rbind_Inr_iff creditFee_config)
    also have "config w1 = config (w\<lparr>lastFeeCheckpoint := blockTimestamp w\<rparr>)"
      by (rule withdrawFromPool_config[OF a])
    also have "\<dots> = config w" by (simp add: config_def)
    finally show ?thesis .
  qed
qed

lemma managePoolBalanceOp_ledger:
  assumes "managePoolBalanceOp kind i amount w = Inr w'"
  shows "guardiansFee w' = guardiansFee w"
proof (cases kind)
  case WITHDRAW
  with assms show ?thesis
    by (auto simp: managePoolBalanceOp_def Inr_iffs split: if_splits)
next
  case DEPOSIT
  with assms obtain w1 where
    t: "safeTransferFrom i (bVaultAddress w) (vaultAddress w) (bVaultAddress w) amount w = Inr w1"
    and w': "w' = w1\<lparr>cash := (cash w1)[i := cash w ! i + amount],
                       managed := (managed w1)[i := managed w ! i - amount]\<rparr>"
    by (auto simp: managePoolBalanceOp_def Inr_iffs split: if_splits)
  from safeTransferFrom_Inr[OF t] show ?thesis by (auto simp: w')
next
  case UPDATE
  with assms show ?thesis
    by (auto simp: managePoolBalanceOp_def Inr_iffs split: if_splits)
qed

lemma updatePoolBalance_ledger:
  assumes "updatePoolBalance amounts kind w = Inr w'"
  shows "guardiansFee w' = guardiansFee w"
proof -
  from assms obtain ops where
    l: "forM [0..<numPoolTokens w]
          (\<lambda>w1 i. rbind (rd ops i) (\<lambda>amount. managePoolBalanceOp kind i amount w1)) w = Inr w'"
    by (auto simp: updatePoolBalance_def rbind_Inr_iff)
  show ?thesis
    by (rule forM_same[OF l]) (auto simp: rbind_Inr_iff managePoolBalanceOp_ledger)
qed

lemma withdrawFromPool_ledger:
  assumes "withdrawFromPool amounts w = Inr w'"
  shows "guardiansFee w' = guardiansFee w"
  using assms
  by (auto simp: withdrawFromPool_def Let_def rbind_Inr_iff dest!: updatePoolBalance_ledger)

lemma creditFee_ledger:
  assumes "creditFee g i fee u = Inr v"
  shows "length (guardiansFee v g) = length (guardiansFee u g)
    \<and> (\<forall>k. guardiansFee u g ! k \<le> guardiansFee v g ! k)
    \<and> (\<forall>a. a \<noteq> g \<longrightarrow> guardiansFee v a = guardiansFee u a)"
  using assms by (auto simp: creditFee_def Inr_iffs nth_list_update)

text \<open>Locking the fees only adds to the ledger row of the guardian.\<close>

lemma lockGuardianFees_ledger:
  assumes ok: "lockGuardianFees b w = Inr w'"
  shows "length (guardiansFee w' (guardian w)) = length (guardiansFee w (guardian w))
    \<and> (\<forall>k. guardiansFee w (guardian w) ! k \<le> guardiansFee w' (guardian w) ! k)
    \<and> (\<forall>a. a \<noteq> guardian w \<longrightarrow> guardiansFee w' a = guardiansFee w a)"
proof (cases "managementFee w = 0")
  case True
  with ok show ?thesis by (simp add: lockGuardianFees_def)
next
  case False
  from ok False obtain feeIndex where fi: "getFeeIndex w b = Inr feeIndex"
    by (auto simp: lockGuardianFees_def rbind_Inr_iff)
  show ?thesis
  proof (cases "feeIndex = 0")
    case True
    with ok False fi show ?thesis by (simp add: lockGuardianFees_def)
  next
    case nz: False
    let ?G = "guardian w"
    let ?P = "\<lambda>(k :: nat) u. config u = config w
      \<and> length (guardiansFee u ?G) = length (guardiansFee w ?G)
      \<and> (\<forall>k. guardiansFee w ?G ! k \<le> guardiansFee u ?G ! k)
      \<and> (\<forall>a. a \<noteq> ?G \<longrightarrow> guardiansFee u a = guardiansFee w a)"
    from ok False fi nz obtain newFees balances holdings w1 w3 where
      a: "withdrawFromPool newFees (w\<lparr>lastFeeCheckpoint := blockTimestamp w\<rparr>) = Inr w1"
      and l1: "forM [0..<numPoolTokens w]
                   (\<lambda>w2 i.
                      rbind (rd balances i) (\<lambda>b.
                      rbind (usub (balanceOf w2 i (vaultAddress w2)) b) (\<lambda>newFee.
                      creditFee (guardian w2) i newFee w2)))
                   w1 = Inr w3"
      and l2: "forM [numPoolTokens w..<numTokens w]
            (\<lambda>w4 i.
               rbind (rd holdings i) (\<lambda>h.
               rbind (calcFee w h feeIndex) (\<lambda>newFee.
               creditFee (guardian w4) i newFee w4)))
            w3 = Inr w'"
      by (auto simp: lockGuardianFees_def rbind_Inr_iff)
    have c1: "config w1 = config w"
      using withdrawFromPool_config[OF a] by (simp add: config_def)
    have g1: "guardiansFee w1 = guardiansFee w"
      using withdrawFromPool_ledger[OF a] by simp
    have step: "?P (Suc i) v" if P: "?P i u" and cr: "creditFee (guardian u) i' fee u = Inr v"
      for i i' u v fee
    proof -
      from P have cu: "config u = config w" by blast
      have gu: "guardian u = ?G" using cu by (rule config_fields)
      note C = creditFee_ledger[OF cr[unfolded gu]]
      have cv: "config v = config w" using creditFee_config[OF cr] cu by simp
      have "guardiansFee w ?G ! k \<le> guardiansFee v ?G ! k" for k
        using P C le_trans by blast
      then show ?thesis using cv C P by auto
    qed
    have P3: "?P (numPoolTokens w) w3"
    proof (rule forM_upt_inv[OF l1, where P = ?P])
      show "0 \<le> numPoolTokens w" by simp
      show "?P 0 w1" using c1 g1 by simp
    next
      fix i u v
      assume P: "?P i u"
        and s: "rbind (rd balances i) (\<lambda>b.
                      rbind (usub (balanceOf u i (vaultAddress u)) b) (\<lambda>newFee.
                      creditFee (guardian u) i newFee u)) = Inr v"
      from s obtain fee where "creditFee (guardian u) i fee u = Inr v"
        by (auto simp: rbind_Inr_iff)
      from step[OF P this] show "?P (Suc i) v" .
    qed
    have "?P (numTokens w) w'"
    proof (rule forM_upt_inv[OF l2, where P = ?P])
      show "numPoolTokens w \<le> numTokens w" by (simp add: numTokens_def)
      show "?P (numPoolTokens w) w3" by (rule P3)
    next
      fix i u v
      assume P: "?P i u"
        and s: "rbind (rd holdings i) (\<lambda>h.
               rbind (calcFee w h feeIndex) (\<lambda>newFee.
               creditFee (guardian u) i newFee u)) = Inr v"
      from s obtain fee where "creditFee (guardian u) i fee u = Inr v"
        by (auto simp: rbind_Inr_iff)
      from step[OF P this] show "?P (Suc i) v" .
    qed
    then show ?thesis by blast
  qed
qed

lemma distributeGuardianFees_absent:
  "guardiansFee w1 sender = [] \<Longrightarrow>
   distributeGuardianFees sender w1 = Inl (Mammon__NoAvailableFeeForCaller sender)"
  by (simp add: distributeGuardianFees_def)

lemma distributeGuardianFees_effect:
  assumes ok: "distributeGuardianFees sender w1 = Inr w'"
    and nv: "sender \<noteq> vaultAddress w1"
  shows "guardiansFee w1 sender \<noteq> []
    \<and> config w' = config w1
    \<and> (\<forall>i < numTokens w1.
          i < length (guardiansFee w1 sender)
          \<and> guardiansFee w1 sender ! i \<le> erc20Balance w1 i (vaultAddress w1)
          \<and> erc20Balance w' i sender = erc20Balance w1 i sender + guardiansFee w1 sender ! i
          \<and> erc20Balance w' i (vaultAddress w1)
               = erc20Balance w1 i (vaultAddress w1) - guardiansFee w1 sender ! i
          \<and> guardiansFee w1 sender ! i \<le> guardiansFeeTotal w1 ! i
          \<and> guardiansFeeTotal w' ! i = guardiansFeeTotal w1 ! i - guardiansFee w1 sender ! i)
    \<and> (sender = guardian w1 \<longrightarrow>
          length (guardiansFee w' sender) = length (guardiansFee w1 sender)
          \<and> (\<forall>i < numTokens w1. guardiansFee w' sender ! i = 0))
    \<and> (sender \<noteq> guardian w1 \<longrightarrow> guardiansFee w' sender = [])
    \<and> (\<forall>a. a \<noteq> sender \<longrightarrow> guardiansFee w' a = guardiansFee w1 a)"
proof -
  from ok have ne: "guardiansFee w1 sender \<noteq> []"
    by (auto simp: distributeGuardianFees_def split: if_splits)
  from ok ne obtain w3 where
    loop: "forM [0..<numTokens w1]
                  (\<lambda>w2 i.
                     rbind (rd (guardiansFee w1 sender) i) (\<lambda>fee.
                     rbind (rd (guardiansFeeTotal w2) i) (\<lambda>total.
                     rbind (usub total fee) (\<lambda>total'.
                     rbind (wr (guardiansFee w2 sender) i 0) (\<lambda>row'.
                     safeTransfer i (vaultAddress w2) sender fee
                       (w2\<lparr>guardiansFeeTotal := (guardiansFeeTotal w2)[i := total'],
                           guardiansFee := (guardiansFee w2)(sender := row')\<rparr>))))))
                  w1 = Inr w3"
    and w': "w' = emit (DistributeGuardianFees sender (guardiansFee w1 sender))
                   (if sender \<noteq> guardian w3
                    then w3\<lparr>guardiansFee := (guardiansFee w3)(sender := [])\<rparr> else w3)"
    by (auto simp: distributeGuardianFees_def Let_def rbind_Inr_iff)
  note L = distribute_loop[OF loop refl nv]
  from L have c3: "config w3 = config w1" by blast
  then have g3: "guardian w3 = guardian w1" by (rule config_fields)
  have c: "config w' = config w1" using c3 by (simp add: w' emit_def config_def)
  have bal: "erc20Balance w' = erc20Balance w3" "guardiansFeeTotal w' = guardiansFeeTotal w3"
    by (simp_all add: w' emit_def)
  have other: "guardiansFee w' a = guardiansFee w1 a" if "a \<noteq> sender" for a
    using L that by (simp add: w' emit_def)
  have slots: "i < length (guardiansFee w1 sender)
          \<and> guardiansFee w1 sender ! i \<le> erc20Balance w1 i (vaultAddress w1)
          \<and> erc20Balance w' i sender = erc20Balance w1 i sender + guardiansFee w1 sender ! i
          \<and> erc20Balance w' i (vaultAddress w1)
               = erc20Balance w1 i (vaultAddress w1) - guardiansFee w1 sender ! i
          \<and> guardiansFee w1 sender ! i \<le> guardiansFeeTotal w1 ! i
          \<and> guardiansFeeTotal w' ! i = guardiansFeeTotal w1 ! i - guardiansFee w1 sender ! i"
    if "i < numTokens w1" for i
    using L that unfolding bal by blast
  have g: "length (guardiansFee w' sender) = length (guardiansFee w1 sender)
          \<and> (\<forall>i < numTokens w1. guardiansFee w' sender ! i = 0)" if "sender = guardian w1"
    using L that g3 by (simp add: w' emit_def)
  have ng: "guardiansFee w' sender = []" if "sender \<noteq> guardian w1"
    using that g3 by (simp add: w' emit_def)
  show ?thesis using ne c slots g ng other by blast
qed

lemma claimGuardianFees_unfold:
  assumes "initialized w" "\<not> finalized w"
    and "(if sender = guardian w then lockGuardianFees False w else Inr w) = Inr w1"
  shows "claimGuardianFees sender w = distributeGuardianFees sender w1"
  using assms by (simp add: claimGuardianFees_def whenInitialized_def whenNotFinalized_def)

lemma claimGuardianFees_ledger:
  assumes live: "initialized w" "\<not> finalized w"
    and nv: "sender \<noteq> vaultAddress w"
    and locked: "(if sender = guardian w then lockGuardianFees False w else Inr w) = Inr w1"
  shows "(sender \<noteq> guardian w \<longrightarrow> w1 = w)
    \<and> (sender = guardian w \<longrightarrow>
          length (guardiansFee w1 sender) = length (guardiansFee w sender)
          \<and> (\<forall>i. guardiansFee w sender ! i \<le> guardiansFee w1 sender ! i))
    \<and> (guardiansFee w1 sender = [] \<longrightarrow>
          claimGuardianFees sender w = Inl (Mammon__NoAvailableFeeForCaller sender))
    \<and> (\<forall>w'. claimGuardianFees sender w = Inr w' \<longrightarrow>
          guardiansFee w1 sender \<noteq> []
          \<and> (\<forall>i < numTokens w.
                guardiansFee w1 sender ! i \<le> erc20Balance w1 i (vaultAddress w)
                \<and> erc20Balance w' i sender = erc20Balance w1 i sender + guardiansFee w1 sender ! i
                \<and> erc20Balance w' i (vaultAddress w)
                     = erc20Balance w1 i (vaultAddress w) - guardiansFee w1 sender ! i
                \<and> guardiansFee w1 sender ! i \<le> guardiansFeeTotal w1 ! i
                \<and> guardiansFeeTotal w' ! i = guardiansFeeTotal w1 ! i - guardiansFee w1 sender ! i)
          \<and> (sender = guardian w \<longrightarrow>
                length (guardiansFee w' sender) = length (guardiansFee w1 sender)
                \<and> (\<forall>i < numTokens w. guardiansFee w' sender ! i = 0))
          \<and> (sender \<noteq> guardian w \<longrightarrow> guardiansFee w' sender = [])
          \<and> (\<forall>a. a \<noteq> sender \<longrightarrow> guardiansFee w' a = guardiansFee w1 a))"
proof -
  have c: "config w1 = config w"
    using locked by (cases "sender = guardian w") (auto dest: lockGuardianFees_config)
  note f = config_fields(2,15,24)[OF c]
  note u = claimGuardianFees_unfold[OF live locked]
  have a: "sender \<noteq> guardian w \<longrightarrow> w1 = w" using locked by auto
  have a2: "sender = guardian w \<longrightarrow>
          length (guardiansFee w1 sender) = length (guardiansFee w sender)
          \<and> (\<forall>i. guardiansFee w sender ! i \<le> guardiansFee w1 sender ! i)"
    using locked lockGuardianFees_ledger[of False w w1] by (cases "sender = guardian w") auto
  have b: "guardiansFee w1 sender = [] \<longrightarrow>
          claimGuardianFees sender w = Inl (Mammon__NoAvailableFeeForCaller sender)"
    unfolding u by (simp add: distributeGuardianFees_absent)
  have d: "guardiansFee w1 sender \<noteq> []
          \<and> (\<forall>i < numTokens w.
                guardiansFee w1 sender ! i \<le> erc20Balance w1 i (vaultAddress w)
                \<and> erc20Balance w' i sender = erc20Balance w1 i sender + guardiansFee w1 sender ! i
                \<and> erc20Balance w' i (vaultAddress w)
                     = erc20Balance w1 i (vaultAddress w) - guardiansFee w1 sender ! i
                \<and> guardiansFee w1 sender ! i \<le> guardiansFeeTotal w1 ! i
                \<and> guardiansFeeTotal w' ! i = guardiansFeeTotal w1 ! i - guardiansFee w1 sender ! i)
          \<and> (sender = guardian w \<longrightarrow>
                length (guardiansFee w' sender) = length (guardiansFee w1 sender)
                \<and> (\<forall>i < numTokens w. guardiansFee w' sender ! i = 0))
          \<and> (sender \<noteq> guardian w \<longrightarrow> guardiansFee w' sender = [])
          \<and> (\<forall>a. a \<noteq> sender \<longrightarrow> guardiansFee w' a = guardiansFee w1 a)"
    if "claimGuardianFees sender w = Inr w'" for w'
  proof -
    from that have ok: "distributeGuardianFees sender w1 = Inr w'" unfolding u .
    have nv1: "sender \<noteq> vaultAddress w1" using nv f by simp
    from distributeGuardianFees_effect[OF ok nv1] show ?thesis unfolding f by simp
  qed
  show ?thesis using a a2 b d by blast
qed

text \<open>
  C6 (as amended). A call of \<open>claimGuardianFees\<close> on an initialized vault that is not
  finalized first locks the fees due when the caller is the current guardian, which only adds
  to the caller's ledger row; for any other caller the state is untouched at that point. If
  the caller's ledger is then absent the call fails with \<open>NoAvailableFeeForCaller\<close>. If the
  call succeeds, the ledger was not absent, and for every token slot the caller receives
  exactly the ledger entry as it stands after that first step, the vault contract pays it,
  and the aggregate vector is decremented by it (the entry is covered by both); afterwards
  the row of a caller who is the guardian is zero in every slot, the row of any other caller
  is deleted, and the rows of all other addresses are unchanged.
\<close>

theorem claim_guardian_fees_pays_ledger:
  assumes live: "initialized w" "\<not> finalized w"
    and nv: "sender \<noteq> vaultAddress w"
    and locked: "(if sender = guardian w then lockGuardianFees False w else Inr w) = Inr w1"
  shows "(sender \<noteq> guardian w \<longrightarrow> w1 = w)
    \<and> (sender = guardian w \<longrightarrow>
          length (guardiansFee w1 sender) = length (guardiansFee w sender)
          \<and> (\<forall>i. guardiansFee w sender ! i \<le> guardiansFee w1 sender ! i))
    \<and> (guardiansFee w1 sender = [] \<longrightarrow>
          claimGuardianFees sender w = Inl (Mammon__NoAvailableFeeForCaller sender))
    \<and> (\<forall>w'. claimGuardianFees sender w = Inr w' \<longrightarrow>
          guardiansFee w1 sender \<noteq> []
          \<and> (\<forall>i < numTokens w.
                guardiansFee w1 sender ! i \<le> erc20Balance w1 i (vaultAddress w)
                \<and> erc20Balance w' i sender = erc20Balance w1 i sender + guardiansFee w1 sender ! i
                \<and> erc20Balance w' i (vaultAddress w)
                     = erc20Balance w1 i (vaultAddress w) - guardiansFee w1 sender ! i
                \<and> guardiansFee w1 sender ! i \<le> guardiansFeeTotal w1 ! i
                \<and> guardiansFeeTotal w' ! i = guardiansFeeTotal w1 ! i - guardiansFee w1 sender ! i)
          \<and> (sender = guardian w \<longrightarrow>
                length (guardiansFee w' sender) = length (guardiansFee w1 sender)
                \<and> (\<forall>i < numTokens w. guardiansFee w' sender ! i = 0))
          \<and> (sender \<noteq> guardian w \<longrightarrow> guardiansFee w' sender = [])
          \<and> (\<forall>a. a \<noteq> sender \<longrightarrow> guardiansFee w' a = guardiansFee w1 a))"
  using assms by (rule claimGuardianFees_ledger)

theorem claim_guardian_fees_pays_ledger_witness:
  "claimGuardianFees 4 formerGuardianVault = Inl (Mammon__NoAvailableFeeForCaller 4)
   \<and> (\<exists>w'. claimGuardianFees 3 formerGuardianVault = Inr w'
          \<and> erc20Balance w' 0 3 = 7 \<and> erc20Balance w' 2 3 = 3 \<and> erc20Balance w' 0 100 = 5
          \<and> guardiansFeeTotal w' ! 0 = 5 \<and> guardiansFeeTotal w' ! 2 = 0
          \<and> guardiansFee w' 3 = [] \<and> guardiansFee w' 2 = [5, 0, 0])
   \<and> (\<exists>w'. claimGuardianFees 2 formerGuardianVault = Inr w'
          \<and> erc20Balance w' 0 2 = 5 \<and> erc20Balance w' 0 100 = 7
          \<and> guardiansFeeTotal w' ! 0 = 7
          \<and> length (guardiansFee w' 2) = 3 \<and> guardiansFee w' 2 ! 0 = 0
          \<and> guardiansFee w' 3 = [7, 0, 3])
   \<and> guardiansFee feeVault 2 = [0, 0, 0]
   \<and> (\<exists>w1 w'. lockGuardianFees False feeVault = Inr w1
          \<and> guardiansFee w1 2 = [5 * 10 ^ 11, 5 * 10 ^ 11, 0]
          \<and> claimGuardianFees 2 feeVault = Inr w'
          \<and> erc20Balance w' 0 2 = 5 * 10 ^ 11 \<and> erc20Balance w' 0 100 = 0
          \<and> guardiansFeeTotal w' ! 0 = 0
          \<and> length (guardiansFee w' 2) = 3 \<and> guardiansFee w' 2 ! 0 = 0)"
proof -
  let ?w = formerGuardianVault
  have f: "initialized ?w" "\<not> finalized ?w" "vaultAddress ?w = 100" "guardian ?w = 2"
    "numTokens ?w = 3" "managementFee ?w = 0"
    "guardiansFee ?w 2 = [5, 0, 0]" "guardiansFee ?w 3 = [7, 0, 3]" "guardiansFee ?w 4 = []"
    "guardiansFeeTotal ?w = [12, 0, 3]"
    "erc20Balance ?w 0 100 = 12" "erc20Balance ?w 2 100 = 50"
    "erc20Balance ?w 0 3 = 0" "erc20Balance ?w 2 3 = 0" "erc20Balance ?w 0 2 = 0"
    by (simp_all add: formerGuardianVault_def exampleVault_def numTokens_def)
  have lock: "lockGuardianFees False ?w = Inr ?w" by (simp add: lockGuardianFees_def f)
  have absent: "claimGuardianFees 4 ?w = Inl (Mammon__NoAvailableFeeForCaller 4)"
    using claim_guardian_fees_pays_ledger[where w = ?w and sender = 4 and ?w1.0 = ?w]
    by (simp add: f)
  have "\<exists>w'. claimGuardianFees 3 ?w = Inr w'"
    by (simp add: eval_simps formerGuardianVault_def exampleVault_def)
  then obtain w3 where w3: "claimGuardianFees 3 ?w = Inr w3" by blast
  have former: "erc20Balance w3 0 3 = 7 \<and> erc20Balance w3 2 3 = 3 \<and> erc20Balance w3 0 100 = 5
          \<and> guardiansFeeTotal w3 ! 0 = 5 \<and> guardiansFeeTotal w3 ! 2 = 0
          \<and> guardiansFee w3 3 = [] \<and> guardiansFee w3 2 = [5, 0, 0]"
    using claim_guardian_fees_pays_ledger[where w = ?w and sender = 3 and ?w1.0 = ?w] w3
    by (simp add: f)
  have "\<exists>w'. claimGuardianFees 2 ?w = Inr w'"
    by (simp add: eval_simps formerGuardianVault_def exampleVault_def)
  then obtain w2 where w2: "claimGuardianFees 2 ?w = Inr w2" by blast
  have current: "erc20Balance w2 0 2 = 5 \<and> erc20Balance w2 0 100 = 7
          \<and> guardiansFeeTotal w2 ! 0 = 7
          \<and> length (guardiansFee w2 2) = 3 \<and> guardiansFee w2 2 ! 0 = 0
          \<and> guardiansFee w2 3 = [7, 0, 3]"
    using claim_guardian_fees_pays_ledger[where w = ?w and sender = 2 and ?w1.0 = ?w] w2
    by (simp add: f lock)
  let ?v = feeVault
  have g: "initialized ?v" "\<not> finalized ?v" "vaultAddress ?v = 100" "guardian ?v = 2"
    "numTokens ?v = 3" "guardiansFee ?v 2 = [0, 0, 0]"
    by (simp_all add: feeVault_def exampleVault_def numTokens_def)
  have "\<exists>w1. lockGuardianFees False ?v = Inr w1
     \<and> guardiansFee w1 2 = [5 * 10 ^ 11, 5 * 10 ^ 11, 0] \<and> erc20Balance w1 0 2 = 0
     \<and> erc20Balance w1 0 100 = 5 * 10 ^ 11 \<and> guardiansFeeTotal w1 = [5 * 10 ^ 11, 5 * 10 ^ 11, 0]"
    by (simp add: eval_simps MAX_MANAGEMENT_FEE_def feeVault_def exampleVault_def)
  then obtain v1 where v1: "lockGuardianFees False ?v = Inr v1"
    "guardiansFee v1 2 = [5 * 10 ^ 11, 5 * 10 ^ 11, 0]" "erc20Balance v1 0 2 = 0"
    "erc20Balance v1 0 100 = 5 * 10 ^ 11" "guardiansFeeTotal v1 = [5 * 10 ^ 11, 5 * 10 ^ 11, 0]"
    by blast
  have "\<exists>w'. claimGuardianFees 2 ?v = Inr w'"
    by (simp add: eval_simps MAX_MANAGEMENT_FEE_def feeVault_def exampleVault_def)
  then obtain v2 where v2: "claimGuardianFees 2 ?v = Inr v2" by blast
  have accrued: "erc20Balance v2 0 2 = 5 * 10 ^ 11 \<and> erc20Balance v2 0 100 = 0
          \<and> guardiansFeeTotal v2 ! 0 = 0
          \<and> length (guardiansFee v2 2) = 3 \<and> guardiansFee v2 2 ! 0 = 0"
    using claim_guardian_fees_pays_ledger[where w = ?v and sender = 2 and ?w1.0 = v1] v2
    by (simp add: g v1)
  show ?thesis using absent w3 former w2 current g(6) v1(1,2) v2 accrued by blast
qed

text \<open>
  The claim C6 as stated fails: on a vault that charges the maximal fee, 500 seconds after
  the last checkpoint, the ledger entry of the guardian for token 0 is 0 at call time, yet
  \<open>claimGuardianFees\<close> pays the guardian the \<open>5 * 10 ^ 11\<close> that the call itself locks
  first.
\<close>

theorem claim_pays_accrued_fee_counterexample:
  "getGuardiansFee 2 0 feeVault = Inr 0
   \<and> tokenBalanceOf 0 2 feeVault = Inr 0
   \<and> rbind (claimGuardianFees 2 feeVault) (tokenBalanceOf 0 2) = Inr (5 * 10 ^ 11)"
  by (simp add: eval_simps tokenBalanceOf_def MAX_MANAGEMENT_FEE_def feeVault_def exampleVault_def)

section \<open>A deposit followed by a withdrawal of the same amounts\<close>

lemma books_fields:
  assumes "books u = books w"
  shows "config u = config w" "guardiansFeeTotal u = guardiansFeeTotal w"
    "cash u = cash w" "managed u = managed w"
    "\<And>t. numPoolTokens w \<le> t \<Longrightarrow> erc20Balance u t (vaultAddress w) = erc20Balance w t (vaultAddress w)"
proof -
  from assms show c: "config u = config w" and "guardiansFeeTotal u = guardiansFeeTotal w"
    "cash u = cash w" "managed u = managed w"
    by (simp_all add: books_def)
  fix t assume t: "numPoolTokens w \<le> t"
  from assms have "(\<lambda>t. if numPoolTokens u \<le> t then erc20Balance u t (vaultAddress u) else 0)
                 = (\<lambda>t. if numPoolTokens w \<le> t then erc20Balance w t (vaultAddress w) else 0)"
    by (simp add: books_def)
  then have "(if numPoolTokens u \<le> t then erc20Balance u t (vaultAddress u) else 0)
           = (if numPoolTokens w \<le> t then erc20Balance w t (vaultAddress w) else 0)"
    by (rule fun_cong)
  then show "erc20Balance u t (vaultAddress w) = erc20Balance w t (vaultAddress w)"
    using t config_fields(2,5)[OF c] by simp
qed

lemma booksI:
  assumes "config u = config w" "guardiansFeeTotal u = guardiansFeeTotal w"
    "cash u = cash w" "managed u = managed w"
    "\<And>t. numPoolTokens w \<le> t \<Longrightarrow> erc20Balance u t (vaultAddress w) = erc20Balance w t (vaultAddress w)"
  shows "books u = books w"
  using assms config_fields(2,5)[OF assms(1)] by (auto simp: books_def fun_eq_iff)

lemma mapM_cong:
  "(\<And>x. x \<in> set xs \<Longrightarrow> f x = g x) \<Longrightarrow> mapM f xs = mapM g xs"
  by (induction xs) auto

lemma getHoldings_books:
  assumes "books u = books w"
  shows "getHoldings u = getHoldings w"
proof -
  note b = books_fields[OF assms]
  note c = config_fields[OF b(1)]
  have "mapM (\<lambda>i. rbind (rd (guardiansFeeTotal u) (numPoolTokens u + i)) (\<lambda>fee.
                       usub (balanceOf u (numPoolTokens u + i) (vaultAddress u)) fee))
              [0..<numYieldTokens u]
      = mapM (\<lambda>i. rbind (rd (guardiansFeeTotal w) (numPoolTokens w + i)) (\<lambda>fee.
                       usub (balanceOf w (numPoolTokens w + i) (vaultAddress w)) fee))
              [0..<numYieldTokens w]"
    unfolding c b(2) by (rule mapM_cong) (simp add: balanceOf_def b(5))
  then show ?thesis
    by (simp add: getHoldings_def getPoolHoldings_def bVault_getPoolTokens_def c b(2,3,4))
qed

lemma lockGuardianFees_no_fee: "managementFee w = 0 \<Longrightarrow> lockGuardianFees b w = Inr w"
  by (simp add: lockGuardianFees_def)

lemma getValuesFromTokenWithValues_snd:
  assumes "getValuesFromTokenWithValues w tokenWithValues poolTokens = Inr vals"
  shows "length vals = numTokens w \<and> (\<forall>i < numTokens w. vals ! i = snd (tokenWithValues ! i))"
proof -
  from assms have len: "numTokens w = length tokenWithValues"
    by (auto simp: getValuesFromTokenWithValues_def split: if_splits)
  from assms len obtain ps ys where
    ps: "mapM (\<lambda>i. rbind (rd tokenWithValues i) (\<lambda>tv.
                         rbind (rd poolTokens i) (\<lambda>pt.
                         if fst tv \<noteq> pt then Inl (Mammon__DifferentTokensInPosition (fst tv) pt i)
                         else Inr (snd tv))))
                 [0..<numPoolTokens w] = Inr ps"
    and ys: "mapM (\<lambda>i. rbind (rd tokenWithValues (numPoolTokens w + i)) (\<lambda>tv.
                         rbind (rd (yieldTokens w) i) (\<lambda>yt.
                         if fst tv \<noteq> yt
                         then Inl (Mammon__DifferentTokensInPosition (fst tv) yt (numPoolTokens w + i))
                         else Inr (snd tv))))
                 [0..<numYieldTokens w] = Inr ys"
    and vals: "vals = ps @ ys"
    by (auto simp: getValuesFromTokenWithValues_def rbind_Inr_iff)
  from ps have p: "length ps = numPoolTokens w"
    "\<And>i. i < numPoolTokens w \<Longrightarrow> ps ! i = snd (tokenWithValues ! i)"
    by (auto simp: mapM_upt_Inr_iff Inr_iffs split: if_splits)
  from ys have y: "length ys = numYieldTokens w"
    "\<And>i. i < numYieldTokens w \<Longrightarrow> ys ! i = snd (tokenWithValues ! (numPoolTokens w + i))"
    by (auto simp: mapM_upt_Inr_iff Inr_iffs split: if_splits)
  have "vals ! i = snd (tokenWithValues ! i)" if "i < numTokens w" for i
  proof (cases "i < numPoolTokens w")
    case True
    then show ?thesis using p by (simp add: vals nth_append)
  next
    case False
    then have "i - numPoolTokens w < numYieldTokens w" using that by (simp add: numTokens_def)
    from y(2)[OF this] False show ?thesis using p(1) by (simp add: vals nth_append)
  qed
  then show ?thesis using p(1) y(1) by (simp add: vals numTokens_def)
qed

text \<open>What one operation on the pool's balance of pool token \<open>i\<close> does to the books.\<close>

lemma managePoolBalanceOp_effect:
  assumes ok: "managePoolBalanceOp kind i x u = Inr v" and i: "i < numPoolTokens u"
  shows "config v = config u \<and> guardiansFeeTotal v = guardiansFeeTotal u
    \<and> length (cash v) = length (cash u) \<and> length (managed v) = length (managed u)
    \<and> i < length (cash u) \<and> i < length (managed u)
    \<and> (\<forall>k. k \<noteq> i \<longrightarrow> cash v ! k = cash u ! k \<and> managed v ! k = managed u ! k)
    \<and> (\<forall>t. numPoolTokens u \<le> t \<longrightarrow> erc20Balance v t = erc20Balance u t)
    \<and> (case kind of
          WITHDRAW \<Rightarrow> x \<le> cash u ! i \<and> cash v ! i = cash u ! i - x \<and> managed v ! i = managed u ! i + x
        | DEPOSIT \<Rightarrow> x \<le> managed u ! i \<and> cash v ! i = cash u ! i + x \<and> managed v ! i = managed u ! i - x
        | UPDATE \<Rightarrow> cash v ! i = cash u ! i \<and> managed v ! i = x)"
proof (cases kind)
  case WITHDRAW
  with ok i show ?thesis
    by (auto simp: managePoolBalanceOp_def Inr_iffs config_def split: if_splits)
next
  case DEPOSIT
  with ok obtain w1 where
    t: "safeTransferFrom i (bVaultAddress u) (vaultAddress u) (bVaultAddress u) x u = Inr w1"
    and v: "v = w1\<lparr>cash := (cash w1)[i := cash u ! i + x],
                     managed := (managed w1)[i := managed u ! i - x]\<rparr>"
    and r: "i < length (cash u)" "i < length (managed u)" "x \<le> managed u ! i"
    by (auto simp: managePoolBalanceOp_def Inr_iffs split: if_splits)
  from safeTransferFrom_Inr[OF t] obtain al where
    w1: "w1 = u\<lparr>erc20Allowance := al,
              erc20Balance := (erc20Balance u)
               (i := ((erc20Balance u i)(vaultAddress u := erc20Balance u i (vaultAddress u) - x))
                       (bVaultAddress u := ((erc20Balance u i)(vaultAddress u := erc20Balance u i (vaultAddress u) - x))
                            (bVaultAddress u) + x))\<rparr>"
    by blast
  show ?thesis using r i DEPOSIT by (auto simp: v w1 config_def)
next
  case UPDATE
  with ok i show ?thesis
    by (auto simp: managePoolBalanceOp_def Inr_iffs config_def split: if_splits)
qed

lemma updatePoolBalance_effect:
  assumes ok: "updatePoolBalance amounts kind w = Inr w'"
  shows "config w' = config w \<and> guardiansFeeTotal w' = guardiansFeeTotal w
    \<and> length (cash w') = length (cash w) \<and> length (managed w') = length (managed w)
    \<and> (\<forall>k \<ge> numPoolTokens w. cash w' ! k = cash w ! k \<and> managed w' ! k = managed w ! k)
    \<and> (\<forall>t \<ge> numPoolTokens w. erc20Balance w' t = erc20Balance w t)
    \<and> (\<forall>i < numPoolTokens w.
          i < length (cash w) \<and> i < length (managed w) \<and> i < length amounts
          \<and> (case kind of
               WITHDRAW \<Rightarrow> amounts ! i \<le> cash w ! i \<and> cash w' ! i = cash w ! i - amounts ! i
                            \<and> managed w' ! i = managed w ! i + amounts ! i
             | DEPOSIT \<Rightarrow> amounts ! i \<le> managed w ! i \<and> cash w' ! i = cash w ! i + amounts ! i
                            \<and> managed w' ! i = managed w ! i - amounts ! i
             | UPDATE \<Rightarrow> cash w' ! i = cash w ! i \<and> managed w' ! i = amounts ! i))"
proof -
  let ?n = "numPoolTokens w"
  from ok obtain ops where
    ops: "mapM (rd amounts) [0..<?n] = Inr ops"
    and l: "forM [0..<?n]
          (\<lambda>w1 i. rbind (rd ops i) (\<lambda>amount. managePoolBalanceOp kind i amount w1)) w = Inr w'"
    by (auto simp: updatePoolBalance_def rbind_Inr_iff)
  from ops have o: "length ops = ?n" "\<And>i. i < ?n \<Longrightarrow> i < length amounts \<and> ops ! i = amounts ! i"
    by (auto simp: mapM_upt_Inr_iff Inr_iffs)
  let ?P = "\<lambda>k u. config u = config w \<and> guardiansFeeTotal u = guardiansFeeTotal w
    \<and> length (cash u) = length (cash w) \<and> length (managed u) = length (managed w)
    \<and> (\<forall>j \<ge> k. cash u ! j = cash w ! j \<and> managed u ! j = managed w ! j)
    \<and> (\<forall>t \<ge> ?n. erc20Balance u t = erc20Balance w t)
    \<and> (\<forall>i < k.
          i < length (cash w) \<and> i < length (managed w) \<and> i < length amounts
          \<and> (case kind of
               WITHDRAW \<Rightarrow> amounts ! i \<le> cash w ! i \<and> cash u ! i = cash w ! i - amounts ! i
                            \<and> managed u ! i = managed w ! i + amounts ! i
             | DEPOSIT \<Rightarrow> amounts ! i \<le> managed w ! i \<and> cash u ! i = cash w ! i + amounts ! i
                            \<and> managed u ! i = managed w ! i - amounts ! i
             | UPDATE \<Rightarrow> cash u ! i = cash w ! i \<and> managed u ! i = amounts ! i))"
  have "?P ?n w'"
  proof (rule forM_upt_inv[OF l, where P = ?P])
    show "0 \<le> ?n" by simp
    show "?P 0 w" by simp
  next
    fix i u v
    assume i: "0 \<le> i" "i < ?n" and P: "?P i u"
      and step: "rbind (rd ops i) (\<lambda>amount. managePoolBalanceOp kind i amount u) = Inr v"
    from P have cu: "config u = config w" by blast
    have nu: "numPoolTokens u = ?n" using cu by (rule config_fields)
    from step o i have m: "managePoolBalanceOp kind i (amounts ! i) u = Inr v"
      by (auto simp: Inr_iffs)
    have iu: "i < numPoolTokens u" using i nu by simp
    note E = managePoolBalanceOp_effect[OF m iu]
    from P have cur: "cash u ! i = cash w ! i" "managed u ! i = managed w ! i" by auto
    show "?P (Suc i) v"
    proof (intro conjI allI impI)
      show "config v = config w" using E cu by simp
      show "guardiansFeeTotal v = guardiansFeeTotal w" using E P by simp
      show "length (cash v) = length (cash w)" using E P by simp
      show "length (managed v) = length (managed w)" using E P by simp
    next
      fix j assume "Suc i \<le> j"
      then have "j \<noteq> i" "i \<le> j" by simp_all
      then show "cash v ! j = cash w ! j" "managed v ! j = managed w ! j" using E P by auto
    next
      fix t assume "?n \<le> t"
      then show "erc20Balance v t = erc20Balance w t" using E P nu by simp
    next
      fix j assume j: "j < Suc i"
      show "j < length (cash w)" using j E P by (cases "j = i") auto
      show "j < length (managed w)" using j E P by (cases "j = i") auto
      show "j < length amounts" using j o(2) i P by (cases "j = i") auto
      show "(case kind of
               WITHDRAW \<Rightarrow> amounts ! j \<le> cash w ! j \<and> cash v ! j = cash w ! j - amounts ! j
                            \<and> managed v ! j = managed w ! j + amounts ! j
             | DEPOSIT \<Rightarrow> amounts ! j \<le> managed w ! j \<and> cash v ! j = cash w ! j + amounts ! j
                            \<and> managed v ! j = managed w ! j - amounts ! j
             | UPDATE \<Rightarrow> cash v ! j = cash w ! j \<and> managed v ! j = amounts ! j)"
      proof (cases "j = i")
        case True
        then show ?thesis using E cur by (cases kind) auto
      next
        case False
        then have "j < i" using j by simp
        with P have "(case kind of
               WITHDRAW \<Rightarrow> amounts ! j \<le> cash w ! j \<and> cash u ! j = cash w ! j - amounts ! j
                            \<and> managed u ! j = managed w ! j + amounts ! j
             | DEPOSIT \<Rightarrow> amounts ! j \<le> managed w ! j \<and> cash u ! j = cash w ! j + amounts ! j
                            \<and> managed u ! j = managed w ! j - amounts ! j
             | UPDATE \<Rightarrow> cash u ! j = cash w ! j \<and> managed u ! j = amounts ! j)" by blast
        moreover have "cash v ! j = cash u ! j" "managed v ! j = managed u ! j"
          using E False by auto
        ultimately show ?thesis by (cases kind) auto
      qed
    qed
  qed
  then show ?thesis by blast
qed

lemma depositToPool_effect:
  assumes ok: "depositToPool amounts w = Inr w'"
  shows "config w' = config w \<and> guardiansFeeTotal w' = guardiansFeeTotal w
    \<and> length (cash w') = length (cash w) \<and> length (managed w') = length (managed w)
    \<and> (\<forall>k \<ge> numPoolTokens w. cash w' ! k = cash w ! k \<and> managed w' ! k = managed w ! k)
    \<and> (\<forall>t \<ge> numPoolTokens w. erc20Balance w' t = erc20Balance w t)
    \<and> (\<forall>i < numPoolTokens w. cash w' ! i = cash w ! i + amounts ! i \<and> managed w' ! i = 0)"
proof -
  from ok obtain w1 where a: "updatePoolBalance amounts UPDATE w = Inr w1"
    and b: "updatePoolBalance amounts DEPOSIT w1 = Inr w'"
    by (auto simp: depositToPool_def rbind_Inr_iff)
  note A = updatePoolBalance_effect[OF a, simplified]
  note B = updatePoolBalance_effect[OF b, simplified]
  from A have c1: "config w1 = config w" by blast
  have n1: "numPoolTokens w1 = numPoolTokens w" using c1 by (rule config_fields)
  show ?thesis using A B unfolding n1 by auto
qed

lemma withdrawFromPool_effect:
  assumes ok: "withdrawFromPool amounts w = Inr w'"
  shows "config w' = config w \<and> guardiansFeeTotal w' = guardiansFeeTotal w
    \<and> length (cash w') = length (cash w) \<and> length (managed w') = length (managed w)
    \<and> (\<forall>k \<ge> numPoolTokens w. cash w' ! k = cash w ! k \<and> managed w' ! k = managed w ! k)
    \<and> (\<forall>t \<ge> numPoolTokens w. erc20Balance w' t = erc20Balance w t)
    \<and> (\<forall>i < numPoolTokens w. amounts ! i \<le> cash w ! i
          \<and> cash w' ! i = cash w ! i - amounts ! i \<and> managed w' ! i = 0)"
proof -
  from ok obtain w1 where a: "updatePoolBalance amounts WITHDRAW w = Inr w1"
    and b: "updatePoolBalance (replicate (numPoolTokens w) 0) UPDATE w1 = Inr w'"
    by (auto simp: withdrawFromPool_def Let_def rbind_Inr_iff)
  note A = updatePoolBalance_effect[OF a, simplified]
  note B = updatePoolBalance_effect[OF b, simplified]
  from A have c1: "config w1 = config w" by blast
  have n1: "numPoolTokens w1 = numPoolTokens w" using c1 by (rule config_fields)
  show ?thesis using A B unfolding n1 by auto
qed

lemma depositToken_effect:
  assumes ok: "depositToken t a u = Inr (gained, v)" and ov: "owner u \<noteq> vaultAddress u"
  shows "gained = a \<and> config v = config u \<and> guardiansFeeTotal v = guardiansFeeTotal u
    \<and> cash v = cash u \<and> managed v = managed u
    \<and> (\<forall>s. erc20Balance v s (vaultAddress u)
             = erc20Balance u s (vaultAddress u) + (if s = t then a else 0))"
proof -
  from ok obtain w1 where
    t: "safeTransferFrom t (vaultAddress u) (owner u) (vaultAddress u) a u = Inr w1"
    and g: "usub (balanceOf w1 t (vaultAddress w1)) (balanceOf u t (vaultAddress u)) = Inr gained"
    and v: "v = w1"
    by (auto simp: depositToken_def Let_def rbind_Inr_iff)
  from safeTransferFrom_Inr[OF t] obtain al where
    w1: "w1 = u\<lparr>erc20Allowance := al,
              erc20Balance := (erc20Balance u)
               (t := ((erc20Balance u t)(owner u := erc20Balance u t (owner u) - a))
                       (vaultAddress u := ((erc20Balance u t)(owner u := erc20Balance u t (owner u) - a))
                            (vaultAddress u) + a))\<rparr>"
    by blast
  from g ov have "gained = a" by (auto simp: w1 usub_def balanceOf_def split: if_splits)
  then show ?thesis using ov by (auto simp: v w1 config_def)
qed

lemma depositTokens_loop:
  assumes loop: "forM [0..<numTokens w]
              (\<lambda>(depositedAmounts, w1) i.
                 rbind (rd amounts i) (\<lambda>a.
                 if 0 < a then
                   rbind (depositToken i a w1) (\<lambda>(gained, w2).
                   rbind (wr depositedAmounts i gained) (\<lambda>depositedAmounts'.
                   if i < numPoolTokens w then
                     rbind (setAllowance i (bVaultAddress w) gained w2) (\<lambda>w3.
                     Inr (depositedAmounts', w3))
                   else Inr (depositedAmounts', w2)))
                 else Inr (depositedAmounts, w1)))
              (replicate (numTokens w) 0, w) = Inr (deposited, w')"
    and ov: "owner w \<noteq> vaultAddress w"
  shows "config w' = config w \<and> guardiansFeeTotal w' = guardiansFeeTotal w
    \<and> cash w' = cash w \<and> managed w' = managed w
    \<and> length deposited = numTokens w
    \<and> (\<forall>i < numTokens w. deposited ! i = amounts ! i)
    \<and> (\<forall>t. erc20Balance w' t (vaultAddress w)
             = erc20Balance w t (vaultAddress w) + (if t < numTokens w then amounts ! t else 0))"
proof -
  let ?n = "numTokens w"
  let ?P = "\<lambda>k (s :: nat list \<times> world).
      config (snd s) = config w \<and> guardiansFeeTotal (snd s) = guardiansFeeTotal w
    \<and> cash (snd s) = cash w \<and> managed (snd s) = managed w
    \<and> length (fst s) = ?n
    \<and> (\<forall>i < k. fst s ! i = amounts ! i)
    \<and> (\<forall>i \<ge> k. i < ?n \<longrightarrow> fst s ! i = 0)
    \<and> (\<forall>t. erc20Balance (snd s) t (vaultAddress w)
             = erc20Balance w t (vaultAddress w) + (if t < k then amounts ! t else 0))"
  have "?P ?n (deposited, w')"
  proof (rule forM_upt_inv[OF loop, where P = ?P])
    show "0 \<le> ?n" by simp
    show "?P 0 (replicate ?n 0, w)" by simp
  next
    fix i and s s' :: "nat list \<times> world"
    assume i: "0 \<le> i" "i < ?n" and P: "?P i s"
      and step: "(case s of (depositedAmounts, w1) \<Rightarrow> \<lambda>i.
                 rbind (rd amounts i) (\<lambda>a.
                 if 0 < a then
                   rbind (depositToken i a w1) (\<lambda>(gained, w2).
                   rbind (wr depositedAmounts i gained) (\<lambda>depositedAmounts'.
                   if i < numPoolTokens w then
                     rbind (setAllowance i (bVaultAddress w) gained w2) (\<lambda>w3.
                     Inr (depositedAmounts', w3))
                   else Inr (depositedAmounts', w2)))
                 else Inr (depositedAmounts, w1))) i = Inr s'"
    obtain dep u where s: "s = (dep, u)" by (cases s)
    obtain dep' v where s': "s' = (dep', v)" by (cases s')
    from P have cu: "config u = config w" by (simp add: s)
    note fu = config_fields(2,4)[OF cu]
    from step have la: "i < length amounts" by (auto simp: s Inr_iffs)
    show "?P (Suc i) s'"
    proof (cases "0 < amounts ! i")
      case False
      with step la have e: "dep' = dep" "v = u" by (auto simp: s s' rd_def)
      from False have z: "amounts ! i = 0" by simp
      have d0: "dep ! i = 0" using P i by (simp add: s)
      show ?thesis using P z d0 by (auto simp: s s' e less_Suc_eq)
    next
      case True
      from step la True obtain gained u2 where
        d: "depositToken i (amounts ! i) u = Inr (gained, u2)"
        and wr: "i < length dep" "dep' = dep[i := gained]"
        and v: "(if i < numPoolTokens w then setAllowance i (bVaultAddress w) gained u2 else Inr u2) = Inr v"
        by (auto simp: s s' rd_def rbind_Inr_iff wr_Inr_iff split: if_splits prod.splits)
      have ou: "owner u \<noteq> vaultAddress u" using ov fu by simp
      note D = depositToken_effect[OF d ou]
      from v obtain al where v': "v = u2\<lparr>erc20Allowance := al\<rparr>"
      proof (cases "i < numPoolTokens w")
        case True
        with v have "setAllowance i (bVaultAddress w) gained u2 = Inr v" by simp
        from setAllowance_Inr[OF this] that show ?thesis by blast
      next
        case False
        with v have "v = u2\<lparr>erc20Allowance := erc20Allowance u2\<rparr>" by simp
        with that show ?thesis by blast
      qed
      have cv: "config v = config w" using D cu by (simp add: v' config_def)
      show ?thesis
      proof (intro conjI allI impI)
        show "config (snd s') = config w" using cv by (simp add: s')
        show "guardiansFeeTotal (snd s') = guardiansFeeTotal w" using D P by (simp add: s s' v')
        show "cash (snd s') = cash w" using D P by (simp add: s s' v')
        show "managed (snd s') = managed w" using D P by (simp add: s s' v')
        show "length (fst s') = ?n" using P wr by (simp add: s s')
      next
        fix j assume "j < Suc i"
        then show "fst s' ! j = amounts ! j" using P wr D by (cases "j = i") (auto simp: s s')
      next
        fix j assume "Suc i \<le> j" "j < ?n"
        then show "fst s' ! j = 0" using P wr by (simp add: s s')
      next
        fix t
        have "erc20Balance v t (vaultAddress w) = erc20Balance u2 t (vaultAddress w)"
          by (simp add: v')
        also have "\<dots> = erc20Balance u t (vaultAddress w) + (if t = i then amounts ! i else 0)"
          using D fu by simp
        also have "\<dots> = erc20Balance w t (vaultAddress w) + (if t < Suc i then amounts ! t else 0)"
          using P by (auto simp: s less_Suc_eq)
        finally show "erc20Balance (snd s') t (vaultAddress w)
             = erc20Balance w t (vaultAddress w) + (if t < Suc i then amounts ! t else 0)"
          by (simp add: s')
      qed
    qed
  qed
  then show ?thesis by simp
qed

lemma depositTokens_effect:
  assumes ok: "depositTokens amounts w = Inr (deposited, w')"
    and ov: "owner w \<noteq> vaultAddress w"
  shows "config w' = config w \<and> guardiansFeeTotal w' = guardiansFeeTotal w
    \<and> length (cash w') = length (cash w) \<and> length (managed w') = length (managed w)
    \<and> (\<forall>k \<ge> numPoolTokens w. cash w' ! k = cash w ! k \<and> managed w' ! k = managed w ! k)
    \<and> (\<forall>i < numPoolTokens w. cash w' ! i = cash w ! i + amounts ! i \<and> managed w' ! i = 0)
    \<and> (\<forall>t \<ge> numPoolTokens w. erc20Balance w' t (vaultAddress w)
             = erc20Balance w t (vaultAddress w) + (if t < numTokens w then amounts ! t else 0))"
proof -
  from ok obtain w1 poolAmounts where
    loop: "forM [0..<numTokens w]
              (\<lambda>(depositedAmounts, w1) i.
                 rbind (rd amounts i) (\<lambda>a.
                 if 0 < a then
                   rbind (depositToken i a w1) (\<lambda>(gained, w2).
                   rbind (wr depositedAmounts i gained) (\<lambda>depositedAmounts'.
                   if i < numPoolTokens w then
                     rbind (setAllowance i (bVaultAddress w) gained w2) (\<lambda>w3.
                     Inr (depositedAmounts', w3))
                   else Inr (depositedAmounts', w2)))
                 else Inr (depositedAmounts, w1)))
              (replicate (numTokens w) 0, w) = Inr (deposited, w1)"
    and pa: "getPoolTokenValues w1 deposited = Inr poolAmounts"
    and dp: "depositToPool poolAmounts w1 = Inr w'"
    by (auto simp: depositTokens_def rbind_Inr_iff split: prod.splits)
  note L = depositTokens_loop[OF loop ov]
  from L have c1: "config w1 = config w" by blast
  note f1 = config_fields(2,5)[OF c1]
  from pa have p: "\<And>i. i < numPoolTokens w \<Longrightarrow> poolAmounts ! i = deposited ! i"
    by (auto simp: getPoolTokenValues_def mapM_upt_Inr_iff f1 Inr_iffs)
  have q: "poolAmounts ! i = amounts ! i" if "i < numPoolTokens w" for i
    using p[OF that] L that by (simp add: numTokens_def)
  note D = depositToPool_effect[OF dp]
  show ?thesis using L D q unfolding f1 by auto
qed

lemma forM_same_on:
  assumes "forM xs f s = Inr t" and "\<And>u i v. i \<in> set xs \<Longrightarrow> f u i = Inr v \<Longrightarrow> g v = g u"
  shows "g t = g s"
  using assms
proof (induction xs arbitrary: s)
  case Nil
  then show ?case by simp
next
  case (Cons x xs)
  from Cons.prems(1) obtain s1 where s1: "f s x = Inr s1" and rest: "forM xs f s1 = Inr t"
    by (auto simp: rbind_Inr_iff)
  have "g t = g s1" by (rule Cons.IH[OF rest]) (use Cons.prems(2) in auto)
  also have "g s1 = g s" by (rule Cons.prems(2)[OF _ s1]) simp
  finally show ?case .
qed

lemma updatePoolWeights_Inr:
  assumes "updatePoolWeights weights weightSum w = Inr w'"
  shows "\<exists>pw ps. w' = w\<lparr>poolWeights := pw, poolSchedule := ps\<rparr>"
proof -
  from assms obtain s e ts ws where p: "pool_updateWeightsGradually s e ts ws w = Inr w'"
    by (auto simp: updatePoolWeights_def rbind_Inr_iff)
  show ?thesis
  proof (cases "e \<le> blockTimestamp w")
    case True
    with p have "w' = w\<lparr>poolWeights := ws, poolSchedule := None\<rparr>"
      by (auto simp: pool_updateWeightsGradually_def split: if_splits)
    then show ?thesis by blast
  next
    case False
    with p have "w' = w\<lparr>poolWeights := poolWeights w,
                         poolSchedule := Some (max (blockTimestamp w) s, e, ws)\<rparr>"
      by (auto simp: pool_updateWeightsGradually_def split: if_splits)
    then show ?thesis by blast
  qed
qed

lemma depositTokensAndUpdateWeights_effect:
  assumes ok: "depositTokensAndUpdateWeights tokenWithAmount priceType w = Inr w'"
    and fee: "managementFee w = 0"
    and ov: "owner w \<noteq> vaultAddress w"
  shows "config w' = config w \<and> guardiansFeeTotal w' = guardiansFeeTotal w
    \<and> length (cash w') = length (cash w) \<and> length (managed w') = length (managed w)
    \<and> (\<forall>k \<ge> numPoolTokens w. cash w' ! k = cash w ! k \<and> managed w' ! k = managed w ! k)
    \<and> (\<forall>i < numPoolTokens w.
          cash w' ! i = cash w ! i + snd (tokenWithAmount ! i) \<and> managed w' ! i = 0)
    \<and> (\<forall>t \<ge> numPoolTokens w. erc20Balance w' t (vaultAddress w)
          = erc20Balance w t (vaultAddress w) + (if t < numTokens w then snd (tokenWithAmount ! t) else 0))"
proof -
  from ok obtain poolTokens amounts newBalances w1 weights weightSum w2 normalized newBalances' where
    v: "getValuesFromTokenWithValues w tokenWithAmount poolTokens = Inr amounts"
    and d: "depositTokens amounts w = Inr (newBalances, w1)"
    and u: "updatePoolWeights weights weightSum w1 = Inr w2"
    and w': "w' = emit (Deposit amounts newBalances' normalized) w2"
    unfolding depositTokensAndUpdateWeights_def lockGuardianFees_no_fee[OF fee]
    by (auto simp: rbind_Inr_iff split: prod.splits)
  note V = getValuesFromTokenWithValues_snd[OF v]
  note D = depositTokens_effect[OF d ov]
  from updatePoolWeights_Inr[OF u] obtain pw ps where
    w2: "w2 = w1\<lparr>poolWeights := pw, poolSchedule := ps\<rparr>" by blast
  have e: "config w' = config w1" "guardiansFeeTotal w' = guardiansFeeTotal w1"
    "cash w' = cash w1" "managed w' = managed w1" "erc20Balance w' = erc20Balance w1"
    by (simp_all add: w' w2 emit_def config_def)
  have a: "amounts ! i = snd (tokenWithAmount ! i)" if "i < numTokens w" for i
    using V that by blast
  have ap: "amounts ! i = snd (tokenWithAmount ! i)" if "i < numPoolTokens w" for i
    using a[of i] that by (simp add: numTokens_def)
  show ?thesis unfolding e using D a ap by auto
qed

lemma safeTransfer_books_pool:
  assumes "safeTransfer t a b x u = Inr v" and "t < numPoolTokens u"
  shows "books v = books u"
  using assms by (auto simp: safeTransfer_Inr_iff books_def config_def fun_eq_iff)

lemma withdraw_pool_loop_books:
  assumes loop: "forM [0..<numPoolTokens w]
              (\<lambda>(weights, balances, weightSum, w2) i.
                 rbind (rd amounts i) (\<lambda>a.
                 rbind (if 0 < a then
                          rbind (rd balances i) (\<lambda>b0.
                          rbind (usub (balanceOf w2 i (vaultAddress w2)) b0) (\<lambda>b.
                          rbind (wr balances i b) (\<lambda>balances'.
                          rbind (safeTransfer i (vaultAddress w2) (owner w2) b w2) (\<lambda>w3.
                          rbind (rd weights i) (\<lambda>wt.
                          rbind (rd holdings i) (\<lambda>h.
                          rbind (usub h a) (\<lambda>rest.
                          rbind (umul wt rest) (\<lambda>m.
                          rbind (udiv m h) (\<lambda>q.
                          rbind (wr weights i q) (\<lambda>weights'.
                          Inr (weights', balances', w3)))))))))))
                        else Inr (weights, balances, w2)) (\<lambda>(weights', balances', w3).
                 rbind (rd weights' i) (\<lambda>wt.
                 rbind (uadd weightSum wt) (\<lambda>weightSum'.
                 Inr (weights', balances', weightSum', w3))))))
              (weights0, balances0, 0, w1) = Inr (weights, balances1, weightSum, w2)"
    and c: "config w1 = config w"
  shows "books w2 = books w1"
proof -
  let ?P = "\<lambda>(k :: nat) (s :: nat list \<times> nat list \<times> nat \<times> world).
              books (snd (snd (snd s))) = books w1"
  have "?P (numPoolTokens w) (weights, balances1, weightSum, w2)"
  proof (rule forM_upt_inv[OF loop, where P = ?P])
    show "0 \<le> numPoolTokens w" by simp
    show "?P 0 (weights0, balances0, 0, w1)" by simp
  next
    fix i and s s' :: "nat list \<times> nat list \<times> nat \<times> world"
    assume i: "0 \<le> i" "i < numPoolTokens w" and P: "?P i s"
      and step: "(case s of (weights, balances, weightSum, w2) \<Rightarrow> \<lambda>i.
                 rbind (rd amounts i) (\<lambda>a.
                 rbind (if 0 < a then
                          rbind (rd balances i) (\<lambda>b0.
                          rbind (usub (balanceOf w2 i (vaultAddress w2)) b0) (\<lambda>b.
                          rbind (wr balances i b) (\<lambda>balances'.
                          rbind (safeTransfer i (vaultAddress w2) (owner w2) b w2) (\<lambda>w3.
                          rbind (rd weights i) (\<lambda>wt.
                          rbind (rd holdings i) (\<lambda>h.
                          rbind (usub h a) (\<lambda>rest.
                          rbind (umul wt rest) (\<lambda>m.
                          rbind (udiv m h) (\<lambda>q.
                          rbind (wr weights i q) (\<lambda>weights'.
                          Inr (weights', balances', w3)))))))))))
                        else Inr (weights, balances, w2)) (\<lambda>(weights', balances', w3).
                 rbind (rd weights' i) (\<lambda>wt.
                 rbind (uadd weightSum wt) (\<lambda>weightSum'.
                 Inr (weights', balances', weightSum', w3)))))) i = Inr s'"
    obtain ws bs sm u where s: "s = (ws, bs, sm, u)" by (cases s) auto
    obtain ws' bs' sm' v where s': "s' = (ws', bs', sm', v)" by (cases s') auto
    from P have bu: "books u = books w1" by (simp add: s)
    have nu: "numPoolTokens u = numPoolTokens w"
      using config_fields(5)[OF books_fields(1)[OF bu]] config_fields(5)[OF c] by simp
    from step have "v = u \<or> (\<exists>b. safeTransfer i (vaultAddress u) (owner u) b u = Inr v)"
      by (auto simp: s s' rbind_Inr_iff split: if_splits prod.splits)
    then have "books v = books u"
    proof
      assume "v = u" then show ?thesis by simp
    next
      assume "\<exists>b. safeTransfer i (vaultAddress u) (owner u) b u = Inr v"
      then obtain b where "safeTransfer i (vaultAddress u) (owner u) b u = Inr v" by blast
      then show ?thesis by (rule safeTransfer_books_pool) (use i nu in simp)
    qed
    then show "?P (Suc i) s'" using bu by (simp add: s')
  qed
  then show ?thesis by simp
qed

lemma withdraw_yield_loop:
  assumes loop: "forM [0..<numYieldTokens w]
              (\<lambda>(balances, w3) i.
                 rbind (rd amounts (numPoolTokens w + i)) (\<lambda>a.
                 if 0 < a then
                   rbind (rd (isWithdrawable w) i) (\<lambda>withdrawable.
                   if withdrawable then
                     rbind (wr balances (numPoolTokens w + i) a) (\<lambda>balances'.
                     rbind (safeTransfer (numPoolTokens w + i) (vaultAddress w3) (owner w3) a w3) (\<lambda>w4.
                     Inr (balances', w4)))
                   else
                     rbind (rd (underlyingIndexes w) i) (\<lambda>underlyingIndex.
                     rbind (rd poolTokens underlyingIndex) (\<lambda>_.
                     rbind (rd oraclePrices underlyingIndex) (\<lambda>price.
                     rbind (withdrawUnderlyingAsset i a price underlyingIndex w3) (\<lambda>(gained, w4).
                     rbind (wr balances (numPoolTokens w + i) gained) (\<lambda>balances'.
                     rbind (safeTransfer underlyingIndex (vaultAddress w4) (owner w4) gained w4) (\<lambda>w5.
                     Inr (balances', w5))))))))
                 else Inr (balances, w3)))
              (balances1, w2) = Inr (balances, w3)"
    and c: "config w2 = config w"
    and ov: "owner w \<noteq> vaultAddress w"
    and direct: "\<forall>j < numYieldTokens w. \<not> isWithdrawable w ! j \<longrightarrow> amounts ! (numPoolTokens w + j) = 0"
  shows "config w3 = config w \<and> guardiansFeeTotal w3 = guardiansFeeTotal w2
    \<and> cash w3 = cash w2 \<and> managed w3 = managed w2
    \<and> (\<forall>j < numYieldTokens w.
          amounts ! (numPoolTokens w + j) \<le> erc20Balance w2 (numPoolTokens w + j) (vaultAddress w)
          \<and> erc20Balance w3 (numPoolTokens w + j) (vaultAddress w)
               = erc20Balance w2 (numPoolTokens w + j) (vaultAddress w) - amounts ! (numPoolTokens w + j))
    \<and> (\<forall>j \<ge> numYieldTokens w.
          erc20Balance w3 (numPoolTokens w + j) (vaultAddress w)
            = erc20Balance w2 (numPoolTokens w + j) (vaultAddress w))"
proof -
  let ?np = "numPoolTokens w" and ?V = "vaultAddress w"
  let ?P = "\<lambda>k (s :: nat list \<times> world).
      config (snd s) = config w \<and> guardiansFeeTotal (snd s) = guardiansFeeTotal w2
    \<and> cash (snd s) = cash w2 \<and> managed (snd s) = managed w2
    \<and> (\<forall>j < k. amounts ! (?np + j) \<le> erc20Balance w2 (?np + j) ?V
          \<and> erc20Balance (snd s) (?np + j) ?V = erc20Balance w2 (?np + j) ?V - amounts ! (?np + j))
    \<and> (\<forall>j \<ge> k. erc20Balance (snd s) (?np + j) ?V = erc20Balance w2 (?np + j) ?V)"
  have "?P (numYieldTokens w) (balances, w3)"
  proof (rule forM_upt_inv[OF loop, where P = ?P])
    show "0 \<le> numYieldTokens w" by simp
    show "?P 0 (balances1, w2)" using c by simp
  next
    fix i and s s' :: "nat list \<times> world"
    assume i: "0 \<le> i" "i < numYieldTokens w" and P: "?P i s"
      and step: "(case s of (balances, w3) \<Rightarrow> \<lambda>i.
                 rbind (rd amounts (numPoolTokens w + i)) (\<lambda>a.
                 if 0 < a then
                   rbind (rd (isWithdrawable w) i) (\<lambda>withdrawable.
                   if withdrawable then
                     rbind (wr balances (numPoolTokens w + i) a) (\<lambda>balances'.
                     rbind (safeTransfer (numPoolTokens w + i) (vaultAddress w3) (owner w3) a w3) (\<lambda>w4.
                     Inr (balances', w4)))
                   else
                     rbind (rd (underlyingIndexes w) i) (\<lambda>underlyingIndex.
                     rbind (rd poolTokens underlyingIndex) (\<lambda>_.
                     rbind (rd oraclePrices underlyingIndex) (\<lambda>price.
                     rbind (withdrawUnderlyingAsset i a price underlyingIndex w3) (\<lambda>(gained, w4).
                     rbind (wr balances (numPoolTokens w + i) gained) (\<lambda>balances'.
                     rbind (safeTransfer underlyingIndex (vaultAddress w4) (owner w4) gained w4) (\<lambda>w5.
                     Inr (balances', w5))))))))
                 else Inr (balances, w3))) i = Inr s'"
    obtain bs u where s: "s = (bs, u)" by (cases s)
    obtain bs' v where s': "s' = (bs', v)" by (cases s')
    from P have cu: "config u = config w" by (simp add: s)
    note fu = config_fields(2,4)[OF cu]
    from P have cur: "erc20Balance u (?np + i) ?V = erc20Balance w2 (?np + i) ?V" by (simp add: s)
    show "?P (Suc i) s'"
    proof (cases "0 < amounts ! (?np + i)")
      case False
      with step have e: "v = u" by (auto simp: s s' Inr_iffs)
      from False have z: "amounts ! (?np + i) = 0" by simp
      show ?thesis using P z by (auto simp: s s' e less_Suc_eq)
    next
      case True
      with direct i have wd: "isWithdrawable w ! i" by auto
      from step True wd have t: "safeTransfer (?np + i) ?V (owner w) (amounts ! (?np + i)) u = Inr v"
        by (auto simp: s s' Inr_iffs fu split: if_splits)
      from t have le: "amounts ! (?np + i) \<le> erc20Balance u (?np + i) ?V"
        and v: "v = u\<lparr>erc20Balance := (erc20Balance u)
               (?np + i := ((erc20Balance u (?np + i))(?V := erc20Balance u (?np + i) ?V - amounts ! (?np + i)))
                       (owner w := ((erc20Balance u (?np + i))(?V := erc20Balance u (?np + i) ?V - amounts ! (?np + i)))
                            (owner w) + amounts ! (?np + i)))\<rparr>"
        by (simp_all add: safeTransfer_Inr_iff)
      have cv: "config v = config w" using cu by (simp add: v config_def)
      show ?thesis
      proof (intro conjI allI impI)
        show "config (snd s') = config w" using cv by (simp add: s')
        show "guardiansFeeTotal (snd s') = guardiansFeeTotal w2" using P by (simp add: s s' v)
        show "cash (snd s') = cash w2" using P by (simp add: s s' v)
        show "managed (snd s') = managed w2" using P by (simp add: s s' v)
      next
        fix j assume j: "j < Suc i"
        show "amounts ! (?np + j) \<le> erc20Balance w2 (?np + j) ?V"
          using j P le cur by (cases "j = i") (auto simp: s)
        show "erc20Balance (snd s') (?np + j) ?V = erc20Balance w2 (?np + j) ?V - amounts ! (?np + j)"
          using j P cur ov by (cases "j = i") (auto simp: s s' v)
      next
        fix j assume "Suc i \<le> j"
        then have "j \<noteq> i" "i \<le> j" by simp_all
        then show "erc20Balance (snd s') (?np + j) ?V = erc20Balance w2 (?np + j) ?V"
          using P by (simp add: s s' v)
      qed
    qed
  qed
  then show ?thesis by simp
qed

lemma withdrawTokens_effect:
  assumes ok: "withdrawTokens tokenWithAmount w = Inr w'"
    and fee: "managementFee w = 0"
    and ov: "owner w \<noteq> vaultAddress w"
    and direct: "\<forall>j < numYieldTokens w. \<not> isWithdrawable w ! j
                   \<longrightarrow> snd (tokenWithAmount ! (numPoolTokens w + j)) = 0"
  shows "config w' = config w \<and> guardiansFeeTotal w' = guardiansFeeTotal w
    \<and> length (cash w') = length (cash w) \<and> length (managed w') = length (managed w)
    \<and> (\<forall>k \<ge> numPoolTokens w. cash w' ! k = cash w ! k \<and> managed w' ! k = managed w ! k)
    \<and> (\<forall>i < numPoolTokens w.
          snd (tokenWithAmount ! i) \<le> cash w ! i
          \<and> cash w' ! i = cash w ! i - snd (tokenWithAmount ! i) \<and> managed w' ! i = 0)
    \<and> (\<forall>j < numYieldTokens w.
          snd (tokenWithAmount ! (numPoolTokens w + j))
            \<le> erc20Balance w (numPoolTokens w + j) (vaultAddress w)
          \<and> erc20Balance w' (numPoolTokens w + j) (vaultAddress w)
               = erc20Balance w (numPoolTokens w + j) (vaultAddress w)
                 - snd (tokenWithAmount ! (numPoolTokens w + j)))
    \<and> (\<forall>j \<ge> numYieldTokens w.
          erc20Balance w' (numPoolTokens w + j) (vaultAddress w)
            = erc20Balance w (numPoolTokens w + j) (vaultAddress w))"
proof -
  let ?np = "numPoolTokens w" and ?V = "vaultAddress w"
  from ok obtain poolTokens holdings amounts oraclePrices balances0 poolAmounts w1
      weights balances1 weightSum w2 balances w3 w4 normalized where
    v: "getValuesFromTokenWithValues w tokenWithAmount poolTokens = Inr amounts"
    and pa: "getPoolTokenValues w amounts = Inr poolAmounts"
    and wp: "withdrawFromPool poolAmounts w = Inr w1"
    and l5: "forM [0..<numPoolTokens w]
              (\<lambda>(weights, balances, weightSum, w2) i.
                 rbind (rd amounts i) (\<lambda>a.
                 rbind (if 0 < a then
                          rbind (rd balances i) (\<lambda>b0.
                          rbind (usub (balanceOf w2 i (vaultAddress w2)) b0) (\<lambda>b.
                          rbind (wr balances i b) (\<lambda>balances'.
                          rbind (safeTransfer i (vaultAddress w2) (owner w2) b w2) (\<lambda>w3.
                          rbind (rd weights i) (\<lambda>wt.
                          rbind (rd holdings i) (\<lambda>h.
                          rbind (usub h a) (\<lambda>rest.
                          rbind (umul wt rest) (\<lambda>m.
                          rbind (udiv m h) (\<lambda>q.
                          rbind (wr weights i q) (\<lambda>weights'.
                          Inr (weights', balances', w3)))))))))))
                        else Inr (weights, balances, w2)) (\<lambda>(weights', balances', w3).
                 rbind (rd weights' i) (\<lambda>wt.
                 rbind (uadd weightSum wt) (\<lambda>weightSum'.
                 Inr (weights', balances', weightSum', w3))))))
              (pool_getNormalizedWeights w, balances0, 0, w1) = Inr (weights, balances1, weightSum, w2)"
    and l6: "forM [0..<numYieldTokens w]
              (\<lambda>(balances, w3) i.
                 rbind (rd amounts (numPoolTokens w + i)) (\<lambda>a.
                 if 0 < a then
                   rbind (rd (isWithdrawable w) i) (\<lambda>withdrawable.
                   if withdrawable then
                     rbind (wr balances (numPoolTokens w + i) a) (\<lambda>balances'.
                     rbind (safeTransfer (numPoolTokens w + i) (vaultAddress w3) (owner w3) a w3) (\<lambda>w4.
                     Inr (balances', w4)))
                   else
                     rbind (rd (underlyingIndexes w) i) (\<lambda>underlyingIndex.
                     rbind (rd poolTokens underlyingIndex) (\<lambda>_.
                     rbind (rd oraclePrices underlyingIndex) (\<lambda>price.
                     rbind (withdrawUnderlyingAsset i a price underlyingIndex w3) (\<lambda>(gained, w4).
                     rbind (wr balances (numPoolTokens w + i) gained) (\<lambda>balances'.
                     rbind (safeTransfer underlyingIndex (vaultAddress w4) (owner w4) gained w4) (\<lambda>w5.
                     Inr (balances', w5))))))))
                 else Inr (balances, w3)))
              (balances1, w2) = Inr (balances, w3)"
    and u: "updatePoolWeights weights weightSum w3 = Inr w4"
    and w': "w' = emit (Withdraw amounts balances normalized) w4"
    unfolding withdrawTokens_def lockGuardianFees_no_fee[OF fee]
    by (auto simp: rbind_Inr_iff split: prod.splits)
  note V = getValuesFromTokenWithValues_snd[OF v]
  have a: "amounts ! i = snd (tokenWithAmount ! i)" if "i < numTokens w" for i
    using V that by blast
  have ap: "amounts ! i = snd (tokenWithAmount ! i)" if "i < ?np" for i
    using a[of i] that by (simp add: numTokens_def)
  have ay: "amounts ! (?np + j) = snd (tokenWithAmount ! (?np + j))" if "j < numYieldTokens w" for j
    using a[of "?np + j"] that by (simp add: numTokens_def)
  from pa have p: "\<And>i. i < ?np \<Longrightarrow> poolAmounts ! i = amounts ! i"
    by (auto simp: getPoolTokenValues_def mapM_upt_Inr_iff Inr_iffs)
  note W = withdrawFromPool_effect[OF wp]
  from W have c1: "config w1 = config w" by blast
  note f1 = config_fields(2,5)[OF c1]
  note B = books_fields[OF withdraw_pool_loop_books[OF l5 c1]]
  have c2: "config w2 = config w" using B(1) c1 by simp
  have direct': "\<forall>j < numYieldTokens w. \<not> isWithdrawable w ! j \<longrightarrow> amounts ! (?np + j) = 0"
    using direct ay by simp
  note Y = withdraw_yield_loop[OF l6 c2 ov direct']
  from updatePoolWeights_Inr[OF u] obtain pw ps where
    w4: "w4 = w3\<lparr>poolWeights := pw, poolSchedule := ps\<rparr>" by blast
  have e: "config w' = config w3" "guardiansFeeTotal w' = guardiansFeeTotal w3"
    "cash w' = cash w3" "managed w' = managed w3" "erc20Balance w' = erc20Balance w3"
    by (simp_all add: w' w4 emit_def config_def)
  have y2: "erc20Balance w2 (?np + j) ?V = erc20Balance w (?np + j) ?V" for j
    using B(5)[of "?np + j"] W unfolding f1 by simp
  show ?thesis
  proof (intro conjI allI impI)
    show "config w' = config w" using Y e by simp
    show "guardiansFeeTotal w' = guardiansFeeTotal w" using Y B W e by simp
    show "length (cash w') = length (cash w)" using Y B W e by simp
    show "length (managed w') = length (managed w)" using Y B W e by simp
  next
    fix k assume "?np \<le> k"
    then show "cash w' ! k = cash w ! k" "managed w' ! k = managed w ! k" using Y B W e by simp_all
  next
    fix i assume i: "i < ?np"
    with W have "poolAmounts ! i \<le> cash w ! i" "cash w1 ! i = cash w ! i - poolAmounts ! i"
      "managed w1 ! i = 0" by blast+
    then show "snd (tokenWithAmount ! i) \<le> cash w ! i"
      "cash w' ! i = cash w ! i - snd (tokenWithAmount ! i)" "managed w' ! i = 0"
      using Y B e p[OF i] ap[OF i] by simp_all
  next
    fix j assume j: "j < numYieldTokens w"
    with Y have "amounts ! (?np + j) \<le> erc20Balance w2 (?np + j) ?V"
      "erc20Balance w3 (?np + j) ?V = erc20Balance w2 (?np + j) ?V - amounts ! (?np + j)" by blast+
    then show "snd (tokenWithAmount ! (?np + j)) \<le> erc20Balance w (?np + j) ?V"
      "erc20Balance w' (?np + j) ?V
         = erc20Balance w (?np + j) ?V - snd (tokenWithAmount ! (?np + j))"
      using y2 ay[OF j] e by simp_all
  next
    fix j assume "numYieldTokens w \<le> j"
    with Y have "erc20Balance w3 (?np + j) ?V = erc20Balance w2 (?np + j) ?V" by blast
    then show "erc20Balance w' (?np + j) ?V = erc20Balance w (?np + j) ?V"
      using y2 e by simp
  qed
qed

lemma deposit_then_withdraw_books:
  assumes fee: "managementFee w = 0"
    and mz: "\<forall>i < numPoolTokens w. managed w ! i = 0"
    and ov: "owner w \<noteq> vaultAddress w"
    and direct: "\<forall>j < numYieldTokens w. \<not> isWithdrawable w ! j
                   \<longrightarrow> snd (tokenWithAmount ! (numPoolTokens w + j)) = 0"
    and d: "depositTokensAndUpdateWeights tokenWithAmount priceType w = Inr w1"
    and wd: "withdrawTokens tokenWithAmount w1 = Inr w2"
  shows "books w2 = books w"
proof -
  let ?np = "numPoolTokens w" and ?V = "vaultAddress w"
  note D = depositTokensAndUpdateWeights_effect[OF d fee ov]
  from D have c1: "config w1 = config w" by blast
  note f1 = config_fields(2,4,5,6,8,11,24)[OF c1]
  have fee1: "managementFee w1 = 0" using fee f1 by simp
  have ov1: "owner w1 \<noteq> vaultAddress w1" using ov f1 by simp
  have direct1: "\<forall>j < numYieldTokens w1. \<not> isWithdrawable w1 ! j
                   \<longrightarrow> snd (tokenWithAmount ! (numPoolTokens w1 + j)) = 0"
    using direct f1 by simp
  note W = withdrawTokens_effect[OF wd fee1 ov1 direct1, unfolded f1]
  show ?thesis
  proof (rule booksI)
    show "config w2 = config w" using W c1 by simp
    show "guardiansFeeTotal w2 = guardiansFeeTotal w" using W D by simp
    show "cash w2 = cash w"
    proof (rule nth_equalityI)
      show "length (cash w2) = length (cash w)" using W D by simp
      fix i assume "i < length (cash w2)"
      show "cash w2 ! i = cash w ! i"
      proof (cases "i < ?np")
        case True
        with W D have "cash w2 ! i = cash w1 ! i - snd (tokenWithAmount ! i)"
          "cash w1 ! i = cash w ! i + snd (tokenWithAmount ! i)" by blast+
        then show ?thesis by simp
      next
        case False
        then have "?np \<le> i" by simp
        with W D have "cash w2 ! i = cash w1 ! i" "cash w1 ! i = cash w ! i" by blast+
        then show ?thesis by simp
      qed
    qed
    show "managed w2 = managed w"
    proof (rule nth_equalityI)
      show "length (managed w2) = length (managed w)" using W D by simp
      fix i assume "i < length (managed w2)"
      show "managed w2 ! i = managed w ! i"
      proof (cases "i < ?np")
        case True
        with W mz show ?thesis by simp
      next
        case False
        then have "?np \<le> i" by simp
        with W D have "managed w2 ! i = managed w1 ! i" "managed w1 ! i = managed w ! i" by blast+
        then show ?thesis by simp
      qed
    qed
  next
    fix t assume t: "?np \<le> t"
    define j where "j = t - ?np"
    have tj: "t = ?np + j" using t by (simp add: j_def)
    from D t have d1: "erc20Balance w1 t ?V
          = erc20Balance w t ?V + (if t < numTokens w then snd (tokenWithAmount ! t) else 0)"
      by blast
    show "erc20Balance w2 t ?V = erc20Balance w t ?V"
    proof (cases "j < numYieldTokens w")
      case True
      then have lt: "t < numTokens w" by (simp add: tj numTokens_def)
      from W True have "erc20Balance w2 (?np + j) ?V
               = erc20Balance w1 (?np + j) ?V - snd (tokenWithAmount ! (?np + j))" by blast
      then show ?thesis using d1 lt by (simp add: tj)
    next
      case False
      then have ge: "\<not> t < numTokens w" by (simp add: tj numTokens_def)
      from False have "numYieldTokens w \<le> j" by simp
      with W have "erc20Balance w2 (?np + j) ?V = erc20Balance w1 (?np + j) ?V" by blast
      then show ?thesis using d1 ge by (simp add: tj)
    qed
  qed
qed

lemma deposit_Inr:
  "deposit sender tokenWithAmount w = Inr w' \<Longrightarrow>
   depositTokensAndUpdateWeights tokenWithAmount DETERMINED w = Inr w'"
  by (auto simp: deposit_def onlyOwner_def whenInitialized_def whenNotFinalized_def rbind_Inr_iff
           split: if_splits)

lemma depositRiskingArbitrage_Inr:
  "depositRiskingArbitrage sender tokenWithAmount w = Inr w' \<Longrightarrow>
   depositTokensAndUpdateWeights tokenWithAmount SPOT w = Inr w'"
  by (auto simp: depositRiskingArbitrage_def onlyOwner_def whenInitialized_def whenNotFinalized_def
                 rbind_Inr_iff split: if_splits)

lemma withdraw_Inr:
  "withdraw sender tokenWithAmount w = Inr w' \<Longrightarrow> withdrawTokens tokenWithAmount w = Inr w'"
  by (auto simp: withdraw_def onlyOwner_def whenInitialized_def whenNotFinalized_def rbind_Inr_iff
           split: if_splits)

lemma deposit_then_withdraw_holdings:
  assumes "managementFee w = 0"
    and "\<forall>i < numPoolTokens w. managed w ! i = 0"
    and "owner w \<noteq> vaultAddress w"
    and "\<forall>j < numYieldTokens w. \<not> isWithdrawable w ! j
           \<longrightarrow> snd (tokenWithAmount ! (numPoolTokens w + j)) = 0"
    and "deposit sender tokenWithAmount w = Inr w1
         \<or> depositRiskingArbitrage sender tokenWithAmount w = Inr w1"
    and "withdraw sender tokenWithAmount w1 = Inr w2"
  shows "getHoldings w2 = getHoldings w"
proof -
  from assms(5) obtain priceType where
    d: "depositTokensAndUpdateWeights tokenWithAmount priceType w = Inr w1"
    using deposit_Inr depositRiskingArbitrage_Inr by blast
  have wd: "withdrawTokens tokenWithAmount w1 = Inr w2" using assms(6) by (rule withdraw_Inr)
  show ?thesis
    by (rule getHoldings_books) (rule deposit_then_withdraw_books[OF assms(1-4) d wd])
qed

text \<open>
  C3 (as amended). On a vault with \<open>managementFee = 0\<close>, whose pool has no managed
  balance, and whose owner is not the vault contract, a successful deposit of the amounts
  \<open>A\<close> (by \<open>deposit\<close> or \<open>depositRiskingArbitrage\<close>) followed by a successful withdrawal of
  the same amounts leaves \<open>getHoldings\<close> as it was before the deposit, provided the amount
  of every yield token that is not directly withdrawable is zero.
\<close>

theorem deposit_then_withdraw_restores_holdings:
  assumes "managementFee w = 0"
    and "\<forall>i < numPoolTokens w. managed w ! i = 0"
    and "owner w \<noteq> vaultAddress w"
    and "\<forall>j < numYieldTokens w. \<not> isWithdrawable w ! j
           \<longrightarrow> snd (tokenWithAmount ! (numPoolTokens w + j)) = 0"
    and "deposit sender tokenWithAmount w = Inr w1
         \<or> depositRiskingArbitrage sender tokenWithAmount w = Inr w1"
    and "withdraw sender tokenWithAmount w1 = Inr w2"
  shows "getHoldings w2 = getHoldings w"
  using assms by (rule deposit_then_withdraw_holdings)

section \<open>The staleness gate on deposits\<close>

lemma getDeterminedPrices_type:
  assumes "getDeterminedPrices w amounts = Inr (prices, priceType)"
  shows "priceType = ORACLE \<or> priceType = SPOT"
  using assms unfolding getDeterminedPrices_def
  by (auto simp: rbind_Inr_iff split: prod.splits if_splits)

lemma deposit_stale_priced_at_spot:
  assumes i: "i < numOracles w" "i \<noteq> numeraireAssetIndex w"
    and stale: "maxOracleDelay w < blockTimestamp w - oUpdatedAt (oracles w ! i)"
    and ok: "deposit sender tokenWithAmount w = Inr w'"
  shows "\<exists>w1 poolTokens amounts prices.
           lockGuardianFees False w = Inr w1
           \<and> getValuesFromTokenWithValues w1 tokenWithAmount poolTokens = Inr amounts
           \<and> getDeterminedPrices w1 amounts = Inr (prices, SPOT)"
proof -
  from deposit_Inr[OF ok] obtain w1 poolTokens amounts prices priceType where
    l: "lockGuardianFees False w = Inr w1"
    and v: "getValuesFromTokenWithValues w1 tokenWithAmount poolTokens = Inr amounts"
    and g: "getDeterminedPrices w1 amounts = Inr (prices, priceType)"
    unfolding depositTokensAndUpdateWeights_def
    by (auto simp: rbind_Inr_iff split: prod.splits)
  note f = config_fields(1,5,7,20,22)[OF lockGuardianFees_config[OF l]]
  have "getDeterminedPrices w1 amounts \<noteq> Inr (prices, ORACLE)"
    by (rule getDeterminedPrices_stale_not_oracle) (use i stale f in \<open>simp_all add: numOracles_def\<close>)
  with g getDeterminedPrices_type[OF g] have "priceType = SPOT" by auto
  with l v g show ?thesis by blast
qed

text \<open>
  C7. \<open>checkOracleStatus\<close> fails with \<open>OraclesAreDisabled\<close> whenever the oracles are
  disabled. When they are enabled and some non-numeraire slot \<open>i\<close> has
  \<open>now - updatedAt[i] > maxOracleDelay\<close>, it fails with \<open>OracleIsDelayedBeyondMax\<close>, reporting
  the first such slot (update times are block times, so none lies after \<open>now\<close>). Whenever a
  non-numeraire price feed is older than \<open>maxOracleDelay\<close>, whatever its price,
  \<open>enableTradingWithOraclePrice\<close> does not succeed, \<open>getDeterminedPrices\<close>, which prices
  every deposit, never selects oracle pricing, and a \<open>deposit\<close> that succeeds has been
  priced at spot.
\<close>

theorem oracle_staleness_gate:
  "(\<not> oraclesEnabled w \<longrightarrow> checkOracleStatus w updatedAt = Inl Mammon__OraclesAreDisabled)
   \<and> (oraclesEnabled w \<and> numOracles w \<le> length updatedAt
        \<and> (\<forall>j < numOracles w. j \<noteq> numeraireAssetIndex w \<longrightarrow> updatedAt ! j \<le> blockTimestamp w)
        \<and> i < numOracles w \<and> i \<noteq> numeraireAssetIndex w
        \<and> maxOracleDelay w < blockTimestamp w - updatedAt ! i
      \<longrightarrow> (\<exists>k \<le> i. k \<noteq> numeraireAssetIndex w
              \<and> maxOracleDelay w < blockTimestamp w - updatedAt ! k
              \<and> checkOracleStatus w updatedAt
                  = Inl (Mammon__OracleIsDelayedBeyondMax k (blockTimestamp w - updatedAt ! k)
                           (maxOracleDelay w))))
   \<and> (i < numOracles w \<and> i \<noteq> numeraireAssetIndex w
        \<and> maxOracleDelay w < blockTimestamp w - oUpdatedAt (oracles w ! i)
      \<longrightarrow> (\<forall>w'. enableTradingWithOraclePrice sender w \<noteq> Inr w')
          \<and> (\<forall>prices. getDeterminedPrices w amounts \<noteq> Inr (prices, ORACLE))
          \<and> (\<forall>w'. deposit sender tokenWithAmount w = Inr w' \<longrightarrow>
                 (\<exists>w1 poolTokens vals prices.
                    lockGuardianFees False w = Inr w1
                    \<and> getValuesFromTokenWithValues w1 tokenWithAmount poolTokens = Inr vals
                    \<and> getDeterminedPrices w1 vals = Inr (prices, SPOT))))"
proof (intro conjI impI allI)
  show "checkOracleStatus w updatedAt = Inl Mammon__OraclesAreDisabled" if "\<not> oraclesEnabled w"
    using that by (simp add: checkOracleStatus_def)
next
  assume a: "oraclesEnabled w \<and> numOracles w \<le> length updatedAt
        \<and> (\<forall>j < numOracles w. j \<noteq> numeraireAssetIndex w \<longrightarrow> updatedAt ! j \<le> blockTimestamp w)
        \<and> i < numOracles w \<and> i \<noteq> numeraireAssetIndex w
        \<and> maxOracleDelay w < blockTimestamp w - updatedAt ! i"
  then show "\<exists>k \<le> i. k \<noteq> numeraireAssetIndex w
              \<and> maxOracleDelay w < blockTimestamp w - updatedAt ! k
              \<and> checkOracleStatus w updatedAt
                  = Inl (Mammon__OracleIsDelayedBeyondMax k (blockTimestamp w - updatedAt ! k)
                           (maxOracleDelay w))"
    using checkOracleStatus_delayed[of w updatedAt i] by blast
next
  fix w'
  assume "i < numOracles w \<and> i \<noteq> numeraireAssetIndex w
        \<and> maxOracleDelay w < blockTimestamp w - oUpdatedAt (oracles w ! i)"
  then show "enableTradingWithOraclePrice sender w \<noteq> Inr w'"
    using enableTradingWithOraclePrice_stale_fails[of i w sender w'] by blast
next
  fix prices
  assume "i < numOracles w \<and> i \<noteq> numeraireAssetIndex w
        \<and> maxOracleDelay w < blockTimestamp w - oUpdatedAt (oracles w ! i)"
  then show "getDeterminedPrices w amounts \<noteq> Inr (prices, ORACLE)"
    using getDeterminedPrices_stale_not_oracle[of i w amounts prices] by blast
next
  fix w'
  assume "i < numOracles w \<and> i \<noteq> numeraireAssetIndex w
        \<and> maxOracleDelay w < blockTimestamp w - oUpdatedAt (oracles w ! i)"
    and "deposit sender tokenWithAmount w = Inr w'"
  then show "\<exists>w1 poolTokens vals prices.
                    lockGuardianFees False w = Inr w1
                    \<and> getValuesFromTokenWithValues w1 tokenWithAmount poolTokens = Inr vals
                    \<and> getDeterminedPrices w1 vals = Inr (prices, SPOT)"
    using deposit_stale_priced_at_spot[of i w sender tokenWithAmount w'] by blast
qed

theorem oracle_staleness_gate_witness:
  "checkOracleStatus (exampleVault\<lparr>oraclesEnabled := False\<rparr>) [0, 1000400] = Inl Mammon__OraclesAreDisabled
   \<and> (\<exists>k \<le> 1. k \<noteq> 0 \<and>
         checkOracleStatus (exampleVault\<lparr>blockTimestamp := 1010000\<rparr>) [0, 1000400]
           = Inl (Mammon__OracleIsDelayedBeyondMax k (1010000 - [0, 1000400] ! k) 3600))
   \<and> (\<forall>w'. enableTradingWithOraclePrice 2 (exampleVault\<lparr>blockTimestamp := 1010000\<rparr>) \<noteq> Inr w')
   \<and> (\<forall>prices. getDeterminedPrices (exampleVault\<lparr>blockTimestamp := 1010000\<rparr>) [0, 0, 0]
                   \<noteq> Inr (prices, ORACLE))
   \<and> deposit 1 [(11, 100), (12, 100), (13, 0)] (exampleVault\<lparr>blockTimestamp := 1010000\<rparr>)
       = Inl (Mammon__OracleIsDelayedBeyondMax 1 9600 3600)
   \<and> (\<exists>w' w1 poolTokens vals prices.
         deposit 1 [(11, 5), (12, 5), (13, 0)] (exampleVault\<lparr>blockTimestamp := 1010000\<rparr>) = Inr w'
         \<and> lockGuardianFees False (exampleVault\<lparr>blockTimestamp := 1010000\<rparr>) = Inr w1
         \<and> getValuesFromTokenWithValues w1 [(11, 5), (12, 5), (13, 0)] poolTokens = Inr vals
         \<and> getDeterminedPrices w1 vals = Inr (prices, SPOT))"
proof -
  let ?d = "exampleVault\<lparr>oraclesEnabled := False\<rparr>"
  let ?s = "exampleVault\<lparr>blockTimestamp := 1010000\<rparr>"
  let ?A = "[(11, 5), (12, 5), (13, 0)] :: TokenValue list"
  have h1: "\<not> oraclesEnabled ?d" by (simp add: exampleVault_def)
  have h2: "oraclesEnabled ?s \<and> numOracles ?s \<le> length [0, 1000400::nat]
        \<and> (\<forall>j < numOracles ?s. j \<noteq> numeraireAssetIndex ?s \<longrightarrow> [0, 1000400] ! j \<le> blockTimestamp ?s)
        \<and> 1 < numOracles ?s \<and> 1 \<noteq> numeraireAssetIndex ?s
        \<and> maxOracleDelay ?s < blockTimestamp ?s - [0, 1000400] ! 1"
    by (auto simp: exampleVault_def numOracles_def less_2_cases_iff)
  have h3: "1 < numOracles ?s \<and> 1 \<noteq> numeraireAssetIndex ?s
        \<and> maxOracleDelay ?s < blockTimestamp ?s - oUpdatedAt (oracles ?s ! 1)"
    by (simp add: exampleVault_def numOracles_def)
  have n: "numeraireAssetIndex ?s = 0" "blockTimestamp ?s = 1010000" "maxOracleDelay ?s = 3600"
    by (simp_all add: exampleVault_def)
  have big: "deposit 1 [(11, 100), (12, 100), (13, 0)] ?s
               = Inl (Mammon__OracleIsDelayedBeyondMax 1 9600 3600)"
    by (simp add: eval_simps exampleVault_def)
  have "\<exists>w'. deposit 1 ?A ?s = Inr w'"
    by (simp add: eval_simps exampleVault_def)
  then obtain w' where small: "deposit 1 ?A ?s = Inr w'" by blast
  from oracle_staleness_gate[of ?d "[0, 1000400]"] h1
  have c1: "checkOracleStatus ?d [0, 1000400] = Inl Mammon__OraclesAreDisabled" by blast
  from oracle_staleness_gate[of ?s "[0, 1000400]" 1 2 "[0, 0, 0]"] h2 h3
  have c2: "\<exists>k \<le> 1. k \<noteq> numeraireAssetIndex ?s \<and>
               checkOracleStatus ?s [0, 1000400]
                 = Inl (Mammon__OracleIsDelayedBeyondMax k (blockTimestamp ?s - [0, 1000400] ! k)
                          (maxOracleDelay ?s))"
    and c3: "\<forall>w'. enableTradingWithOraclePrice 2 ?s \<noteq> Inr w'"
    and c4: "\<forall>prices. getDeterminedPrices ?s [0, 0, 0] \<noteq> Inr (prices, ORACLE)"
    by blast+
  from oracle_staleness_gate[where w = ?s and i = 1 and sender = 1 and tokenWithAmount = ?A] h3 small
  have c5: "\<exists>w1 poolTokens vals prices.
                    lockGuardianFees False ?s = Inr w1
                    \<and> getValuesFromTokenWithValues w1 ?A poolTokens = Inr vals
                    \<and> getDeterminedPrices w1 vals = Inr (prices, SPOT)"
    by blast
  show ?thesis using c1 c2 c3 c4 c5 big small unfolding n by blast
qed

section \<open>The claims on concrete states\<close>

lemma rateCheckInputs_one_zero_zero:
  "rateCheckInputs [(11, 10 ^ 18), (12, 0), (13, 0)] threeTokenVault
   = Inr ([11, 12, 13], [5 * 10 ^ 16, 9 * 10 ^ 17, 5 * 10 ^ 16], [10 ^ 18, 0, 0], 3)"
  by (simp add: eval_simps threeTokenVault_def)

lemma rateCheckInputs_zero_zero_one:
  "rateCheckInputs [(11, 0), (12, 0), (13, 10 ^ 18)] threeTokenVault
   = Inr ([11, 12, 13], [5 * 10 ^ 16, 9 * 10 ^ 17, 5 * 10 ^ 16], [0, 0, 10 ^ 18], 3)"
  by (simp add: eval_simps threeTokenVault_def)

lemma rateCheckInputs_all_positive:
  "rateCheckInputs [(11, 9 * 10 ^ 17), (12, 5 * 10 ^ 16), (13, 5 * 10 ^ 16)] threeTokenVault
   = Inr ([11, 12, 13], [5 * 10 ^ 16, 9 * 10 ^ 17, 5 * 10 ^ 16],
          [9 * 10 ^ 17, 5 * 10 ^ 16, 5 * 10 ^ 16], 3)"
  by (simp add: eval_simps threeTokenVault_def)

lemma threeTokenVault_guards:
  "2 = guardian threeTokenVault" "initialized threeTokenVault" "\<not> finalized threeTokenVault"
  "(0::nat) \<le> MAX_UINT32" "1014900 \<le> MAX_UINT32"
  "max (blockTimestamp threeTokenVault) 0 + MINIMUM_WEIGHT_CHANGE_DURATION \<le> 1014900"
  by (simp_all add: threeTokenVault_def MAX_UINT32_def MINIMUM_WEIGHT_CHANGE_DURATION_def)

lemma threeTokenVault_limit:
  "MAX_WEIGHT_CHANGE_RATIO * (1014900 - max (blockTimestamp threeTokenVault) 0) = 144 * 10 ^ 17"
  by (simp add: threeTokenVault_def MAX_WEIGHT_CHANGE_RATIO_def)

theorem rate_limit_rejection_witness:
  "updateWeightsGradually 2 [(11, 9 * 10 ^ 17), (12, 5 * 10 ^ 16), (13, 5 * 10 ^ 16)] 0 1014900
     threeTokenVault
   = Inl (Mammon__WeightChangeRatioIsAboveMax 11 (18 * 10 ^ 18) (144 * 10 ^ 17))"
proof -
  have h: "(0::nat) < 3" "3 \<le> length [5 * 10 ^ 16, 9 * 10 ^ 17, 5 * 10 ^ 16 :: nat]"
    "3 \<le> length [9 * 10 ^ 17, 5 * 10 ^ 16, 5 * 10 ^ 16 :: nat]" "3 \<le> length [11, 12, 13 :: nat]"
    by simp_all
  have nz: "\<forall>j \<le> 0. 0 < [5 * 10 ^ 16, 9 * 10 ^ 17, 5 * 10 ^ 16 :: nat] ! j
              \<and> 0 < [9 * 10 ^ 17, 5 * 10 ^ 16, 5 * 10 ^ 16 :: nat] ! j
              \<and> [5 * 10 ^ 16, 9 * 10 ^ 17, 5 * 10 ^ 16 :: nat] ! j \<le> ONE
              \<and> [9 * 10 ^ 17, 5 * 10 ^ 16, 5 * 10 ^ 16 :: nat] ! j \<le> ONE"
    by (simp add: ONE_def)
  have above: "MAX_WEIGHT_CHANGE_RATIO * (1014900 - max (blockTimestamp threeTokenVault) 0)
           < ONE * max ([5 * 10 ^ 16, 9 * 10 ^ 17, 5 * 10 ^ 16] ! 0) ([9 * 10 ^ 17, 5 * 10 ^ 16, 5 * 10 ^ 16] ! 0)
               div min ([5 * 10 ^ 16, 9 * 10 ^ 17, 5 * 10 ^ 16] ! 0) ([9 * 10 ^ 17, 5 * 10 ^ 16, 5 * 10 ^ 16] ! 0)"
    unfolding threeTokenVault_limit by (simp add: ONE_def)
  from rate_limit_rejection[OF threeTokenVault_guards rateCheckInputs_all_positive h nz above]
  show ?thesis unfolding threeTokenVault_limit by (simp add: ONE_def)
qed

text \<open>
  C5 as stated fails: with targets 0, 0 and 1 the change ratio of the third pool token (from
  5% to 100%, twenty-fold) exceeds the limit of 14.4, yet the call fails with the
  division-by-zero panic raised for the first pool token, whose target weight is zero, and
  not with \<open>WeightChangeRatioIsAboveMax\<close>.
\<close>

theorem rate_limit_panic_counterexample:
  "rateCheckInputs [(11, 0), (12, 0), (13, 10 ^ 18)] threeTokenVault
     = Inr ([11, 12, 13], [5 * 10 ^ 16, 9 * 10 ^ 17, 5 * 10 ^ 16], [0, 0, 10 ^ 18], 3)
   \<and> MAX_WEIGHT_CHANGE_RATIO * (1014900 - max (blockTimestamp threeTokenVault) 0)
        < ONE * max (5 * 10 ^ 16) (10 ^ 18) div min (5 * 10 ^ 16) (10 ^ 18)
   \<and> updateWeightsGradually 2 [(11, 0), (12, 0), (13, 10 ^ 18)] 0 1014900 threeTokenVault
        = Inl (Panic PANIC_DIV)"
proof -
  have z: "(0::nat) < 3" "3 \<le> length [5 * 10 ^ 16, 9 * 10 ^ 17, 5 * 10 ^ 16 :: nat]"
    "3 \<le> length [0, 0, 10 ^ 18 :: nat]"
    "[5 * 10 ^ 16, 9 * 10 ^ 17, 5 * 10 ^ 16 :: nat] ! 0 = 0 \<or> [0, 0, 10 ^ 18 :: nat] ! 0 = 0"
    "[5 * 10 ^ 16, 9 * 10 ^ 17, 5 * 10 ^ 16 :: nat] ! 0 \<le> ONE" "[0, 0, 10 ^ 18 :: nat] ! 0 \<le> ONE"
    by (simp_all add: ONE_def)
  have "updateWeightsGradually 2 [(11, 0), (12, 0), (13, 10 ^ 18)] 0 1014900 threeTokenVault
        = Inl (Panic PANIC_DIV)"
    by (rule updateWeightsGradually_zero_weight
          [OF threeTokenVault_guards rateCheckInputs_zero_zero_one z]) simp
  then show ?thesis
    using rateCheckInputs_zero_zero_one unfolding threeTokenVault_limit by (simp add: ONE_def)
qed

theorem zero_weight_panics_witness:
  "updateWeightsGradually 2 [(11, 0), (12, 0), (13, 10 ^ 18)] 0 1014900 threeTokenVault
     = Inl (Panic PANIC_DIV)
   \<and> updateWeightsGradually 2 [(11, 9 * 10 ^ 17), (12, 5 * 10 ^ 16), (13, 5 * 10 ^ 16)] 0 1014900
       threeTokenVault \<noteq> Inl (Panic PANIC_DIV)"
proof -
  have z: "(0::nat) < 3 \<and> 3 \<le> length [5 * 10 ^ 16, 9 * 10 ^ 17, 5 * 10 ^ 16 :: nat]
    \<and> 3 \<le> length [0, 0, 10 ^ 18 :: nat]
    \<and> ([5 * 10 ^ 16, 9 * 10 ^ 17, 5 * 10 ^ 16 :: nat] ! 0 = 0 \<or> [0, 0, 10 ^ 18 :: nat] ! 0 = 0)
    \<and> [5 * 10 ^ 16, 9 * 10 ^ 17, 5 * 10 ^ 16 :: nat] ! 0 \<le> ONE \<and> [0, 0, 10 ^ 18 :: nat] ! 0 \<le> ONE
    \<and> (\<forall>j < 0. 0 < [5 * 10 ^ 16, 9 * 10 ^ 17, 5 * 10 ^ 16 :: nat] ! j \<and> 0 < [0, 0, 10 ^ 18 :: nat] ! j
          \<and> [5 * 10 ^ 16, 9 * 10 ^ 17, 5 * 10 ^ 16 :: nat] ! j \<le> ONE \<and> [0, 0, 10 ^ 18 :: nat] ! j \<le> ONE
          \<and> ONE * max ([5 * 10 ^ 16, 9 * 10 ^ 17, 5 * 10 ^ 16] ! j) ([0, 0, 10 ^ 18] ! j)
               div min ([5 * 10 ^ 16, 9 * 10 ^ 17, 5 * 10 ^ 16] ! j) ([0, 0, 10 ^ 18] ! j)
              \<le> MAX_WEIGHT_CHANGE_RATIO * (1014900 - max (blockTimestamp threeTokenVault) 0))"
    by (simp add: ONE_def)
  have p: "\<forall>j < 3. 0 < [5 * 10 ^ 16, 9 * 10 ^ 17, 5 * 10 ^ 16 :: nat] ! j
                 \<and> 0 < [9 * 10 ^ 17, 5 * 10 ^ 16, 5 * 10 ^ 16 :: nat] ! j"
    by (auto simp: less_Suc_eq numeral_3_eq_3)
  from zero_weight_panics[OF threeTokenVault_guards rateCheckInputs_zero_zero_one, of 0] z
  have a: "updateWeightsGradually 2 [(11, 0), (12, 0), (13, 10 ^ 18)] 0 1014900 threeTokenVault
     = Inl (Panic PANIC_DIV)" by blast
  from zero_weight_panics[OF threeTokenVault_guards rateCheckInputs_all_positive, of 0] p
  have b: "updateWeightsGradually 2 [(11, 9 * 10 ^ 17), (12, 5 * 10 ^ 16), (13, 5 * 10 ^ 16)] 0 1014900
       threeTokenVault \<noteq> Inl (Panic PANIC_DIV)" by blast
  show ?thesis using a b by simp
qed

text \<open>
  C10 as stated fails: with targets 1, 0 and 0 the second and third pool tokens have a zero
  target weight, yet the call aborts with the typed error \<open>WeightChangeRatioIsAboveMax\<close>,
  raised for the first pool token (from 5% to 100%), and not with an arithmetic panic.
\<close>

theorem zero_weight_named_error_counterexample:
  "rateCheckInputs [(11, 10 ^ 18), (12, 0), (13, 0)] threeTokenVault
     = Inr ([11, 12, 13], [5 * 10 ^ 16, 9 * 10 ^ 17, 5 * 10 ^ 16], [10 ^ 18, 0, 0], 3)
   \<and> updateWeightsGradually 2 [(11, 10 ^ 18), (12, 0), (13, 0)] 0 1014900 threeTokenVault
        = Inl (Mammon__WeightChangeRatioIsAboveMax 11 (20 * 10 ^ 18) (144 * 10 ^ 17))"
proof -
  have h: "(0::nat) < 3" "3 \<le> length [5 * 10 ^ 16, 9 * 10 ^ 17, 5 * 10 ^ 16 :: nat]"
    "3 \<le> length [10 ^ 18, 0, 0 :: nat]" "3 \<le> length [11, 12, 13 :: nat]"
    by simp_all
  have nz: "\<forall>j \<le> 0. 0 < [5 * 10 ^ 16, 9 * 10 ^ 17, 5 * 10 ^ 16 :: nat] ! j
              \<and> 0 < [10 ^ 18, 0, 0 :: nat] ! j
              \<and> [5 * 10 ^ 16, 9 * 10 ^ 17, 5 * 10 ^ 16 :: nat] ! j \<le> ONE
              \<and> [10 ^ 18, 0, 0 :: nat] ! j \<le> ONE"
    by (simp add: ONE_def)
  have above: "MAX_WEIGHT_CHANGE_RATIO * (1014900 - max (blockTimestamp threeTokenVault) 0)
           < ONE * max ([5 * 10 ^ 16, 9 * 10 ^ 17, 5 * 10 ^ 16] ! 0) ([10 ^ 18, 0, 0] ! 0)
               div min ([5 * 10 ^ 16, 9 * 10 ^ 17, 5 * 10 ^ 16] ! 0) ([10 ^ 18, 0, 0] ! 0)"
    unfolding threeTokenVault_limit by (simp add: ONE_def)
  from updateWeightsGradually_above[OF threeTokenVault_guards rateCheckInputs_one_zero_zero h nz above]
  have "updateWeightsGradually 2 [(11, 10 ^ 18), (12, 0), (13, 0)] 0 1014900 threeTokenVault
        = Inl (Mammon__WeightChangeRatioIsAboveMax 11 (20 * 10 ^ 18) (144 * 10 ^ 17))"
    unfolding threeTokenVault_limit by (simp add: ONE_def)
  then show ?thesis using rateCheckInputs_one_zero_zero by simp
qed

theorem determined_prices_decision_witness:
  "getDeterminedPrices youngVault [100, 100, 0] = Inr ([10 ^ 18, 2 * 10 ^ 18], ORACLE)
   \<and> getDeterminedPrices divergedVault [100, 100, 0]
       = Inl (Mammon__OracleSpotPriceDivergenceExceedsMax 1 (2 * 10 ^ 18) (11 * 10 ^ 17))
   \<and> getDeterminedPrices staleVault [5, 5, 0] = Inr ([10 ^ 18, 10 ^ 18], SPOT)
   \<and> getDeterminedPrices staleVault [100, 100, 0] = Inl (Mammon__OracleIsDelayedBeyondMax 1 100 50)
   \<and> getDeterminedPrices exampleVault [100, 100, 0] = Inr ([10 ^ 18, 10 ^ 18], ORACLE)
   \<and> getDeterminedPrices zeroSpotVault [5, 5, 0] = Inl (Panic PANIC_DIV)"
proof -
  have two: "\<And>j::nat. j < 2 \<longleftrightarrow> j = 0 \<or> j = 1" by auto
  have y: "getPoolHoldings youngVault = Inr [1000, 1000]"
    "getOraclePrices youngVault = Inr ([10 ^ 18, 2 * 10 ^ 18], [0, 1000400])"
    "getSpotPrices youngVault [1000, 1000] = Inr [10 ^ 18, 10 ^ 18]"
    "getUnderlyingBalances youngVault = Inr [100]"
    "getUnderlyingTotalBalances youngVault (underlyingIndexes youngVault) [1000, 1000] [100]
       = Inr [1100, 1000]"
    "getValue youngVault [1100, 1000] [10 ^ 18, 10 ^ 18] = Inr 2100"
    by (simp_all add: eval_simps youngVault_def divergedVault_def exampleVault_def)
  have yc: "checkOracleStatus youngVault [0, 1000400] = Inr ()"
    by (simp add: eval_simps youngVault_def divergedVault_def exampleVault_def)
  have yv: "minReliableVaultValue youngVault = 5000"
    by (simp add: youngVault_def divergedVault_def exampleVault_def)
  have young: "getDeterminedPrices youngVault [100, 100, 0] = Inr ([10 ^ 18, 2 * 10 ^ 18], ORACLE)"
    using determined_prices_decision[OF y, where amounts = "[100, 100, 0]" and k = 1 and z = 1]
    by (simp add: yv yc)
  have d: "getPoolHoldings divergedVault = Inr [1000, 1000]"
    "getOraclePrices divergedVault = Inr ([10 ^ 18, 2 * 10 ^ 18], [0, 1000400])"
    "getSpotPrices divergedVault [1000, 1000] = Inr [10 ^ 18, 10 ^ 18]"
    "getUnderlyingBalances divergedVault = Inr [100]"
    "getUnderlyingTotalBalances divergedVault (underlyingIndexes divergedVault) [1000, 1000] [100]
       = Inr [1100, 1000]"
    "getValue divergedVault [1100, 1000] [10 ^ 18, 10 ^ 18] = Inr 2100"
    by (simp_all add: eval_simps divergedVault_def exampleVault_def)
  have dv: "minReliableVaultValue divergedVault = 10" "numPoolTokens divergedVault = 2"
    "numeraireAssetIndex divergedVault = 0" "maxOracleSpotDivergence divergedVault = 11 * 10 ^ 17"
    by (simp_all add: divergedVault_def exampleVault_def)
  have diverged: "getDeterminedPrices divergedVault [100, 100, 0]
       = Inl (Mammon__OracleSpotPriceDivergenceExceedsMax 1 (2 * 10 ^ 18) (11 * 10 ^ 17))"
    using determined_prices_decision[OF d, where amounts = "[100, 100, 0]" and k = 1 and z = 1]
    by (simp add: dv ONE_def MAX_UINT256_def)
  have s: "getPoolHoldings staleVault = Inr [1000, 1000]"
    "getOraclePrices staleVault = Inr ([10 ^ 18, 10 ^ 18], [0, 1000400])"
    "getSpotPrices staleVault [1000, 1000] = Inr [10 ^ 18, 10 ^ 18]"
    "getUnderlyingBalances staleVault = Inr [100]"
    "getUnderlyingTotalBalances staleVault (underlyingIndexes staleVault) [1000, 1000] [100]
       = Inr [1100, 1000]"
    "getValue staleVault [1100, 1000] [10 ^ 18, 10 ^ 18] = Inr 2100"
    by (simp_all add: eval_simps staleVault_def exampleVault_def)
  have sv: "minReliableVaultValue staleVault = 10" "numPoolTokens staleVault = 2"
    "numeraireAssetIndex staleVault = 0" "maxOracleSpotDivergence staleVault = 11 * 10 ^ 17"
    "minSignificantDepositValue staleVault = 20"
    by (simp_all add: staleVault_def exampleVault_def)
  have sd: "getValue staleVault [5, 5, 0] [10 ^ 18, 10 ^ 18] = Inr 10"
    "getValue staleVault [100, 100, 0] [10 ^ 18, 10 ^ 18] = Inr 200"
    "checkOracleStatus staleVault [0, 1000400] = Inl (Mammon__OracleIsDelayedBeyondMax 1 100 50)"
    by (simp_all add: eval_simps staleVault_def exampleVault_def)
  have small: "getDeterminedPrices staleVault [5, 5, 0] = Inr ([10 ^ 18, 10 ^ 18], SPOT)"
    using determined_prices_decision[OF s, where amounts = "[5, 5, 0]" and depositValue = 10 and k = 1 and z = 1]
    by (simp add: sv sd[simplified] two ONE_def MAX_UINT256_def)
  have stale: "getDeterminedPrices staleVault [100, 100, 0] = Inl (Mammon__OracleIsDelayedBeyondMax 1 100 50)"
    using determined_prices_decision[OF s, where amounts = "[100, 100, 0]" and depositValue = 200 and k = 1 and z = 1]
    by (simp add: sv sd[simplified] two ONE_def MAX_UINT256_def)
  have e: "getPoolHoldings exampleVault = Inr [1000, 1000]"
    "getOraclePrices exampleVault = Inr ([10 ^ 18, 10 ^ 18], [0, 1000400])"
    "getSpotPrices exampleVault [1000, 1000] = Inr [10 ^ 18, 10 ^ 18]"
    "getUnderlyingBalances exampleVault = Inr [100]"
    "getUnderlyingTotalBalances exampleVault (underlyingIndexes exampleVault) [1000, 1000] [100]
       = Inr [1100, 1000]"
    "getValue exampleVault [1100, 1000] [10 ^ 18, 10 ^ 18] = Inr 2100"
    by (simp_all add: eval_simps exampleVault_def)
  have ev: "minReliableVaultValue exampleVault = 10" "numPoolTokens exampleVault = 2"
    "numeraireAssetIndex exampleVault = 0" "maxOracleSpotDivergence exampleVault = 11 * 10 ^ 17"
    "minSignificantDepositValue exampleVault = 20"
    by (simp_all add: exampleVault_def)
  have ed: "getValue exampleVault [100, 100, 0] [10 ^ 18, 10 ^ 18] = Inr 200"
    "checkOracleStatus exampleVault [0, 1000400] = Inr ()"
    by (simp_all add: eval_simps exampleVault_def)
  have fresh: "getDeterminedPrices exampleVault [100, 100, 0] = Inr ([10 ^ 18, 10 ^ 18], ORACLE)"
    using determined_prices_decision[OF e, where amounts = "[100, 100, 0]" and depositValue = 200 and k = 1 and z = 1]
    by (simp add: ev ed[simplified] two ONE_def MAX_UINT256_def)
  have o: "getPoolHoldings zeroSpotVault = Inr [1, 10 ^ 19]"
    "getOraclePrices zeroSpotVault = Inr ([10 ^ 18, 10 ^ 18], [0, 1000400])"
    "getSpotPrices zeroSpotVault [1, 10 ^ 19] = Inr [10 ^ 18, 0]"
    "getUnderlyingBalances zeroSpotVault = Inr [100]"
    "getUnderlyingTotalBalances zeroSpotVault (underlyingIndexes zeroSpotVault) [1, 10 ^ 19] [100]
       = Inr [101, 10 ^ 19]"
    "getValue zeroSpotVault [101, 10 ^ 19] [10 ^ 18, 0] = Inr 101"
    by (simp_all add: eval_simps zeroSpotVault_def exampleVault_def)
  have ov: "minReliableVaultValue zeroSpotVault = 10" "numPoolTokens zeroSpotVault = 2"
    "numeraireAssetIndex zeroSpotVault = 0" "maxOracleSpotDivergence zeroSpotVault = 11 * 10 ^ 17"
    by (simp_all add: zeroSpotVault_def exampleVault_def)
  have zero: "getDeterminedPrices zeroSpotVault [5, 5, 0] = Inl (Panic PANIC_DIV)"
    using determined_prices_decision[OF o, where amounts = "[5, 5, 0]" and k = 1 and z = 1]
    by (simp add: ov ONE_def MAX_UINT256_def)
  show ?thesis using young diverged small stale fresh zero by simp
qed

text \<open>
  The claim C2 as stated fails: on a vault worth more than \<open>minReliableVaultValue\<close> whose
  pool holds 1 of the numeraire and \<open>10 ^ 19\<close> of token 1, the spot price of token 1
  truncates to zero, and \<open>getDeterminedPrices\<close> neither returns prices nor fails with
  \<open>OracleSpotPriceDivergenceExceedsMax\<close>: it aborts with the division-by-zero panic.
\<close>

theorem determined_prices_zero_spot_counterexample:
  "minReliableVaultValue zeroSpotVault = 10
   \<and> getValue zeroSpotVault [101, 10 ^ 19] [10 ^ 18, 0] = Inr 101
   \<and> getOraclePrices zeroSpotVault = Inr ([10 ^ 18, 10 ^ 18], [0, 1000400])
   \<and> getSpotPrices zeroSpotVault [1, 10 ^ 19] = Inr [10 ^ 18, 0]
   \<and> getDeterminedPrices zeroSpotVault [5, 5, 0] = Inl (Panic PANIC_DIV)"
  by (simp add: eval_simps zeroSpotVault_def exampleVault_def)



theorem deposit_then_withdraw_restores_holdings_witness:
  "getHoldings openVault = Inr [1000, 1000, 50]
   \<and> (\<exists>w1 w2. deposit 1 [(11, 100), (12, 50), (13, 20)] openVault = Inr w1
         \<and> getHoldings w1 = Inr [1100, 1050, 70]
         \<and> withdraw 1 [(11, 100), (12, 50), (13, 20)] w1 = Inr w2
         \<and> getHoldings w2 = Inr [1000, 1000, 50])"
proof -
  let ?A = "[(11, 100), (12, 50), (13, 20)] :: TokenValue list"
  have h: "getHoldings openVault = Inr [1000, 1000, 50]"
    by (simp add: eval_simps openVault_def exampleVault_def)
  have f: "managementFee openVault = 0" "\<forall>i < numPoolTokens openVault. managed openVault ! i = 0"
    "owner openVault \<noteq> vaultAddress openVault"
    "\<forall>j < numYieldTokens openVault. \<not> isWithdrawable openVault ! j
           \<longrightarrow> snd (?A ! (numPoolTokens openVault + j)) = 0"
    by (simp_all add: openVault_def exampleVault_def less_Suc_eq numeral_2_eq_2)
  have "\<exists>w1 w2. deposit 1 ?A openVault = Inr w1 \<and> getHoldings w1 = Inr [1100, 1050, 70]
           \<and> withdraw 1 ?A w1 = Inr w2"
    by (simp add: eval_simps openVault_def exampleVault_def)
  then obtain w1 w2 where d: "deposit 1 ?A openVault = Inr w1"
    and h1: "getHoldings w1 = Inr [1100, 1050, 70]"
    and wd: "withdraw 1 ?A w1 = Inr w2" by blast
  have "getHoldings w2 = getHoldings openVault"
    using deposit_then_withdraw_restores_holdings[OF f disjI1[OF d] wd] .
  then show ?thesis using h d h1 wd by auto
qed

text \<open>
  The claim C3 as stated fails: on the small vault, whose yield token is not directly
  withdrawable and is worth two units of its underlying token, the deposit of 20 shares
  followed by the withdrawal of the same amount leaves the holdings of the yield token at
  60 instead of 50, because the withdrawal is counted in the underlying token.
\<close>

theorem deposit_then_withdraw_yield_counterexample:
  "managementFee exampleVault = 0
   \<and> getHoldings exampleVault = Inr [1000, 1000, 50]
   \<and> rbind (rbind (deposit 1 [(11, 0), (12, 0), (13, 20)] exampleVault)
                   (withdraw 1 [(11, 0), (12, 0), (13, 20)])) getHoldings
       = Inr [1000, 1000, 60]"
  by (simp add: eval_simps exampleVault_def)

end
